(* ===== verification/Prelude.thy ===== *)
theory Prelude
  imports Main "HOL-Library.Word" "HOL-Library.AList" "HOL-Library.Sublist"
begin

text \<open>
  What every component shares: the machine integers of the code, the outcome of a call
  (value, error or panic) with the state it leaves behind, hash maps, and the operations of
  Rust's string library that the code calls, each with the facts the component proofs use.
\<close>

section \<open>Machine integers\<close>

type_synonym u8 = "8 word"
type_synonym u16 = "16 word"
type_synonym u32 = "32 word"
type_synonym u64 = "64 word"

text \<open>
  A signed 32-bit integer is the same 32 bits, read with \<open>sint\<close>: the casts \<open>as i32\<close> and
  \<open>as u32\<close> of the code keep the bits. Likewise for 64 bits.
\<close>

type_synonym i32 = "32 word"
type_synonym i64 = "64 word"

text \<open>\<open>checked_add\<close> and \<open>checked_sub\<close> of the unsigned types.\<close>

definition checked_add :: "'n::len word \<Rightarrow> 'n word \<Rightarrow> 'n word option" where
  "checked_add a b = (if unat a + unat b < 2 ^ LENGTH('n) then Some (a + b) else None)"

definition checked_sub :: "'n::len word \<Rightarrow> 'n word \<Rightarrow> 'n word option" where
  "checked_sub a b = (if b \<le> a then Some (a - b) else None)"

lemma checked_add_unat: "checked_add a b = Some c \<Longrightarrow> unat c = unat a + unat b"
  by (auto simp: checked_add_def unat_word_ariths split: if_splits)

lemma checked_sub_unat: "checked_sub a b = Some c \<Longrightarrow> unat c + unat b = unat a"
  by (auto simp: checked_sub_def unat_sub word_le_nat_alt split: if_splits)

lemma checked_add_less: "checked_add a 1 = Some c \<Longrightarrow> a < c"
  by (drule checked_add_unat) (cases "LENGTH('a) = 0"; simp add: word_less_nat_alt)

section \<open>Outcomes and actions\<close>

text \<open>
  A call returns a value, an error (the \<open>Err\<close> that \<open>?\<close> hands to the caller) or panics. An
  action is a call on a state: it always leaves a state behind, because what a method changed
  before it failed stays changed.
\<close>

datatype ('e, 'a) outcome = Ok 'a | Err 'e | Panic string

type_synonym ('s, 'e, 'a) act = "'s \<Rightarrow> ('e, 'a) outcome \<times> 's"

fun is_panic :: "('e, 'a) outcome \<Rightarrow> bool" where
  "is_panic (Panic _) = True"
| "is_panic _ = False"

definition ret :: "'a \<Rightarrow> ('s, 'e, 'a) act" where
  "ret x s = (Ok x, s)"

definition throw :: "'e \<Rightarrow> ('s, 'e, 'a) act" where
  "throw e s = (Err e, s)"

definition panic :: "string \<Rightarrow> ('s, 'e, 'a) act" where
  "panic p s = (Panic p, s)"

definition gets :: "('s \<Rightarrow> 'a) \<Rightarrow> ('s, 'e, 'a) act" where
  "gets f s = (Ok (f s), s)"

definition modify :: "('s \<Rightarrow> 's) \<Rightarrow> ('s, 'e, unit) act" where
  "modify f s = (Ok (), f s)"

text \<open>\<open>m?\<close> followed by the rest \<open>f\<close> of the function body.\<close>

definition try_bind :: "('s, 'e, 'a) act \<Rightarrow> ('a \<Rightarrow> ('s, 'e, 'b) act) \<Rightarrow> ('s, 'e, 'b) act" where
  "try_bind m f s =
    (case m s of
       (Ok x, s') \<Rightarrow> f x s'
     | (Err e, s') \<Rightarrow> (Err e, s')
     | (Panic p, s') \<Rightarrow> (Panic p, s'))"

text \<open>A call whose error is dropped or logged (\<open>.ok()\<close>, \<open>if let Err(e) = ...\<close>).\<close>

definition ignore_err :: "('s, 'e, 'a) act \<Rightarrow> ('s, 'e, unit) act" where
  "ignore_err m s =
    (case m s of
       (Ok _, s') \<Rightarrow> (Ok (), s')
     | (Err _, s') \<Rightarrow> (Ok (), s')
     | (Panic p, s') \<Rightarrow> (Panic p, s'))"

text \<open>An action on a part of the state, behind its own lock.\<close>

definition zoom :: "('s \<Rightarrow> 'p) \<Rightarrow> ('p \<Rightarrow> 's \<Rightarrow> 's) \<Rightarrow> ('p, 'e, 'a) act \<Rightarrow> ('s, 'e, 'a) act" where
  "zoom get put m s = (case m (get s) of (r, p) \<Rightarrow> (r, put p s))"

text \<open>A \<open>for\<close> loop whose body may leave the function with \<open>?\<close>.\<close>

fun for_each :: "('x \<Rightarrow> ('s, 'e, unit) act) \<Rightarrow> 'x list \<Rightarrow> ('s, 'e, unit) act" where
  "for_each f [] = ret ()"
| "for_each f (x # xs) = try_bind (f x) (\<lambda>_. for_each f xs)"

named_theorems act_simps \<open>how each combinator runs\<close>
named_theorems run_simps \<open>for running the model on a concrete state\<close>

lemma act_runs [act_simps]:
  "ret x s = (Ok x, s)"
  "throw e s = (Err e, s)"
  "panic p s = (Panic p, s)"
  "gets f s = (Ok (f s), s)"
  "modify g s = (Ok (), g s)"
  by (simp_all add: ret_def throw_def panic_def gets_def modify_def)

lemma try_bind_gets [simp]: "try_bind (gets g) f s = f (g s) s"
  by (simp add: try_bind_def gets_def)

lemma try_bind_modify [simp]: "try_bind (modify g) f s = f () (g s)"
  by (simp add: try_bind_def modify_def)

lemma try_bind_ret [simp]: "try_bind (ret x) f = f x"
  by (rule ext) (simp add: try_bind_def ret_def)

lemma try_bind_throw [simp]: "try_bind (throw e) f s = (Err e, s)"
  by (simp add: try_bind_def throw_def)

lemma try_bind_Ok: "m s = (Ok x, t) \<Longrightarrow> try_bind m f s = f x t"
  by (simp add: try_bind_def)

lemma try_bind_Err: "m s = (Err e, t) \<Longrightarrow> try_bind m f s = (Err e, t)"
  by (simp add: try_bind_def)

lemma try_bind_Panic: "m s = (Panic p, t) \<Longrightarrow> try_bind m f s = (Panic p, t)"
  by (simp add: try_bind_def)

lemma try_bind_eq_Ok:
  "try_bind m f s = (Ok y, u) \<longleftrightarrow> (\<exists>x t. m s = (Ok x, t) \<and> f x t = (Ok y, u))"
  by (auto simp: try_bind_def split: prod.splits outcome.splits)

subsection \<open>Keeping an invariant\<close>

text \<open>
  \<open>keeps I m\<close>: whatever \<open>m\<close> returns, it leaves \<open>I\<close> true. \<open>triple P m Q\<close>: from a state with
  \<open>P\<close>, what \<open>m\<close> returns and the state it leaves satisfy \<open>Q\<close>.
\<close>

definition triple :: "('s \<Rightarrow> bool) \<Rightarrow> ('s, 'e, 'a) act \<Rightarrow> (('e, 'a) outcome \<Rightarrow> 's \<Rightarrow> bool) \<Rightarrow> bool" where
  "triple P m Q \<longleftrightarrow> (\<forall>s. P s \<longrightarrow> Q (fst (m s)) (snd (m s)))"

abbreviation keeps :: "('s \<Rightarrow> bool) \<Rightarrow> ('s, 'e, 'a) act \<Rightarrow> bool" where
  "keeps I m \<equiv> triple I m (\<lambda>_. I)"

lemma keepsD: "keeps I m \<Longrightarrow> I s \<Longrightarrow> I (snd (m s))"
  by (simp add: triple_def)

named_theorems keeps_intros \<open>one rule per combinator\<close>

lemma tripleI: "(\<And>s. P s \<Longrightarrow> Q (fst (m s)) (snd (m s))) \<Longrightarrow> triple P m Q"
  by (simp add: triple_def)

lemma tripleD: "triple P m Q \<Longrightarrow> P s \<Longrightarrow> m s = (r, t) \<Longrightarrow> Q r t"
  by (force simp: triple_def)

lemma triple_conseq:
  "triple P m Q \<Longrightarrow> (\<And>s. P' s \<Longrightarrow> P s) \<Longrightarrow> (\<And>r s. Q r s \<Longrightarrow> Q' r s) \<Longrightarrow> triple P' m Q'"
  by (simp add: triple_def)

lemma triple_try_bind:
  assumes "triple P m (\<lambda>r t. case r of Ok x \<Rightarrow> R x t | Err e \<Rightarrow> Q (Err e) t | Panic p \<Rightarrow> Q (Panic p) t)"
    and "\<And>x. triple (R x) (f x) Q"
  shows "triple P (try_bind m f) Q"
proof (rule tripleI)
  fix s
  assume "P s"
  obtain r t where m: "m s = (r, t)" by fastforce
  from assms(1) \<open>P s\<close> m
  have "case r of Ok x \<Rightarrow> R x t | Err e \<Rightarrow> Q (Err e) t | Panic p \<Rightarrow> Q (Panic p) t"
    by (rule tripleD)
  with m assms(2) show "Q (fst (try_bind m f s)) (snd (try_bind m f s))"
    by (cases r) (auto simp: try_bind_def triple_def)
qed

lemma keeps_try_bind [keeps_intros]:
  "keeps I m \<Longrightarrow> (\<And>x. keeps I (f x)) \<Longrightarrow> keeps I (try_bind m f)"
  by (rule triple_try_bind [where R = "\<lambda>_. I"]) (auto simp: triple_def split: outcome.splits)

lemma keeps_basic [keeps_intros]:
  "keeps I (ret x)" "keeps I (throw e)" "keeps I (panic p)" "keeps I (gets g)"
  by (simp_all add: triple_def act_simps)

lemma keeps_modify [keeps_intros]: "(\<And>s. I s \<Longrightarrow> I (g s)) \<Longrightarrow> keeps I (modify g)"
  by (simp add: triple_def act_simps)

lemma keeps_ignore_err [keeps_intros]: "keeps I m \<Longrightarrow> keeps I (ignore_err m)"
  by (fastforce simp: triple_def ignore_err_def split: prod.splits outcome.splits)

lemma keeps_for_each [keeps_intros]:
  "(\<And>x. keeps I (f x)) \<Longrightarrow> keeps I (for_each f xs)"
  by (induction xs) (auto intro: keeps_intros)

text \<open>
  The contract of a safe action: it keeps the invariant, and in a state that satisfies the
  invariant it does not panic. What holds of one such action holds of a call whose error is
  dropped and of a loop of them.
\<close>

locale safe_action =
  fixes I :: "'s \<Rightarrow> bool"
    and m :: "('s, 'e, 'a) act"
  assumes keeps_inv: "I s \<Longrightarrow> I (snd (m s))"
    and never_panics: "I s \<Longrightarrow> \<not> is_panic (fst (m s))"
begin

lemma keeps: "keeps I m"
  by (simp add: triple_def keeps_inv)

lemma run_inv: "I s \<Longrightarrow> m s = (r, t) \<Longrightarrow> I t"
  using keeps_inv by fastforce

lemma run_outcome: "I s \<Longrightarrow> (\<exists>x. fst (m s) = Ok x) \<or> (\<exists>e. fst (m s) = Err e)"
  using never_panics [of s] by (cases "fst (m s)") auto

lemma ignored: "I s \<Longrightarrow> fst (ignore_err m s) = Ok () \<and> I (snd (ignore_err m s))"
  using never_panics [of s] keeps_inv [of s]
  by (auto simp: ignore_err_def split: prod.splits outcome.splits)

end

section \<open>Hash maps\<close>

text \<open>
  A \<open>HashMap\<close> or \<open>IntMap\<close> is an association list: \<open>map_of\<close> looks a key up, \<open>AList.update\<close>
  and \<open>AList.delete\<close> insert and remove, and the list itself is the order in which the map is
  iterated. Rust promises no order; the theorems here hold for whatever order the lists have.
\<close>

type_synonym ('k, 'v) hmap = "('k \<times> 'v) list"

abbreviation hm_insert :: "'k \<Rightarrow> 'v \<Rightarrow> ('k, 'v) hmap \<Rightarrow> ('k, 'v) hmap" where
  "hm_insert k v m \<equiv> AList.update k v m"

abbreviation hm_remove :: "'k \<Rightarrow> ('k, 'v) hmap \<Rightarrow> ('k, 'v) hmap" where
  "hm_remove k m \<equiv> AList.delete k m"

abbreviation hm_keys :: "('k, 'v) hmap \<Rightarrow> 'k set" where
  "hm_keys m \<equiv> dom (map_of m)"

text \<open>\<open>for v in map.values_mut() { ... }\<close>\<close>

definition hm_map_values :: "('v \<Rightarrow> 'w) \<Rightarrow> ('k, 'v) hmap \<Rightarrow> ('k, 'w) hmap" where
  "hm_map_values f m = map (\<lambda>(k, v). (k, f v)) m"

lemma map_of_hm_insert [simp]: "map_of (hm_insert k v m) = (map_of m)(k \<mapsto> v)"
  by (rule update_conv')

lemma map_of_hm_remove [simp]: "map_of (hm_remove k m) = (map_of m)(k := None)"
  by (rule delete_conv')

lemma map_of_hm_map_values [simp]: "map_of (hm_map_values f m) = map_option f \<circ> map_of m"
  by (rule ext) (induction m; auto simp: hm_map_values_def)

lemma hm_keys_remove: "hm_keys (hm_remove k m) = hm_keys m - {k}"
  by simp

text \<open>The laws the components rely on, and what follows from them alone.\<close>

locale keyed_store =
  fixes get :: "'m \<Rightarrow> 'k \<Rightarrow> 'v option"
    and put :: "'k \<Rightarrow> 'v \<Rightarrow> 'm \<Rightarrow> 'm"
    and del :: "'k \<Rightarrow> 'm \<Rightarrow> 'm"
  assumes get_put: "get (put k v m) = (get m)(k \<mapsto> v)"
    and get_del: "get (del k m) = (get m)(k := None)"
begin

lemma put_put: "get (put k v (put k w m)) = get (put k v m)"
  by (simp add: get_put)

lemma put_twist: "j \<noteq> k \<Longrightarrow> get (put j v (put k w m)) = get (put k w (put j v m))"
  by (simp add: get_put fun_upd_twist)

lemma del_put: "get m k = None \<Longrightarrow> get (del k (put k v m)) = get m"
  by (simp add: get_put get_del fun_upd_idem)

lemma put_del: "get (put k v (del k m)) = get (put k v m)"
  by (simp add: get_put get_del)

end

interpretation hm: keyed_store map_of AList.update AList.delete
  by unfold_locales simp_all

section \<open>Strings\<close>

text \<open>
  A \<open>String\<close> is its UTF-8 bytes, a list of characters. The patterns the code looks for are
  ASCII, so searching bytes is searching characters.
\<close>

definition str_contains :: "string \<Rightarrow> string \<Rightarrow> bool" where
  "str_contains s pat = sublist pat s"

definition str_starts_with :: "string \<Rightarrow> string \<Rightarrow> bool" where
  "str_starts_with s pat = prefix pat s"

lemma str_contains_char [simp]: "str_contains s [c] \<longleftrightarrow> c \<in> set s"
proof
  show "str_contains s [c] \<Longrightarrow> c \<in> set s"
    by (auto simp: str_contains_def sublist_def)
  show "c \<in> set s \<Longrightarrow> str_contains s [c]"
    by (auto simp: str_contains_def sublist_def dest: split_list)
qed

lemma str_contains_refl [simp]: "str_contains s s"
  by (simp add: str_contains_def)

text \<open>\<open>s.replace(pat, by)\<close> for a non-empty \<open>pat\<close>: occurrences from the left, not overlapping.\<close>

function str_replace :: "string \<Rightarrow> string \<Rightarrow> string \<Rightarrow> string" where
  "str_replace pat by [] = []"
| "str_replace pat by (c # cs) =
     (if pat \<noteq> [] \<and> prefix pat (c # cs)
      then by @ str_replace pat by (drop (length pat) (c # cs))
      else c # str_replace pat by cs)"
  by pat_completeness auto
termination
  by (relation "measure (\<lambda>(pat, by, s). length s)") auto

text \<open>\<open>s.split(c)\<close>: the pieces between the separators, one piece for an empty string.\<close>

fun str_split :: "char \<Rightarrow> string \<Rightarrow> string list" where
  "str_split c [] = [[]]"
| "str_split c (x # xs) =
     (if x = c then [] # str_split c xs
      else (case str_split c xs of [] \<Rightarrow> [[x]] | p # ps \<Rightarrow> (x # p) # ps))"

lemma str_split_nonempty [simp]: "str_split c s \<noteq> []"
  by (induction s) (auto split: list.splits)

lemma str_split_no_sep: "c \<notin> set s \<Longrightarrow> str_split c s = [s]"
  by (induction s) auto

lemma str_split_append: "c \<notin> set s \<Longrightarrow> str_split c (s @ c # t) = s # str_split c t"
  by (induction s) auto

subsection \<open>Decimal numbers\<close>

definition digit_char :: "nat \<Rightarrow> char" where
  "digit_char d = char_of (48 + d)"

fun show_nat :: "nat \<Rightarrow> string" where
  "show_nat n = (if n < 10 then [digit_char n] else show_nat (n div 10) @ [digit_char (n mod 10)])"

declare show_nat.simps [simp del]

text \<open>\<open>Display\<close> of the unsigned integers, and of \<open>i32\<close>.\<close>

definition show_uint :: "'n::len word \<Rightarrow> string" where
  "show_uint w = show_nat (unat w)"

definition show_i32 :: "i32 \<Rightarrow> string" where
  "show_i32 w = (if 0 \<le> sint w then show_nat (nat (sint w)) else CHR ''-'' # show_nat (nat (- sint w)))"

definition digit_of_char :: "char \<Rightarrow> nat option" where
  "digit_of_char c =
    (let n = of_char c :: nat in if 48 \<le> n \<and> n \<le> 57 then Some (n - 48) else None)"

fun parse_digits :: "nat \<Rightarrow> nat \<Rightarrow> string \<Rightarrow> nat option" where
  "parse_digits bound acc [] = Some acc"
| "parse_digits bound acc (c # cs) =
     (case digit_of_char c of
        None \<Rightarrow> None
      | Some d \<Rightarrow>
          let acc' = acc * 10 + d
          in if acc' < bound then parse_digits bound acc' cs else None)"

text \<open>
  \<open>str::parse\<close> for an unsigned type of width \<open>w\<close>: an optional \<open>+\<close>, at least one digit, and
  the number must fit.
\<close>

definition parse_uint :: "nat \<Rightarrow> string \<Rightarrow> nat option" where
  "parse_uint w s =
    (case s of
       [] \<Rightarrow> None
     | c # cs \<Rightarrow>
         if c = CHR ''+'' then (if cs = [] then None else parse_digits (2 ^ w) 0 cs)
         else parse_digits (2 ^ w) 0 s)"

lemma digit_of_digit_char [simp]: "d < 10 \<Longrightarrow> digit_of_char (digit_char d) = Some d"
  by (simp add: digit_of_char_def digit_char_def)

lemma parse_digits_append:
  "parse_digits b acc (s @ t) =
    (case parse_digits b acc s of None \<Rightarrow> None | Some a \<Rightarrow> parse_digits b a t)"
  by (induction s arbitrary: acc) (auto simp: Let_def split: option.splits)

lemma parse_digits_show_nat: "n < b \<Longrightarrow> parse_digits b 0 (show_nat n) = Some n"
proof (induction n rule: show_nat.induct)
  case (1 n)
  show ?case
  proof (cases "n < 10")
    case True
    with "1.prems" show ?thesis by (subst show_nat.simps) simp
  next
    case False
    from "1.prems" have "n div 10 < b" by (rule le_less_trans [rotated]) simp
    with False "1.IH" have "parse_digits b 0 (show_nat (n div 10)) = Some (n div 10)" by simp
    with False "1.prems" show ?thesis
      by (subst show_nat.simps) (simp add: parse_digits_append)
  qed
qed

lemma digit_char_range: "d < 10 \<Longrightarrow> of_char (digit_char d) \<in> {48..57::nat}"
  by (simp add: digit_char_def)

lemma show_nat_chars: "c \<in> set (show_nat n) \<Longrightarrow> of_char c \<in> {48..57::nat}"
proof (induction n rule: show_nat.induct)
  case (1 n)
  show ?case
  proof (cases "n < 10")
    case True
    with "1.prems" show ?thesis
      by (subst (asm) show_nat.simps) (simp add: digit_char_range [simplified])
  next
    case False
    with "1.prems" have "c \<in> set (show_nat (n div 10)) \<or> c = digit_char (n mod 10)"
      by (subst (asm) show_nat.simps) auto
    then show ?thesis
      using "1.IH" [OF False] digit_char_range [of "n mod 10"] by auto
  qed
qed

lemma show_nat_nonempty [simp]: "show_nat n \<noteq> []"
  by (subst show_nat.simps) simp

lemma show_nat_no_char: "(of_char c :: nat) \<notin> {48..57} \<Longrightarrow> c \<notin> set (show_nat n)"
  using show_nat_chars by blast

lemma show_nat_no_punct [simp]:
  "CHR ''@'' \<notin> set (show_nat n)" "CHR '':'' \<notin> set (show_nat n)"
  "CHR ''.'' \<notin> set (show_nat n)" "CHR ''$'' \<notin> set (show_nat n)"
  "CHR ''+'' \<notin> set (show_nat n)"
  by (rule show_nat_no_char; simp)+

lemma parse_uint_show_nat: "n < 2 ^ w \<Longrightarrow> parse_uint w (show_nat n) = Some n"
proof -
  assume n: "n < 2 ^ w"
  obtain c cs where s: "show_nat n = c # cs" by (cases "show_nat n") auto
  then have "c \<noteq> CHR ''+''" using show_nat_no_punct(5) [of n] by auto
  with n s show ?thesis
    using parse_digits_show_nat [OF n] by (simp add: parse_uint_def)
qed

lemma show_nat_inject [simp]: "show_nat m = show_nat n \<longleftrightarrow> m = n"
proof
  assume "show_nat m = show_nat n"
  then show "m = n"
    using parse_digits_show_nat [of m "m + n + 1"] parse_digits_show_nat [of n "m + n + 1"] by simp
qed simp

end
