(* ===== verification/Messages.thy ===== *)
theory Messages
  imports Prelude Complex_Main
begin

text \<open>
  The data of the protocol: \<open>src/spec/messages.rs\<close>, \<open>src/spec/topic.rs\<close> and the plain types
  of \<open>src/spec/subscription.rs\<close>, with their operations (which topics a subscription cares
  about, which topics have an implicit publisher).

  The \<open>type\<close> of a topic is a parameter \<open>'ty\<close>. At this commit \<open>src/spec\<close> and
  \<open>src/server/inner.rs\<close> keep it as a \<open>String\<close>, while \<open>src/client\<close> and
  \<open>src/server/handles.rs\<close> fill it with an \<open>FrcType\<close>: each file is modelled at the type it uses.
\<close>

section \<open>Addresses\<close>

text \<open>
  \<open>std::net::SocketAddr\<close>. The program never looks inside an IPv6 address, which is kept by its
  canonical text.
\<close>

datatype socket_addr = V4 u8 u8 u8 u8 u16 | V6 string u16

fun show_socket_addr :: "socket_addr \<Rightarrow> string" where
  "show_socket_addr (V4 a b c d p) =
     show_uint a @ ''.'' @ show_uint b @ ''.'' @ show_uint c @ ''.'' @ show_uint d @ '':'' @ show_uint p"
| "show_socket_addr (V6 t p) = ''['' @ t @ '']:'' @ show_uint p"

section \<open>Topics\<close>

record publish_properties =
  pp_persistent :: "bool option"
  pp_retained :: "bool option"

definition publish_properties_default :: publish_properties where
  "publish_properties_default = \<lparr>pp_persistent = None, pp_retained = None\<rparr>"

record 'ty topic =
  t_name :: string
  t_type :: 'ty
  t_properties :: "publish_properties option"

record 'ty published_topic =
  pd_name :: string
  pd_pubuid :: u32
  pd_type :: 'ty
  pd_properties :: "publish_properties option"

definition new_meta :: "string \<Rightarrow> string topic" where
  "new_meta name = \<lparr>t_name = name, t_type = ''raw'', t_properties = None\<rparr>"

definition has_implicit_publisher :: "'ty topic \<Rightarrow> bool" where
  "has_implicit_publisher topic =
    (case t_properties topic of
       None \<Rightarrow> False
     | Some props \<Rightarrow>
         if pp_retained props = Some True then True
         else if pp_persistent props = Some True then True
         else False)"

lemma new_meta_simps [simp]:
  "t_name (new_meta n) = n" "t_type (new_meta n) = ''raw''" "t_properties (new_meta n) = None"
  "\<not> has_implicit_publisher (new_meta n)"
  by (simp_all add: new_meta_def has_implicit_publisher_def)

section \<open>Subscriptions\<close>

record subscription_options =
  opt_periodic :: "real option"
  opt_all :: "bool option"
  opt_topics_only :: "bool option"
  opt_prefix :: "bool option"

definition subscription_options_default :: subscription_options where
  "subscription_options_default =
    \<lparr>opt_periodic = None, opt_all = None, opt_topics_only = None, opt_prefix = None\<rparr>"

record subscription =
  sn_subuid :: i32
  sn_topics :: "string set"
  sn_options :: "subscription_options option"

text \<open>\<open>Option::unwrap_or\<close>.\<close>

definition unwrap_or :: "'a \<Rightarrow> 'a option \<Rightarrow> 'a" where
  "unwrap_or d x = (case x of None \<Rightarrow> d | Some y \<Rightarrow> y)"

lemma unwrap_or_simps [simp]: "unwrap_or d None = d" "unwrap_or d (Some y) = y"
  by (simp_all add: unwrap_or_def)

definition get_options :: "subscription \<Rightarrow> subscription_options" where
  "get_options sub = unwrap_or subscription_options_default (sn_options sub)"

definition cares_about :: "subscription \<Rightarrow> string \<Rightarrow> bool" where
  "cares_about sub topic =
    (if unwrap_or False (opt_prefix (get_options sub))
     then (\<exists>topic_pat \<in> sn_topics sub. str_starts_with topic topic_pat)
     else (\<exists>topic_name \<in> sn_topics sub. topic_name = topic))"

section \<open>Messages\<close>

record 'ty publish_topic_msg =
  pt_name :: string
  pt_pubuid :: u32
  pt_type :: 'ty
  pt_properties :: "publish_properties option"

record unpublish_topic_msg =
  up_pubuid :: u32

record subscribe_msg =
  sb_subuid :: i32
  sb_topics :: "string set"
  sb_options :: "subscription_options option"

record unsubscribe_msg =
  us_subuid :: i32

record set_properties_msg =
  sp_name :: string
  sp_update :: publish_properties

record 'ty announce_msg =
  an_name :: string
  an_id :: i32
  an_type :: 'ty
  an_pubuid :: "i32 option"
  an_properties :: publish_properties

record un_announce_msg =
  ua_name :: string
  ua_id :: u32

record properties_msg =
  pr_name :: string
  pr_ack :: "bool option"

record close_msg =
  cl_addr :: socket_addr
  cl_name :: string

datatype 'ty nt_message =
    Publish "'ty publish_topic_msg"
  | Unpublish unpublish_topic_msg
  | Subscribe subscribe_msg
  | Unsubscribe unsubscribe_msg
  | SetProperties set_properties_msg
  | Announce "'ty announce_msg"
  | UnAnnounce un_announce_msg
  | Properties properties_msg
  | Close close_msg

definition from_publish_topic :: "'ty publish_topic_msg \<Rightarrow> 'ty topic" where
  "from_publish_topic p =
    \<lparr>t_name = pt_name p, t_type = pt_type p, t_properties = pt_properties p\<rparr>"

definition as_unpublish :: "'ty published_topic \<Rightarrow> 'ty nt_message" where
  "as_unpublish p = Unpublish \<lparr>up_pubuid = pd_pubuid p\<rparr>"

definition as_unsubscribe :: "subscription \<Rightarrow> 'ty nt_message" where
  "as_unsubscribe sub = Unsubscribe \<lparr>us_subuid = sn_subuid sub\<rparr>"

lemma from_publish_topic_simps [simp]:
  "t_name (from_publish_topic p) = pt_name p"
  "t_type (from_publish_topic p) = pt_type p"
  "t_properties (from_publish_topic p) = pt_properties p"
  by (simp_all add: from_publish_topic_def)

section \<open>Facts\<close>

lemma cares_about_exact:
  "\<not> unwrap_or False (opt_prefix (get_options sub)) \<Longrightarrow>
    cares_about sub topic \<longleftrightarrow> topic \<in> sn_topics sub"
  by (auto simp: cares_about_def)

lemma cares_about_prefix:
  "unwrap_or False (opt_prefix (get_options sub)) \<Longrightarrow>
    cares_about sub topic \<longleftrightarrow> (\<exists>p \<in> sn_topics sub. prefix p topic)"
  by (auto simp: cares_about_def str_starts_with_def)

text \<open>Prefix subscriptions are upward closed: they see every extension of a topic they see.\<close>

lemma cares_about_extends:
  assumes "unwrap_or False (opt_prefix (get_options sub))" and "cares_about sub topic"
  shows "cares_about sub (topic @ rest)"
  using assms by (auto simp: cares_about_prefix intro: prefix_prefix)

lemma has_implicit_publisher_iff:
  "has_implicit_publisher t \<longleftrightarrow>
    (\<exists>p. t_properties t = Some p \<and> (pp_retained p = Some True \<or> pp_persistent p = Some True))"
  by (auto simp: has_implicit_publisher_def split: option.splits)

end
