(* ===== verification/Frc_Types.thy ===== *)
theory Frc_Types
  imports Messages
begin

text \<open>
  The value types of the protocol and their codes (\<open>FrcTypeExt\<close> of
  \<open>src/spec/extensions.rs\<close>) and the errors of the program (\<open>src/error.rs\<close>,
  \<open>src/server/error.rs\<close>).
\<close>

section \<open>Value types\<close>

text \<open>
  \<open>FrcType\<close> of the crate \<open>frclib_core\<close>: its variants are those the two exhaustive matches of
  \<open>extensions.rs\<close> name. Of a struct description only \<open>type_str\<close> is read.
\<close>

datatype frc_type =
    FrcBoolean | FrcDouble | FrcInt | FrcFloat | FrcString | FrcRaw | FrcVoid
  | FrcStruct string | FrcStructArray string
  | FrcBooleanArray | FrcDoubleArray | FrcIntArray | FrcFloatArray | FrcStringArray

fun as_u8 :: "frc_type \<Rightarrow> u8" where
  "as_u8 FrcBoolean = 0"
| "as_u8 FrcDouble = 1"
| "as_u8 FrcInt = 2"
| "as_u8 FrcFloat = 3"
| "as_u8 FrcString = 4"
| "as_u8 FrcRaw = 5"
| "as_u8 FrcVoid = 5"
| "as_u8 (FrcStruct _) = 5"
| "as_u8 (FrcStructArray _) = 5"
| "as_u8 FrcBooleanArray = 16"
| "as_u8 FrcDoubleArray = 17"
| "as_u8 FrcIntArray = 18"
| "as_u8 FrcFloatArray = 19"
| "as_u8 FrcStringArray = 20"

definition from_u8 :: "u8 \<Rightarrow> frc_type option" where
  "from_u8 byte =
    (if byte = 0 then Some FrcBoolean
     else if byte = 1 then Some FrcDouble
     else if byte = 2 then Some FrcInt
     else if byte = 3 then Some FrcFloat
     else if byte = 4 then Some FrcString
     else if byte = 5 then Some FrcRaw
     else if byte = 16 then Some FrcBooleanArray
     else if byte = 17 then Some FrcDoubleArray
     else if byte = 18 then Some FrcIntArray
     else if byte = 19 then Some FrcFloatArray
     else if byte = 20 then Some FrcStringArray
     else None)"

fun stringify :: "frc_type \<Rightarrow> string" where
  "stringify FrcBoolean = ''boolean''"
| "stringify FrcDouble = ''double''"
| "stringify FrcInt = ''int''"
| "stringify FrcFloat = ''float''"
| "stringify FrcString = ''string''"
| "stringify FrcRaw = ''raw''"
| "stringify FrcVoid = ''raw''"
| "stringify (FrcStruct type_str) = type_str"
| "stringify (FrcStructArray type_str) = type_str @ ''[]''"
| "stringify FrcBooleanArray = ''boolean[]''"
| "stringify FrcDoubleArray = ''double[]''"
| "stringify FrcIntArray = ''int[]''"
| "stringify FrcFloatArray = ''float[]''"
| "stringify FrcStringArray = ''string[]''"

text \<open>The types that share the code 5 are told apart by name only: read back, they are raw.\<close>

fun is_opaque :: "frc_type \<Rightarrow> bool" where
  "is_opaque FrcVoid = True"
| "is_opaque (FrcStruct _) = True"
| "is_opaque (FrcStructArray _) = True"
| "is_opaque _ = False"

definition wire_type :: "frc_type \<Rightarrow> frc_type" where
  "wire_type t = (if is_opaque t then FrcRaw else t)"

lemma from_u8_as_u8: "from_u8 (as_u8 t) = Some (wire_type t)"
  by (cases t) (simp_all add: from_u8_def wire_type_def)

lemma as_u8_from_u8: "from_u8 b = Some t \<Longrightarrow> as_u8 t = b \<and> \<not> is_opaque t"
  by (auto simp: from_u8_def split: if_splits)

section \<open>Errors\<close>

datatype nt_server_error =
    ClientDoesNotExist string
  | ClientAlreadyExists string
  | TopicDoesNotExist string
  | SubscriptionDoesNotExist string
  | WrongValueType frc_type frc_type
  | NotMetaTopic string
  | NotNormalTopic string

text \<open>
  The text of a server error (its \<open>Display\<close>, which \<open>Serialize\<close> writes); \<open>show_type\<close> is the
  \<open>Display\<close> of \<open>FrcType\<close>, which the crate \<open>frclib_core\<close> defines.
\<close>

fun show_server_error :: "(frc_type \<Rightarrow> string) \<Rightarrow> nt_server_error \<Rightarrow> string" where
  "show_server_error show_type (ClientDoesNotExist x) = ''Expected client does not exist: '' @ x"
| "show_server_error show_type (ClientAlreadyExists x) = ''Expected client already exists: '' @ x"
| "show_server_error show_type (TopicDoesNotExist x) = ''Expected topic does not exist: '' @ x"
| "show_server_error show_type (SubscriptionDoesNotExist x) =
     ''Expected subscription does not exist: '' @ x"
| "show_server_error show_type (WrongValueType g w) =
     ''Wrong type of value for topic. got: '' @ show_type g @ '', wanted: '' @ show_type w"
| "show_server_error show_type (NotMetaTopic x) = ''Expected a meta-topic, got a non-meta topic: '' @ x"
| "show_server_error show_type (NotNormalTopic x) = ''Expected a normal-topic, got a meta topic: '' @ x"

text \<open>
  The errors of the websocket library, as far as the code tells them apart
  (\<open>src/client/config.rs\<close>); the last constructor of each type is every other variant.
\<close>

datatype protocol_error = SendAfterClosing | ResetWithoutClosingHandshake | OtherProtocol

datatype io_error_kind = ConnectionReset | ConnectionAborted | TimedOut | OtherIo

datatype ws_error =
    AlreadyClosed | ConnectionClosed | Protocol protocol_error | WsIo io_error_kind | OtherWs

datatype nt_error =
    Tungstenite ws_error
  | SerdeJson
  | Io
  | TokioChannelMessageSend
  | MsgPackWrite
  | ConnectTimeout
  | ServerError nt_server_error
  | WrongMetaTopicType

text \<open>
  The type codes: reading back the code of a type gives the type, with raw in place of the
  three types that only their name tells from raw; and a code that reads as a type is the code
  of that type, so no two codes read as the same type.
\<close>
lemma type_code_roundtrip:
  "from_u8 (as_u8 t) = Some (wire_type t) \<and> map_option as_u8 (from_u8 b) \<in> {None, Some b}"
  using as_u8_from_u8 [of b] by (cases "from_u8 b") (simp_all add: from_u8_as_u8)

end
