(* ===== verification/Metatopic.thy ===== *)
theory Metatopic
  imports Messages
begin

text \<open>
  \<open>src/spec/metatopic.rs\<close>: the entries of the metatopics and the lists of them, with \<open>merge\<close>
  and \<open>reduce\<close>. The bytes of a metatopic value are in the theory of values.
\<close>

section \<open>Entries\<close>

record publisher_mte =
  pm_client :: string
  pm_pubuid :: u32

record client_publisher_mte =
  cp_topic :: string
  cp_uid :: u32

record subscription_mte =
  sm_client :: string
  sm_subuid :: u32
  sm_options :: subscription_options

record client_subscription_mte =
  cs_uid :: u32
  cs_topics :: "string list"
  cs_options :: subscription_options

record client_mte =
  cm_id :: string
  cm_conn :: string

text \<open>The \<open>PartialEq\<close> of the subscription entries leaves the options out.\<close>

definition subscription_mte_eq :: "subscription_mte \<Rightarrow> subscription_mte \<Rightarrow> bool" where
  "subscription_mte_eq a b \<longleftrightarrow> sm_client a = sm_client b \<and> sm_subuid a = sm_subuid b"

definition client_subscription_mte_eq :: "client_subscription_mte \<Rightarrow> client_subscription_mte \<Rightarrow> bool" where
  "client_subscription_mte_eq a b \<longleftrightarrow> cs_uid a = cs_uid b \<and> cs_topics a = cs_topics b"

section \<open>Values\<close>

datatype meta_topic_value =
    MPublisher "publisher_mte list"
  | MClientPublisher "client_publisher_mte list"
  | MServerPublisher "client_publisher_mte list"
  | MSubscription "subscription_mte list"
  | MClientSubscription "client_subscription_mte list"
  | MServerSubscription "client_subscription_mte list"
  | MClient "client_mte list"

text \<open>\<open>inner.extend(other_inner)\<close> when both are of one variant, nothing otherwise.\<close>

fun merge :: "meta_topic_value \<Rightarrow> meta_topic_value \<Rightarrow> meta_topic_value" where
  "merge (MPublisher i) (MPublisher j) = MPublisher (i @ j)"
| "merge (MClientPublisher i) (MClientPublisher j) = MClientPublisher (i @ j)"
| "merge (MServerPublisher i) (MServerPublisher j) = MServerPublisher (i @ j)"
| "merge (MSubscription i) (MSubscription j) = MSubscription (i @ j)"
| "merge (MClientSubscription i) (MClientSubscription j) = MClientSubscription (i @ j)"
| "merge (MServerSubscription i) (MServerSubscription j) = MServerSubscription (i @ j)"
| "merge (MClient i) (MClient j) = MClient (i @ j)"
| "merge v _ = v"

text \<open>\<open>inner.retain(|x| !other_inner.contains(x))\<close>, for an equality \<open>eq\<close>.\<close>

definition retain_absent :: "('a \<Rightarrow> 'a \<Rightarrow> bool) \<Rightarrow> 'a list \<Rightarrow> 'a list \<Rightarrow> 'a list" where
  "retain_absent eq inner other_inner = filter (\<lambda>x. \<not> (\<exists>y \<in> set other_inner. eq y x)) inner"

fun reduce :: "meta_topic_value \<Rightarrow> meta_topic_value \<Rightarrow> meta_topic_value" where
  "reduce (MPublisher i) (MPublisher j) = MPublisher (retain_absent (=) i j)"
| "reduce (MClientPublisher i) (MClientPublisher j) = MClientPublisher (retain_absent (=) i j)"
| "reduce (MServerPublisher i) (MServerPublisher j) = MServerPublisher (retain_absent (=) i j)"
| "reduce (MSubscription i) (MSubscription j) = MSubscription (retain_absent subscription_mte_eq i j)"
| "reduce (MClientSubscription i) (MClientSubscription j) =
     MClientSubscription (retain_absent client_subscription_mte_eq i j)"
| "reduce (MServerSubscription i) (MServerSubscription j) =
     MServerSubscription (retain_absent client_subscription_mte_eq i j)"
| "reduce (MClient i) (MClient j) = MClient (retain_absent (=) i j)"
| "reduce v _ = v"

text \<open>\<open>map.entry(k).or_insert_with(|| dflt).merge(v)\<close>, and the same with \<open>reduce\<close>.\<close>

definition entry_merge ::
    "'k \<Rightarrow> meta_topic_value \<Rightarrow> meta_topic_value \<Rightarrow> ('k, meta_topic_value) hmap \<Rightarrow> ('k, meta_topic_value) hmap"
where
  "entry_merge k dflt v m = hm_insert k (merge (unwrap_or dflt (map_of m k)) v) m"

definition entry_reduce ::
    "'k \<Rightarrow> meta_topic_value \<Rightarrow> meta_topic_value \<Rightarrow> ('k, meta_topic_value) hmap \<Rightarrow> ('k, meta_topic_value) hmap"
where
  "entry_reduce k dflt v m = hm_insert k (reduce (unwrap_or dflt (map_of m k)) v) m"

section \<open>Facts\<close>

text \<open>The variant of a value, and its entries with their equality made one.\<close>

fun variant :: "meta_topic_value \<Rightarrow> nat" where
  "variant (MPublisher _) = 0"
| "variant (MClientPublisher _) = 1"
| "variant (MServerPublisher _) = 2"
| "variant (MSubscription _) = 3"
| "variant (MClientSubscription _) = 4"
| "variant (MServerSubscription _) = 5"
| "variant (MClient _) = 6"

lemma retain_absent_append [simp]:
  "retain_absent eq (i @ j) k = retain_absent eq i k @ retain_absent eq j k"
  by (simp add: retain_absent_def)


lemma retain_absent_idem [simp]: "retain_absent eq (retain_absent eq i j) j = retain_absent eq i j"
  by (simp add: retain_absent_def)

lemma mte_eq_refl [simp]: "subscription_mte_eq x x" "client_subscription_mte_eq y y"
  by (simp_all add: subscription_mte_eq_def client_subscription_mte_eq_def)

lemma merge_variant [simp]: "variant (merge v w) = variant v"
  by (cases v; cases w) simp_all

lemma reduce_variant [simp]: "variant (reduce v w) = variant v"
  by (cases v; cases w) simp_all


lemma reduce_other_variant: "variant v \<noteq> variant w \<Longrightarrow> reduce v w = v"
  by (cases v; cases w) simp_all

lemma merge_assoc: "merge (merge u v) w = merge u (merge v w)" if "variant v = variant w"
  using that by (cases u; cases v; cases w) simp_all


section \<open>Properties\<close>


end
