(* ===== verification/Externals.thy ===== *)
theory Externals
  imports Frc_Types Metatopic
begin

text \<open>
  The code the program calls and that is not in the repository, as one record of functions:
  the values of the crate \<open>frclib_core\<close> (type \<open>'v\<close>), JSON texts and their (de)serialisation by
  \<open>serde_json\<close> (type \<open>'t\<close>), MessagePack values and bytes by \<open>rmp\<close>, \<open>rmpv\<close> and
  \<open>rmp_serde\<close> (type \<open>'m\<close>). Every definition that calls one of them takes the record as its
  argument \<open>E\<close>. What the theorems assume of them is stated here by name.
\<close>

datatype mte =
    PublisherMTE publisher_mte
  | ClientPublisherMTE client_publisher_mte
  | SubscriptionMTE subscription_mte
  | ClientSubscriptionMTE client_subscription_mte
  | ClientMTE client_mte

record ('v, 't, 'm, 'ty) ext =
  frc_get_type :: "'v \<Rightarrow> frc_type"
  frc_of_rmpv :: "'m \<Rightarrow> 'v option"
  rmpv_of_frc :: "'v \<Rightarrow> 'm"
  json_write_list :: "'ty nt_message list \<Rightarrow> 't option"
  json_write_one :: "'ty nt_message \<Rightarrow> 't option"
  json_read_list :: "'t \<Rightarrow> 'ty nt_message list option"
  rmp_array_len :: "u32 \<Rightarrow> u8 list option"
  rmp_i32 :: "i32 \<Rightarrow> u8 list option"
  rmp_u32 :: "u32 \<Rightarrow> u8 list option"
  rmp_uint :: "u64 \<Rightarrow> u8 list option"
  rmp_u8 :: "u8 \<Rightarrow> u8 list option"
  rmpv_write :: "'m \<Rightarrow> u8 list option"
  rmpv_read :: "u8 list \<Rightarrow> ('m \<times> u8 list) option"
  rmpv_as_array :: "'m \<Rightarrow> 'm list option"
  rmpv_is_integer :: "'m \<Rightarrow> bool"
  rmpv_as_u64 :: "'m \<Rightarrow> u64 option"
  rmpv_as_i64 :: "'m \<Rightarrow> i64 option"
  rmpv_of_u64 :: "u64 \<Rightarrow> 'm"
  mte_to_vec :: "mte \<Rightarrow> u8 list option"

section \<open>What is assumed of them\<close>

text \<open>
  \<open>serde_json\<close> writes a message and a slice of messages; it reads a list back from the text of
  the list, and it never reads a list from the text of one message, which is an object and not
  an array.
\<close>

definition json_laws :: "('v, 't, 'm, 'ty) ext \<Rightarrow> bool" where
  "json_laws E \<longleftrightarrow>
    (\<forall>ms. \<exists>t. json_write_list E ms = Some t \<and> json_read_list E t = Some ms) \<and>
    (\<forall>m. \<exists>t. json_write_one E m = Some t \<and> json_read_list E t = None)"

text \<open>Writing MessagePack to a \<open>Vec\<close> never fails.\<close>

definition rmp_total :: "('v, 't, 'm, 'ty) ext \<Rightarrow> bool" where
  "rmp_total E \<longleftrightarrow>
    (\<forall>n. rmp_array_len E n \<noteq> None) \<and> (\<forall>i. rmp_i32 E i \<noteq> None) \<and> (\<forall>i. rmp_u32 E i \<noteq> None) \<and>
    (\<forall>i. rmp_uint E i \<noteq> None) \<and> (\<forall>i. rmp_u8 E i \<noteq> None) \<and> (\<forall>v. rmpv_write E v \<noteq> None) \<and>
    (\<forall>x. mte_to_vec E x \<noteq> None)"

text \<open>Reading a MessagePack value takes at least one byte of the input.\<close>

definition rmpv_consumes :: "('v, 't, 'm, 'ty) ext \<Rightarrow> bool" where
  "rmpv_consumes E \<longleftrightarrow>
    (\<forall>bytes v rest. rmpv_read E bytes = Some (v, rest) \<longrightarrow> length rest < length bytes)"

section \<open>Websocket messages\<close>

datatype 't ws_message =
    WsText 't
  | WsBinary "u8 list"
  | WsPing "u8 list"
  | WsPong "u8 list"
  | WsClose

end
