(* ===== verification/Values.thy ===== *)
theory Values
  imports Externals
begin

text \<open>
  Timestamped values and their bytes: \<open>FrcTimestampedValueExt\<close> of \<open>src/spec/extensions.rs\<close>
  and \<open>MetaTopicValue::as_bytes\<close> of \<open>src/spec/metatopic.rs\<close>.
\<close>

section \<open>Writing\<close>

text \<open>
  A sequence of writes to one buffer, each followed by \<open>?\<close>: the bytes in order, or the error
  of the first write that fails.
\<close>

fun write_all :: "u8 list option list \<Rightarrow> (nt_error, u8 list) outcome" where
  "write_all [] = Ok []"
| "write_all (None # _) = Err MsgPackWrite"
| "write_all (Some b # ws) =
     (case write_all ws of Ok bs \<Rightarrow> Ok (b @ bs) | Err e \<Rightarrow> Err e | Panic p \<Rightarrow> Panic p)"

lemma write_all_total: "None \<notin> set ws \<Longrightarrow> write_all ws = Ok (concat (map the ws))"
proof (induction ws)
  case (Cons w ws)
  then show ?case by (cases w) auto
qed simp

lemma write_all_no_panic: "\<not> is_panic (write_all ws)"
proof (induction ws)
  case (Cons w ws)
  then show ?case by (cases w; cases "write_all ws") auto
qed simp

section \<open>Timestamped values\<close>

record 'v timestamped_value =
  tv_timestamp :: u64
  tv_value :: 'v

definition tv_as_bytes ::
    "('v, 't, 'm, 'ty) ext \<Rightarrow> 'v timestamped_value \<Rightarrow> i32 \<Rightarrow> (nt_error, u8 list) outcome"
where
  "tv_as_bytes E v topic_id =
    write_all
      [rmp_array_len E 4,
       rmp_i32 E topic_id,
       rmp_uint E (tv_timestamp v),
       rmp_u8 E (as_u8 (frc_get_type E (tv_value v))),
       rmpv_write E (rmpv_of_frc E (tv_value v))]"

definition replace_inplace :: "'v timestamped_value \<Rightarrow> 'v timestamped_value \<Rightarrow> 'v timestamped_value" where
  "replace_inplace self other = self\<lparr>tv_timestamp := tv_timestamp other, tv_value := tv_value other\<rparr>"

lemma replace_inplace_eq [simp]: "replace_inplace a b = b"
  by (simp add: replace_inplace_def)

section \<open>Metatopic values\<close>

text \<open>The entries of a value, in the order they are written, and how many there are.\<close>

fun mte_entries :: "meta_topic_value \<Rightarrow> mte list" where
  "mte_entries (MPublisher inner) = map PublisherMTE inner"
| "mte_entries (MClientPublisher inner) = map ClientPublisherMTE inner"
| "mte_entries (MServerPublisher inner) = map ClientPublisherMTE inner"
| "mte_entries (MSubscription inner) = map SubscriptionMTE inner"
| "mte_entries (MClientSubscription inner) = map ClientSubscriptionMTE inner"
| "mte_entries (MServerSubscription inner) = map ClientSubscriptionMTE inner"
| "mte_entries (MClient inner) = map ClientMTE inner"

text \<open>\<open>value.extend(rmp_serde::to_vec_named(mte).unwrap())\<close> for every entry.\<close>

fun extend_entries :: "('v, 't, 'm, 'ty) ext \<Rightarrow> mte list \<Rightarrow> (nt_error, u8 list) outcome" where
  "extend_entries E [] = Ok []"
| "extend_entries E (x # xs) =
     (case mte_to_vec E x of
        None \<Rightarrow> Panic ''called `Result::unwrap()` on an `Err` value''
      | Some b \<Rightarrow>
          (case extend_entries E xs of
             Ok bs \<Rightarrow> Ok (b @ bs)
           | Err e \<Rightarrow> Err e
           | Panic p \<Rightarrow> Panic p))"

definition meta_as_bytes ::
    "('v, 't, 'm, 'ty) ext \<Rightarrow> u64 \<Rightarrow> meta_topic_value \<Rightarrow> i32 \<Rightarrow> (nt_error, u8 list) outcome"
where
  "meta_as_bytes E now v topic_id =
    (case rmp_array_len E (of_nat (length (mte_entries v))) of
       None \<Rightarrow> Err MsgPackWrite
     | Some len_bytes \<Rightarrow>
         (case extend_entries E (mte_entries v) of
            Err e \<Rightarrow> Err e
          | Panic p \<Rightarrow> Panic p
          | Ok entries \<Rightarrow>
              write_all
                [rmp_array_len E 4,
                 rmp_i32 E topic_id,
                 rmp_uint E now,
                 rmp_u8 E (as_u8 FrcRaw),
                 Some (len_bytes @ entries)]))"

section \<open>Facts\<close>

lemma tv_as_bytes_no_panic [simp]: "\<not> is_panic (tv_as_bytes E v i)"
  by (simp add: tv_as_bytes_def write_all_no_panic)

lemma tv_as_bytes_total:
  assumes "rmp_total E"
  shows "tv_as_bytes E v i =
    Ok (the (rmp_array_len E 4) @ the (rmp_i32 E i) @ the (rmp_uint E (tv_timestamp v)) @
        the (rmp_u8 E (as_u8 (frc_get_type E (tv_value v)))) @
        the (rmpv_write E (rmpv_of_frc E (tv_value v))))"
proof -
  from assms have "None \<notin> set
      [rmp_array_len E 4, rmp_i32 E i, rmp_uint E (tv_timestamp v),
       rmp_u8 E (as_u8 (frc_get_type E (tv_value v))),
       rmpv_write E (rmpv_of_frc E (tv_value v))]"
    by (auto simp: rmp_total_def) (metis option.distinct(1))+
  then show ?thesis
    unfolding tv_as_bytes_def by (subst write_all_total) simp_all
qed

lemma extend_entries_total:
  assumes "rmp_total E"
  shows "extend_entries E xs = Ok (concat (map (\<lambda>x. the (mte_to_vec E x)) xs))"
proof (induction xs)
  case (Cons x xs)
  from assms have "mte_to_vec E x \<noteq> None" unfolding rmp_total_def by blast
  then obtain b where "mte_to_vec E x = Some b" by auto
  with Cons show ?case by simp
qed simp

lemma meta_as_bytes_total:
  assumes "rmp_total E"
  shows "\<exists>b. meta_as_bytes E now v i = Ok b"
proof -
  from assms obtain len where len: "rmp_array_len E (of_nat (length (mte_entries v))) = Some len"
    unfolding rmp_total_def by blast
  from assms have "None \<notin> set
      [rmp_array_len E 4, rmp_i32 E i, rmp_uint E now, rmp_u8 E (as_u8 FrcRaw), Some x]" for x
    by (auto simp: rmp_total_def) (metis option.distinct(1))+
  from write_all_total [OF this] show ?thesis
    by (simp only: meta_as_bytes_def len extend_entries_total [OF assms] option.case outcome.case) blast
qed

end
