(* ===== verification/Sample.thy ===== *)
theory Sample
  imports Values
begin

text \<open>
  One instance of the third-party functions, for the concrete runs that show the hypotheses of
  the theorems can hold. Values are 64-bit integers, a JSON text is the message list or the
  message it was made from, and MessagePack is the part of the format that integers and short
  arrays need. No theorem about the program rests on these definitions.
\<close>

section \<open>MessagePack of integers and arrays\<close>

datatype mp = MpUint u64 | MpInt i64 | MpArray "mp list"

fun be_bytes :: "nat \<Rightarrow> nat \<Rightarrow> u8 list" where
  "be_bytes 0 n = []"
| "be_bytes (Suc k) n = be_bytes k (n div 256) @ [of_nat (n mod 256)]"

fun be_nat :: "u8 list \<Rightarrow> nat" where
  "be_nat [] = 0"
| "be_nat (b # bs) = unat b * 256 ^ length bs + be_nat bs"

definition sample_uint :: "u64 \<Rightarrow> u8 list" where
  "sample_uint n =
    (if unat n < 128 then [ucast n]
     else if unat n < 256 then [204, ucast n]
     else if unat n < 2 ^ 16 then 205 # be_bytes 2 (unat n)
     else if unat n < 2 ^ 32 then 206 # be_bytes 4 (unat n)
     else 207 # be_bytes 8 (unat n))"

definition sample_i32 :: "i32 \<Rightarrow> u8 list" where
  "sample_i32 i = 210 # be_bytes 4 (unat i)"

definition sample_array_len :: "u32 \<Rightarrow> u8 list" where
  "sample_array_len n = (if unat n < 16 then [144 + ucast n] else 221 # be_bytes 4 (unat n))"

fun sample_write :: "mp \<Rightarrow> u8 list" where
  "sample_write (MpUint n) = sample_uint n"
| "sample_write (MpInt i) = 211 # be_bytes 8 (unat i)"
| "sample_write (MpArray xs) =
     sample_array_len (of_nat (length xs)) @ concat (map sample_write xs)"

definition read_sized :: "nat \<Rightarrow> (u8 list \<Rightarrow> mp) \<Rightarrow> u8 list \<Rightarrow> (mp \<times> u8 list) option" where
  "read_sized k f bs = (if length bs < k then None else Some (f (take k bs), drop k bs))"

fun read_n :: "(u8 list \<Rightarrow> (mp \<times> u8 list) option) \<Rightarrow> nat \<Rightarrow> u8 list \<Rightarrow> (mp list \<times> u8 list) option" where
  "read_n rd 0 bs = Some ([], bs)"
| "read_n rd (Suc n) bs =
     (case rd bs of
        None \<Rightarrow> None
      | Some (v, rest) \<Rightarrow>
          (case read_n rd n rest of
             None \<Rightarrow> None
           | Some (vs, rest') \<Rightarrow> Some (v # vs, rest')))"

fun sample_read :: "nat \<Rightarrow> u8 list \<Rightarrow> (mp \<times> u8 list) option" where
  "sample_read 0 bs = None"
| "sample_read (Suc fuel) bs =
     (case bs of
        [] \<Rightarrow> None
      | b # rest \<Rightarrow>
          if b < 128 then Some (MpUint (ucast b), rest)
          else if 144 \<le> b \<and> b < 160
          then map_option (\<lambda>(vs, r). (MpArray vs, r)) (read_n (sample_read fuel) (unat (b - 144)) rest)
          else if b = 204 then read_sized 1 (\<lambda>w. MpUint (of_nat (be_nat w))) rest
          else if b = 205 then read_sized 2 (\<lambda>w. MpUint (of_nat (be_nat w))) rest
          else if b = 206 then read_sized 4 (\<lambda>w. MpUint (of_nat (be_nat w))) rest
          else if b = 207 then read_sized 8 (\<lambda>w. MpUint (of_nat (be_nat w))) rest
          else if b = 210 then read_sized 4 (\<lambda>w. MpInt (scast (of_nat (be_nat w) :: i32))) rest
          else if b = 211 then read_sized 8 (\<lambda>w. MpInt (of_nat (be_nat w))) rest
          else None)"

fun mp_as_u64 :: "mp \<Rightarrow> u64 option" where
  "mp_as_u64 (MpUint n) = Some n"
| "mp_as_u64 _ = None"

fun mp_as_i64 :: "mp \<Rightarrow> i64 option" where
  "mp_as_i64 (MpUint n) = (if unat n < 2 ^ 63 then Some n else None)"
| "mp_as_i64 (MpInt i) = Some i"
| "mp_as_i64 _ = None"

fun mp_as_array :: "mp \<Rightarrow> mp list option" where
  "mp_as_array (MpArray xs) = Some xs"
| "mp_as_array _ = None"

fun mp_is_integer :: "mp \<Rightarrow> bool" where
  "mp_is_integer (MpArray _) = False"
| "mp_is_integer _ = True"

section \<open>The instance\<close>

type_synonym 'ty json = "'ty nt_message list + 'ty nt_message"

definition sample :: "(u64, 'ty json, mp, 'ty) ext" where
  "sample =
    \<lparr>frc_get_type = (\<lambda>_. FrcInt),
     frc_of_rmpv = mp_as_u64,
     rmpv_of_frc = MpUint,
     json_write_list = (\<lambda>ms. Some (Inl ms)),
     json_write_one = (\<lambda>m. Some (Inr m)),
     json_read_list = (\<lambda>t. case t of Inl ms \<Rightarrow> Some ms | Inr _ \<Rightarrow> None),
     rmp_array_len = (\<lambda>n. Some (sample_array_len n)),
     rmp_i32 = (\<lambda>i. Some (sample_i32 i)),
     rmp_u32 = (\<lambda>n. Some (206 # be_bytes 4 (unat n))),
     rmp_uint = (\<lambda>n. Some (sample_uint n)),
     rmp_u8 = (\<lambda>b. Some [204, b]),
     rmpv_write = (\<lambda>v. Some (sample_write v)),
     rmpv_read = (\<lambda>bs. sample_read (length bs) bs),
     rmpv_as_array = mp_as_array,
     rmpv_is_integer = mp_is_integer,
     rmpv_as_u64 = mp_as_u64,
     rmpv_as_i64 = mp_as_i64,
     rmpv_of_u64 = MpUint,
     mte_to_vec = (\<lambda>_. Some [128])\<rparr>"

lemma sample_fields [simp]:
  "frc_get_type sample v = FrcInt" "frc_of_rmpv sample = mp_as_u64" "rmpv_of_frc sample = MpUint"
  "json_write_list sample ms = Some (Inl ms)" "json_write_one sample m = Some (Inr m)"
  "json_read_list sample (Inl ms) = Some ms" "json_read_list sample (Inr m) = None"
  "rmp_array_len sample n = Some (sample_array_len n)" "rmp_i32 sample i = Some (sample_i32 i)"
  "rmp_u32 sample w = Some (206 # be_bytes 4 (unat w))" "rmp_uint sample x = Some (sample_uint x)"
  "rmp_u8 sample b = Some [204, b]" "rmpv_write sample y = Some (sample_write y)"
  "rmpv_read sample bs = sample_read (length bs) bs" "rmpv_as_array sample = mp_as_array"
  "rmpv_is_integer sample = mp_is_integer" "rmpv_as_u64 sample = mp_as_u64"
  "rmpv_as_i64 sample = mp_as_i64" "rmpv_of_u64 sample = MpUint"
  "mte_to_vec sample z = Some [128]"
  by (simp_all add: sample_def)

lemma sample_json_laws: "json_laws sample"
  by (simp add: json_laws_def)

lemma sample_rmp_total: "rmp_total sample"
  by (simp add: rmp_total_def)

lemma read_n_length:
  "(\<And>bs v rest. rd bs = Some (v, rest) \<Longrightarrow> length rest < length bs) \<Longrightarrow>
    read_n rd n bs = Some (vs, rest) \<Longrightarrow> length rest \<le> length bs"
proof (induction n arbitrary: bs vs)
  case (Suc n)
  from Suc.prems(2) obtain v r ws where "rd bs = Some (v, r)" "read_n rd n r = Some (ws, rest)"
    by (auto split: option.splits)
  with Suc.IH [OF Suc.prems(1)] Suc.prems(1) show ?case by fastforce
qed simp

lemma sample_read_length: "sample_read fuel bs = Some (v, rest) \<Longrightarrow> length rest < length bs"
proof (induction fuel arbitrary: bs v rest)
  case (Suc fuel)
  have le: "read_n (sample_read fuel) n r = Some (vs, q) \<Longrightarrow> length q \<le> length r" for n r vs q
    by (rule read_n_length [OF Suc.IH])
  from Suc.prems show ?case
    by (auto simp: read_sized_def split: list.splits if_splits dest!: le)
qed simp

lemma sample_consumes: "rmpv_consumes sample"
  by (auto simp: rmpv_consumes_def dest: sample_read_length)

end
