(* ===== verification/Msgpack.thy ===== *)
theory Msgpack
  imports Sample
begin

text \<open>
  What the two sides of a connection rely on when one reads what the other wrote: the laws of
  the MessagePack crates, and that the sample instance satisfies them.
\<close>

section \<open>Reading what was written\<close>

text \<open>Some bytes read as a value, whatever follows them.\<close>

definition reads_as :: "('v, 't, 'm, 'ty) ext \<Rightarrow> u8 list \<Rightarrow> 'm \<Rightarrow> bool" where
  "reads_as E bytes v \<longleftrightarrow> (\<forall>rest. rmpv_read E (bytes @ rest) = Some (v, rest))"

text \<open>
  The integers: an \<open>i32\<close> is written with its marker (\<open>0xd2\<close>) and an \<open>u32\<close> with its own (\<open>0xce\<close>); each reads back as the number
  it is. An array of four is one byte, \<open>0x94\<close>, and its elements.
\<close>

definition int_laws :: "('v, 't, 'm, 'ty) ext \<Rightarrow> bool" where
  "int_laws E \<longleftrightarrow>
    (\<forall>i. \<exists>b v. rmp_i32 E i = Some (210 # b) \<and> reads_as E (210 # b) v \<and> rmpv_as_i64 E v = Some (scast i)) \<and>
    (\<forall>n. \<exists>b v. rmp_u32 E n = Some (206 # b) \<and> reads_as E (206 # b) v \<and> rmpv_as_u64 E v = Some (ucast n)) \<and>
    (\<forall>n. \<exists>b v. rmp_uint E n = Some b \<and> reads_as E b v \<and> rmpv_as_u64 E v = Some n \<and>
       rmpv_as_i64 E v = (if unat n < 2 ^ 63 then Some n else None)) \<and>
    (\<forall>n. \<exists>b v. rmp_u8 E n = Some b \<and> reads_as E b v \<and> rmpv_as_u64 E v = Some (ucast n)) \<and>
    (\<forall>n. \<exists>b. rmpv_write E (rmpv_of_u64 E n) = Some b \<and> reads_as E b (rmpv_of_u64 E n) \<and>
       rmpv_is_integer E (rmpv_of_u64 E n) \<and> rmpv_as_u64 E (rmpv_of_u64 E n) = Some n)"

definition array_law :: "('v, 't, 'm, 'ty) ext \<Rightarrow> bool" where
  "array_law E \<longleftrightarrow>
    rmp_array_len E 4 = Some [148] \<and>
    (\<forall>b1 b2 b3 b4 v1 v2 v3 v4.
       reads_as E b1 v1 \<longrightarrow> reads_as E b2 v2 \<longrightarrow> reads_as E b3 v3 \<longrightarrow> reads_as E b4 v4 \<longrightarrow>
       (\<exists>a. reads_as E (148 # b1 @ b2 @ b3 @ b4) a \<and> rmpv_as_array E a = Some [v1, v2, v3, v4])) \<and>
    rmpv_read E [] = None"

definition msgpack_laws :: "('v, 't, 'm, 'ty) ext \<Rightarrow> bool" where
  "msgpack_laws E \<longleftrightarrow> rmp_total E \<and> rmpv_consumes E \<and> int_laws E \<and> array_law E"

lemma msgpack_total: "msgpack_laws E \<Longrightarrow> rmp_total E"
  by (simp add: msgpack_laws_def)

lemma msgpack_i32:
  assumes "msgpack_laws E"
  obtains b v where "rmp_i32 E i = Some (210 # b)" "reads_as E (210 # b) v" "rmpv_as_i64 E v = Some (scast i)"
  using assms unfolding msgpack_laws_def int_laws_def by blast

lemma msgpack_u32:
  assumes "msgpack_laws E"
  obtains b v where "rmp_u32 E n = Some (206 # b)" "reads_as E (206 # b) v" "rmpv_as_u64 E v = Some (ucast n)"
  using assms unfolding msgpack_laws_def int_laws_def by blast

lemma msgpack_uint:
  assumes "msgpack_laws E"
  obtains b v where "rmp_uint E n = Some b" "reads_as E b v" "rmpv_as_u64 E v = Some n"
    "rmpv_as_i64 E v = (if unat n < 2 ^ 63 then Some n else None)"
  using assms unfolding msgpack_laws_def int_laws_def by blast

lemma msgpack_u8:
  assumes "msgpack_laws E"
  obtains b v where "rmp_u8 E n = Some b" "reads_as E b v" "rmpv_as_u64 E v = Some (ucast n)"
  using assms unfolding msgpack_laws_def int_laws_def by blast

lemma msgpack_of_u64:
  assumes "msgpack_laws E"
  obtains b where "rmpv_write E (rmpv_of_u64 E n) = Some b" "reads_as E b (rmpv_of_u64 E n)"
    "rmpv_is_integer E (rmpv_of_u64 E n)" "rmpv_as_u64 E (rmpv_of_u64 E n) = Some n"
  using assms unfolding msgpack_laws_def int_laws_def by blast

lemma msgpack_array:
  assumes "msgpack_laws E"
    and "reads_as E b1 v1" "reads_as E b2 v2" "reads_as E b3 v3" "reads_as E b4 v4"
  obtains a where "reads_as E (148 # b1 @ b2 @ b3 @ b4) a" "rmpv_as_array E a = Some [v1, v2, v3, v4]"
  using assms unfolding msgpack_laws_def array_law_def by blast

lemma msgpack_array_len: "msgpack_laws E \<Longrightarrow> rmp_array_len E 4 = Some [148] \<and> rmpv_read E [] = None"
  unfolding msgpack_laws_def array_law_def by blast

section \<open>The sample instance\<close>

lemma length_be_bytes [simp]: "length (be_bytes k n) = k"
  by (induction k arbitrary: n) auto

lemma be_nat_snoc: "be_nat (bs @ [b]) = be_nat bs * 256 + unat b"
  by (induction bs) (simp_all add: algebra_simps)

lemma be_nat_be_bytes: "be_nat (be_bytes k n) = n mod 256 ^ k"
proof (induction k arbitrary: n)
  case (Suc k)
  have "unat (of_nat (n mod 256) :: u8) = n mod 256"
    by (simp add: unat_of_nat)
  with Suc show ?case
    by (simp add: be_nat_snoc mod_mult2_eq [of n 256 "256 ^ k"] mult.commute)
qed simp

lemma read_sized_be: "read_sized k f (be_bytes k n @ rest) = Some (f (be_bytes k n), rest)"
  by (simp add: read_sized_def)

lemma sample_read_uint: "sample_read (Suc fuel) (sample_uint n @ rest) = Some (MpUint n, rest)"
proof -
  have small: "unat n < 128 \<Longrightarrow> (ucast n :: u8) < 128 \<and> ucast (ucast n :: u8) = n"
    by (simp add: word_less_nat_alt unsigned_ucast_eq word_unat_eq_iff take_bit_eq_mod unat_mod)
  have byte: "unat n < 256 \<Longrightarrow> of_nat (be_nat [ucast n :: u8]) = n"
    by (simp add: unsigned_ucast_eq take_bit_eq_mod)
  have "unat n < 256 ^ 8" using unsigned_less [of n, where ?'a = nat] by simp
  then have wide: "unat n mod 256 ^ 8 = unat n" by simp
  show ?thesis
    using small byte wide
    by (auto simp: sample_uint_def read_sized_be be_nat_be_bytes word_less_nat_alt read_sized_def)
qed

lemma sample_read_i32: "sample_read (Suc fuel) (sample_i32 i @ rest) = Some (MpInt (scast i), rest)"
proof -
  have "unat i < 256 ^ 4" using unsigned_less [of i, where ?'a = nat] by simp
  then have "of_nat (unat i mod 256 ^ 4) = i" by simp
  then show ?thesis
    by (simp add: sample_i32_def read_sized_be be_nat_be_bytes)
qed

lemma sample_read_u32:
  "sample_read (Suc fuel) (206 # be_bytes 4 (unat n) @ rest) = Some (MpUint (ucast (n :: u32)), rest)"
proof -
  have "unat n < 256 ^ 4" using unsigned_less [of n, where ?'a = nat] by simp
  then have "of_nat (unat n mod 256 ^ 4) = (ucast n :: u64)" by (simp add: of_nat_unat)
  then show ?thesis
    by (simp add: read_sized_be be_nat_be_bytes)
qed

text \<open>More fuel reads the same.\<close>

lemma read_n_mono:
  "(\<And>bs r. rd bs = Some r \<Longrightarrow> rd' bs = Some r) \<Longrightarrow> read_n rd n bs = Some r \<Longrightarrow> read_n rd' n bs = Some r"
proof (induction n arbitrary: bs r)
  case (Suc n)
  from Suc.prems(2) obtain v q vs q' where "rd bs = Some (v, q)" "read_n rd n q = Some (vs, q')"
    "r = (v # vs, q')"
    by (auto split: option.splits)
  with Suc.prems(1) Suc.IH [OF Suc.prems(1)] show ?case by simp
qed simp

lemma sample_read_mono: "sample_read f bs = Some r \<Longrightarrow> f \<le> g \<Longrightarrow> sample_read g bs = Some r"
proof (induction f arbitrary: bs r g)
  case (Suc f)
  then obtain h where h: "g = Suc h" "f \<le> h" by (cases g) auto
  have step: "read_n (sample_read f) n q = Some x \<Longrightarrow> read_n (sample_read h) n q = Some x" for n q x
    by (erule read_n_mono [rotated]) (rule Suc.IH [OF _ h(2)])
  from Suc.prems(1) show ?case
    unfolding h(1) by (auto split: list.splits if_splits simp: step)
qed simp

lemma sample_reads_as: "reads_as sample b v \<longleftrightarrow> (\<forall>rest. sample_read (length (b @ rest)) (b @ rest) = Some (v, rest))"
  by (simp add: reads_as_def)

lemma sample_reads_asI:
  "(\<And>fuel rest. sample_read (Suc fuel) (b @ rest) = Some (v, rest)) \<Longrightarrow> b \<noteq> [] \<Longrightarrow> reads_as sample b v"
  unfolding sample_reads_as by (metis append_is_Nil_conv length_0_conv not0_implies_Suc)

lemma sample_array_law: "array_law sample"
proof -
  have "\<exists>a. reads_as sample (148 # b1 @ b2 @ b3 @ b4) a \<and> mp_as_array a = Some [v1, v2, v3, v4]"
    if "reads_as sample b1 v1" "reads_as sample b2 v2" "reads_as sample b3 v3" "reads_as sample b4 v4"
    for b1 b2 b3 b4 v1 v2 v3 v4
  proof -
    have more: "sample_read g (b @ rest) = Some (v, rest)"
      if "reads_as sample b v" "length (b @ rest) \<le> g" for b v g rest
      using that sample_read_mono unfolding sample_reads_as by blast
    have "reads_as sample (148 # b1 @ b2 @ b3 @ b4) (MpArray [v1, v2, v3, v4])"
      unfolding sample_reads_as
    proof
      fix rest
      let ?f = "length (b1 @ b2 @ b3 @ b4 @ rest)"
      have "read_n (sample_read ?f) 4 (b1 @ b2 @ b3 @ b4 @ rest) = Some ([v1, v2, v3, v4], rest)"
        using more [OF that(1), of "b2 @ b3 @ b4 @ rest" ?f] more [OF that(2), of "b3 @ b4 @ rest" ?f]
          more [OF that(3), of "b4 @ rest" ?f] more [OF that(4), of rest ?f]
        by (simp add: numeral_eq_Suc)
      then show "sample_read (length ((148 # b1 @ b2 @ b3 @ b4) @ rest)) ((148 # b1 @ b2 @ b3 @ b4) @ rest) =
          Some (MpArray [v1, v2, v3, v4], rest)"
        by simp
    qed
    then show ?thesis by fastforce
  qed
  then show ?thesis unfolding array_law_def by (auto simp: sample_array_len_def)
qed

lemma sample_int_laws: "int_laws sample"
proof -
  have "reads_as sample (sample_i32 i) (MpInt (scast i))" for i
    by (rule sample_reads_asI [OF sample_read_i32]) (simp add: sample_i32_def)
  moreover have "reads_as sample (206 # be_bytes 4 (unat n)) (MpUint (ucast n))" for n :: u32
    by (rule sample_reads_asI) (use sample_read_u32 in simp_all)
  moreover have "reads_as sample (sample_uint n) (MpUint n)" for n
    by (rule sample_reads_asI [OF sample_read_uint]) (simp add: sample_uint_def)
  moreover have "reads_as sample [204, n] (MpUint (ucast n))" for n
    by (rule sample_reads_asI)
      (simp_all add: read_sized_def of_nat_unat)
  ultimately show ?thesis
    unfolding int_laws_def by (auto simp: sample_i32_def intro!: exI)
qed

lemma sample_msgpack_laws: "msgpack_laws sample"
  by (simp add: msgpack_laws_def sample_rmp_total sample_consumes sample_int_laws sample_array_law)

end
