(* ===== verification/Bimap.thy ===== *)
theory Bimap
  imports Prelude
begin

text \<open>
  \<open>PrimBiMap\<close> of \<open>src/bimap.rs\<close>: two hash maps, one for each direction. The two directions are
  written together by \<open>insert\<close> and never again: a removal touches one of them only.
\<close>

record ('l, 'r) prim_bimap =
  bm_map :: "('l, 'r) hmap"
  bm_rev_map :: "('r, 'l) hmap"

definition bm_new :: "('l, 'r) prim_bimap" where
  "bm_new = \<lparr>bm_map = [], bm_rev_map = []\<rparr>"

definition bm_insert :: "'l \<Rightarrow> 'r \<Rightarrow> ('l, 'r) prim_bimap \<Rightarrow> ('l option \<times> 'r option) \<times> ('l, 'r) prim_bimap" where
  "bm_insert left right b =
    ((map_of (bm_rev_map b) right, map_of (bm_map b) left),
     b\<lparr>bm_rev_map := hm_insert right left (bm_rev_map b),
       bm_map := hm_insert left right (bm_map b)\<rparr>)"

definition bm_get_by_right :: "('l, 'r) prim_bimap \<Rightarrow> 'r \<Rightarrow> 'l option" where
  "bm_get_by_right b right = map_of (bm_rev_map b) right"

definition bm_get_by_left :: "('l, 'r) prim_bimap \<Rightarrow> 'l \<Rightarrow> 'r option" where
  "bm_get_by_left b left = map_of (bm_map b) left"

definition bm_remove_by_left :: "'l \<Rightarrow> ('l, 'r) prim_bimap \<Rightarrow> 'r option \<times> ('l, 'r) prim_bimap" where
  "bm_remove_by_left left b = (map_of (bm_map b) left, b\<lparr>bm_map := hm_remove left (bm_map b)\<rparr>)"

definition bm_remove_by_right :: "'r \<Rightarrow> ('l, 'r) prim_bimap \<Rightarrow> 'l option \<times> ('l, 'r) prim_bimap" where
  "bm_remove_by_right right b =
    (map_of (bm_rev_map b) right, b\<lparr>bm_rev_map := hm_remove right (bm_rev_map b)\<rparr>)"

definition bm_contains_left :: "('l, 'r) prim_bimap \<Rightarrow> 'l \<Rightarrow> bool" where
  "bm_contains_left b left \<longleftrightarrow> map_of (bm_map b) left \<noteq> None"

definition bm_contains_right :: "('l, 'r) prim_bimap \<Rightarrow> 'r \<Rightarrow> bool" where
  "bm_contains_right b right \<longleftrightarrow> map_of (bm_rev_map b) right \<noteq> None"

definition bm_len :: "('l, 'r) prim_bimap \<Rightarrow> nat" where
  "bm_len b = length (bm_map b)"

definition bm_iter_lr :: "('l, 'r) prim_bimap \<Rightarrow> ('l \<times> 'r) list" where
  "bm_iter_lr b = bm_map b"

definition bm_iter_rl :: "('l, 'r) prim_bimap \<Rightarrow> ('r \<times> 'l) list" where
  "bm_iter_rl b = bm_rev_map b"

section \<open>Facts\<close>

lemmas bm_defs = bm_insert_def bm_get_by_right_def bm_get_by_left_def bm_remove_by_left_def
  bm_remove_by_right_def bm_contains_left_def bm_contains_right_def bm_new_def

text \<open>Each direction alone is a map.\<close>

interpretation bm_left: keyed_store
  bm_get_by_left "\<lambda>l r b. snd (bm_insert l r b)" "\<lambda>l b. snd (bm_remove_by_left l b)"
  by unfold_locales (auto simp: bm_defs)

interpretation bm_right: keyed_store
  bm_get_by_right "\<lambda>r l b. snd (bm_insert l r b)" "\<lambda>r b. snd (bm_remove_by_right r b)"
  by unfold_locales (auto simp: bm_defs)

lemma bm_insert_lookup [simp]:
  "bm_get_by_left (snd (bm_insert l r b)) = (bm_get_by_left b)(l \<mapsto> r)"
  "bm_get_by_right (snd (bm_insert l r b)) = (bm_get_by_right b)(r \<mapsto> l)"
  by (simp_all add: bm_left.get_put bm_right.get_put)

lemma bm_remove_lookup [simp]:
  "bm_get_by_left (snd (bm_remove_by_left l b)) = (bm_get_by_left b)(l := None)"
  "bm_get_by_right (snd (bm_remove_by_left l b)) = bm_get_by_right b"
  "bm_get_by_right (snd (bm_remove_by_right r b)) = (bm_get_by_right b)(r := None)"
  "bm_get_by_left (snd (bm_remove_by_right r b)) = bm_get_by_left b"
  by (auto simp: bm_defs)

text \<open>
  \<open>coherent\<close>: the two directions are inverse to each other. Inserting a pair whose sides are
  both new keeps it so.
\<close>

definition bm_coherent :: "('l, 'r) prim_bimap \<Rightarrow> bool" where
  "bm_coherent b \<longleftrightarrow> (\<forall>l r. bm_get_by_left b l = Some r \<longleftrightarrow> bm_get_by_right b r = Some l)"

lemma bm_coherent_new [simp]: "bm_coherent bm_new"
  by (simp add: bm_coherent_def bm_defs)

lemma bm_coherent_insert:
  assumes "bm_coherent b" and "bm_get_by_left b l = None" and "bm_get_by_right b r = None"
  shows "bm_coherent (snd (bm_insert l r b))"
  using assms unfolding bm_coherent_def by (auto split: if_splits) (metis option.distinct(1))+

text \<open>Re-inserting a left key at another right side leaves the old right side pointing at it.\<close>

lemma bm_insert_stale:
  assumes "bm_coherent b" and "bm_get_by_left b l = Some r'" and "r' \<noteq> r"
  shows "bm_get_by_right (snd (bm_insert l r b)) r' = Some l \<and>
    bm_get_by_left (snd (bm_insert l r b)) l = Some r"
  using assms by (auto simp: bm_coherent_def)

section \<open>Properties\<close>

text \<open>
  Read from the left, as the server reads it, the two-way map is a plain map: insertion,
  removal and lookup agree with those of the map \<open>bm_get_by_left\<close>. Read from the right it is
  not: a pair inserted and then removed by its left side can still be found from the right.
\<close>
lemma bimap_from_the_left:
  "bm_get_by_left (snd (bm_insert l r b)) = (bm_get_by_left b)(l \<mapsto> r) \<and>
    snd (fst (bm_insert l r b)) = bm_get_by_left b l \<and>
    bm_get_by_left (snd (bm_remove_by_left l b)) = (bm_get_by_left b)(l := None) \<and>
    fst (bm_remove_by_left l b) = bm_get_by_left b l \<and>
    (bm_contains_left b l \<longleftrightarrow> bm_get_by_left b l \<noteq> None) \<and>
    bm_get_by_right (snd (bm_remove_by_left l (snd (bm_insert l r b)))) r = Some l"
  by (auto simp: bm_defs)

end
