(* ===== verification/Server_Util.thy ===== *)
theory Server_Util
  imports Values Bimap
begin

text \<open>
  \<open>src/server/util.rs\<close>: client identities and their text, the counters that hand out indices,
  and the values a subscription stores until they are sent.
\<close>

type_synonym topic_idx = u32
type_synonym sub_idx = u32
type_synonym client_idx = u32
type_synonym pub_uid = u32
type_synonym sub_uid = u32

section \<open>Client identities\<close>

datatype client_identity = ClientIdentity (ci_addr: socket_addr) (ci_name: string)

fun show_identity :: "client_identity \<Rightarrow> string" where
  "show_identity (ClientIdentity addr name) = name @ ''@'' @ show_socket_addr addr"

definition server_identity :: client_identity where
  "server_identity = ClientIdentity (V4 0 0 0 0 0) ''''"

definition update_name :: "string \<Rightarrow> client_identity \<Rightarrow> client_identity" where
  "update_name name i = ClientIdentity (ci_addr i) name"

definition as_close :: "client_identity \<Rightarrow> 'ty nt_message" where
  "as_close i = Close \<lparr>cl_addr = ci_addr i, cl_name = ci_name i\<rparr>"

definition to_mte :: "client_identity \<Rightarrow> client_mte" where
  "to_mte i = \<lparr>cm_id = ci_name i, cm_conn = show_socket_addr (ci_addr i)\<rparr>"

text \<open>\<open>split.next()?\<close> twice, the address split at \<open>:\<close>, four bytes and a port.\<close>

definition parse_v4 :: "string \<Rightarrow> socket_addr option" where
  "parse_v4 addr =
    (case str_split CHR '':'' addr of
       [] \<Rightarrow> None
     | ip # rest \<Rightarrow>
         (case those (map (parse_uint 8) (str_split CHR ''.'' ip)) of
            None \<Rightarrow> None
          | Some ipv4 \<Rightarrow>
              (case rest of
                 [] \<Rightarrow> None
               | port_str # _ \<Rightarrow>
                   (case parse_uint 16 port_str of
                      None \<Rightarrow> None
                    | Some port \<Rightarrow>
                        (case ipv4 of
                           [a, b, c, d] \<Rightarrow>
                             Some (V4 (of_nat a) (of_nat b) (of_nat c) (of_nat d) (of_nat port))
                         | _ \<Rightarrow> None)))))"

definition from_display :: "string \<Rightarrow> client_identity option" where
  "from_display display =
    (case str_split CHR ''@'' display of
       name # addr # _ \<Rightarrow>
         (case parse_v4 addr of
            None \<Rightarrow> None
          | Some a \<Rightarrow> Some (ClientIdentity a name))
     | _ \<Rightarrow> None)"

section \<open>Counters\<close>

record counter =
  c_topic_idx :: topic_idx
  c_sub_idx :: sub_idx
  c_client_idx :: client_idx

definition counter_default :: counter where
  "counter_default = \<lparr>c_topic_idx = 0, c_sub_idx = 0, c_client_idx = 0\<rparr>"

text \<open>\<open>self.n += 1\<close> panics when it overflows (the check of a debug build).\<close>

definition next_topic_idx :: "(counter, 'e, topic_idx) act" where
  "next_topic_idx c =
    (case checked_add (c_topic_idx c) 1 of
       None \<Rightarrow> (Panic ''attempt to add with overflow'', c)
     | Some n \<Rightarrow> (Ok (c_topic_idx c), c\<lparr>c_topic_idx := n\<rparr>))"

definition next_sub_idx :: "(counter, 'e, sub_idx) act" where
  "next_sub_idx c =
    (case checked_add (c_sub_idx c) 1 of
       None \<Rightarrow> (Panic ''attempt to add with overflow'', c)
     | Some n \<Rightarrow> (Ok (c_sub_idx c), c\<lparr>c_sub_idx := n\<rparr>))"

definition next_client_idx :: "(counter, 'e, client_idx) act" where
  "next_client_idx c =
    (case checked_add (c_client_idx c) 1 of
       None \<Rightarrow> (Panic ''attempt to add with overflow'', c)
     | Some n \<Rightarrow> (Ok (c_client_idx c), c\<lparr>c_client_idx := n\<rparr>))"

section \<open>Values waiting for a subscription\<close>

datatype 'v server_sendable_value =
    NormalValue "'v timestamped_value"
  | MTEValue meta_topic_value

fun sendable_as_bytes ::
    "('v, 't, 'm, 'ty) ext \<Rightarrow> u64 \<Rightarrow> 'v server_sendable_value \<Rightarrow> i32 \<Rightarrow> (nt_error, u8 list) outcome"
where
  "sendable_as_bytes E now (NormalValue v) topic_id = tv_as_bytes E v topic_id"
| "sendable_as_bytes E now (MTEValue m) topic_id = meta_as_bytes E now m topic_id"

datatype 'v stored_sub_value =
    StoreAll "(topic_idx, 'v server_sendable_value list) hmap"
  | StoreOne "(topic_idx, 'v server_sendable_value) hmap"

definition new_all :: "'v stored_sub_value" where
  "new_all = StoreAll []"

definition new_one :: "'v stored_sub_value" where
  "new_one = StoreOne []"

fun add_value :: "topic_idx \<Rightarrow> 'v server_sendable_value \<Rightarrow> 'v stored_sub_value \<Rightarrow> 'v stored_sub_value" where
  "add_value topic_idx v (StoreAll m) =
     (case map_of m topic_idx of
        Some vec \<Rightarrow> StoreAll (hm_insert topic_idx (vec @ [v]) m)
      | None \<Rightarrow> StoreAll (hm_insert topic_idx [v] m))"
| "add_value topic_idx v (StoreOne m) = StoreOne (hm_insert topic_idx v m)"

fun take_values ::
    "'v stored_sub_value \<Rightarrow> (topic_idx, 'v server_sendable_value list) hmap \<times> 'v stored_sub_value"
where
  "take_values (StoreAll m) = (m, StoreAll [])"
| "take_values (StoreOne m) =
     (foldl (\<lambda>new_map (topic_idx, v). hm_insert topic_idx [v] new_map) [] m, StoreOne [])"

section \<open>Facts about identities\<close>

lemma those_map_Some: "those (map Some xs) = Some xs"
  by (induction xs) auto

lemma show_uint_no_punct [simp]:
  "CHR ''@'' \<notin> set (show_uint w)" "CHR '':'' \<notin> set (show_uint w)"
  "CHR ''.'' \<notin> set (show_uint w)"
  by (simp_all add: show_uint_def)

lemma parse_show_u8 [simp]: "parse_uint 8 (show_uint (w :: u8)) = Some (unat w)"
proof -
  have "unat w < 2 ^ LENGTH(8)" by (rule unsigned_less)
  then show ?thesis unfolding show_uint_def by (intro parse_uint_show_nat) simp
qed

lemma parse_show_u16 [simp]: "parse_uint 16 (show_uint (w :: u16)) = Some (unat w)"
proof -
  have "unat w < 2 ^ LENGTH(16)" by (rule unsigned_less)
  then show ?thesis unfolding show_uint_def by (intro parse_uint_show_nat) simp
qed

lemma split_dotted:
  "str_split CHR ''.'' (show_uint a @ ''.'' @ show_uint b @ ''.'' @ show_uint c @ ''.'' @ show_uint d) =
    [show_uint a, show_uint b, show_uint c, show_uint d]"
  by (simp add: str_split_append str_split_no_sep)

lemma parse_v4_show: "parse_v4 (show_socket_addr (V4 a b c d p)) = Some (V4 a b c d p)"
proof -
  let ?ip = "show_uint a @ ''.'' @ show_uint b @ ''.'' @ show_uint c @ ''.'' @ show_uint d"
  have "str_split CHR '':'' (show_socket_addr (V4 a b c d p)) = [?ip, show_uint p]"
    using str_split_append [of "CHR '':''" ?ip "show_uint p"] by (simp add: str_split_no_sep)
  moreover have "map (parse_uint 8) (str_split CHR ''.'' ?ip) = map Some [unat a, unat b, unat c, unat d]"
    unfolding split_dotted by simp
  ultimately show ?thesis
    unfolding parse_v4_def those_map_Some by (simp add: those_map_Some)
qed

lemma parse_v4_is_v4: "parse_v4 s = Some x \<Longrightarrow> \<exists>a b c d p. x = V4 a b c d p"
  by (auto simp: parse_v4_def split: list.splits option.splits)

lemma str_split_hd_no_sep: "c \<notin> set (hd (str_split c s))"
  by (induction s) (auto split: list.splits)

lemma from_display_name_no_at:
  "from_display s = Some i \<Longrightarrow> CHR ''@'' \<notin> set (ci_name i)"
  using str_split_hd_no_sep [of "CHR ''@''" s]
  by (auto simp: from_display_def split: list.splits option.splits)

lemma show_socket_addr_v4_no_at: "CHR ''@'' \<notin> set (show_socket_addr (V4 a b c d p))"
  by simp

lemma from_display_show:
  assumes "CHR ''@'' \<notin> set name"
  shows "from_display (show_identity (ClientIdentity (V4 a b c d p) name)) =
    Some (ClientIdentity (V4 a b c d p) name)"
proof -
  let ?addr = "show_socket_addr (V4 a b c d p)"
  have "str_split CHR ''@'' (name @ CHR ''@'' # ?addr) = [name, ?addr]"
    using str_split_append [OF assms, of ?addr] str_split_no_sep [OF show_socket_addr_v4_no_at, of a b c d p]
    by (simp only:)
  then show ?thesis
    by (simp add: from_display_def parse_v4_show del: show_socket_addr.simps)
qed

section \<open>Facts about counters\<close>

text \<open>
  A source of indices: each call that returns hands out the current number and moves on to a
  greater one. Whatever two calls return along a run then differs.
\<close>

fun issue :: "('s, 'e, 'n) act \<Rightarrow> nat \<Rightarrow> 's \<Rightarrow> 'n list" where
  "issue next 0 s = []"
| "issue next (Suc k) s =
     (case next s of (Ok i, t) \<Rightarrow> i # issue next k t | _ \<Rightarrow> [])"

locale fresh_ids =
  fixes cur :: "'s \<Rightarrow> 'n::linorder"
    and nxt :: "('s, 'e, 'n) act"
  assumes returns_current: "nxt s = (Ok i, t) \<Longrightarrow> i = cur s"
    and moves_on: "nxt s = (Ok i, t) \<Longrightarrow> cur s < cur t"
begin

lemma issue_bounds: "\<forall>i \<in> set (issue nxt k s). cur s \<le> i"
proof (induction k arbitrary: s)
  case (Suc k)
  show ?case
  proof (cases "nxt s")
    case (Pair r t)
    show ?thesis
    proof (cases r)
      case (Ok i)
      with Pair have "i = cur s" "cur s < cur t"
        using returns_current moves_on by blast+
      with Ok Pair Suc [of t] show ?thesis by auto
    qed (use Pair in auto)
  qed
qed simp

lemma issue_sorted: "sorted_wrt (<) (issue nxt k s)"
proof (induction k arbitrary: s)
  case (Suc k)
  show ?case
  proof (cases "nxt s")
    case (Pair r t)
    show ?thesis
    proof (cases r)
      case (Ok i)
      with Pair have "i < cur t" using returns_current moves_on by metis
      with Ok Pair Suc [of t] issue_bounds [of k t] show ?thesis by auto
    qed (use Pair in auto)
  qed
qed simp

lemma issue_distinct: "distinct (issue nxt k s)"
  using issue_sorted strict_sorted_imp_sorted strict_sorted_iff by blast

end

lemma next_idx_cases:
  "next_topic_idx c = (Ok i, d) \<longleftrightarrow>
    (\<exists>n. checked_add (c_topic_idx c) 1 = Some n \<and> i = c_topic_idx c \<and> d = c\<lparr>c_topic_idx := n\<rparr>)"
  "next_sub_idx c = (Ok i, d) \<longleftrightarrow>
    (\<exists>n. checked_add (c_sub_idx c) 1 = Some n \<and> i = c_sub_idx c \<and> d = c\<lparr>c_sub_idx := n\<rparr>)"
  "next_client_idx c = (Ok i, d) \<longleftrightarrow>
    (\<exists>n. checked_add (c_client_idx c) 1 = Some n \<and> i = c_client_idx c \<and> d = c\<lparr>c_client_idx := n\<rparr>)"
  by (auto simp: next_topic_idx_def next_sub_idx_def next_client_idx_def split: option.splits)

interpretation topic_ids: fresh_ids c_topic_idx next_topic_idx
  by unfold_locales (auto simp: next_idx_cases dest: checked_add_less)

interpretation sub_ids: fresh_ids c_sub_idx next_sub_idx
  by unfold_locales (auto simp: next_idx_cases dest: checked_add_less)

interpretation client_ids: fresh_ids c_client_idx next_client_idx
  by unfold_locales (auto simp: next_idx_cases dest: checked_add_less)

section \<open>Facts about stored values\<close>

fun stored_keys :: "'v stored_sub_value \<Rightarrow> topic_idx list" where
  "stored_keys (StoreAll m) = map fst m"
| "stored_keys (StoreOne m) = map fst m"

text \<open>What a store holds for a topic, and the rule by which it grows.\<close>

fun pending :: "'v stored_sub_value \<Rightarrow> topic_idx \<Rightarrow> 'v server_sendable_value list" where
  "pending (StoreAll m) t = unwrap_or [] (map_of m t)"
| "pending (StoreOne m) t = (case map_of m t of None \<Rightarrow> [] | Some v \<Rightarrow> [v])"

fun keeps_all :: "'v stored_sub_value \<Rightarrow> bool" where
  "keeps_all (StoreAll _) = True"
| "keeps_all (StoreOne _) = False"

lemma keeps_all_add_value [simp]: "keeps_all (add_value t v st) = keeps_all st"
  by (cases st) (auto split: option.splits)

lemma pending_add_value:
  "pending (add_value t v st) u =
    (if u \<noteq> t then pending st u else if keeps_all st then pending st u @ [v] else [v])"
  by (cases st) (auto split: option.splits)

lemma stored_keys_add_value:
  "distinct (stored_keys st) \<Longrightarrow> distinct (stored_keys (add_value t v st))"
  by (cases st) (auto split: option.splits intro: distinct_update)

lemma map_of_foldl_insert:
  "distinct (map fst m) \<Longrightarrow>
    map_of (foldl (\<lambda>nm (t, v). hm_insert t (f v) nm) acc m) u =
      (case map_of m u of None \<Rightarrow> map_of acc u | Some v \<Rightarrow> Some (f v))"
proof (induction m arbitrary: acc)
  case (Cons p m)
  obtain t v where p: "p = (t, v)" by fastforce
  from Cons.prems p have "map_of m t = None" by (simp add: map_of_eq_None_iff)
  with Cons p show ?case by (auto split: option.splits)
qed simp

lemma take_values_pending:
  assumes "distinct (stored_keys st)"
  shows "unwrap_or [] (map_of (fst (take_values st)) t) = pending st t"
  using assms by (cases st) (auto simp: map_of_foldl_insert split: option.splits)

lemma take_values_empties: "pending (snd (take_values st)) t = []"
  by (cases st) auto

section \<open>Properties\<close>

text \<open>
  C39. The text of an identity reads back as the identity exactly for an IPv4 address and a name
  without \<open>@\<close>. A name that the server made unique by a suffix \<open>@n\<close> never reads back.
\<close>
theorem identity_roundtrip:
  "from_display (show_identity i) = Some i \<longleftrightarrow>
    (\<exists>a b c d p. ci_addr i = V4 a b c d p) \<and> CHR ''@'' \<notin> set (ci_name i)"
proof
  assume read: "from_display (show_identity i) = Some i"
  then have "\<exists>s. parse_v4 s = Some (ci_addr i)"
    by (auto simp: from_display_def split: list.splits option.splits)
  with parse_v4_is_v4 from_display_name_no_at [OF read]
  show "(\<exists>a b c d p. ci_addr i = V4 a b c d p) \<and> CHR ''@'' \<notin> set (ci_name i)" by blast
next
  assume "(\<exists>a b c d p. ci_addr i = V4 a b c d p) \<and> CHR ''@'' \<notin> set (ci_name i)"
  then show "from_display (show_identity i) = Some i"
    using from_display_show by (cases i) auto
qed

text \<open>
  The indices of topics, subscriptions and clients that one run of the server hands out are
  all different: a counter that would wrap around panics instead.
\<close>
lemma indices_distinct:
  "distinct (issue next_topic_idx k c) \<and> distinct (issue next_sub_idx k c) \<and>
    distinct (issue next_client_idx k c)"
  by (simp add: topic_ids.issue_distinct sub_ids.issue_distinct client_ids.issue_distinct)

lemma pending_added:
  "pending (foldl (\<lambda>st (t, v). add_value t v st) st tvs) u =
    (if keeps_all st then pending st u @ map snd (filter (\<lambda>(t, v). t = u) tvs)
     else case filter (\<lambda>(t, v). t = u) tvs of [] \<Rightarrow> pending st u | _ \<Rightarrow> [snd (last (filter (\<lambda>(t, v). t = u) tvs))])"
  by (induction tvs arbitrary: st) (auto simp: pending_add_value split: list.splits)

lemma stored_keys_added:
  "distinct (stored_keys st) \<Longrightarrow> distinct (stored_keys (foldl (\<lambda>st (t, v). add_value t v st) st tvs))"
  by (induction tvs arbitrary: st) (auto simp: stored_keys_add_value)

text \<open>
  C30. What a subscription receives for a topic: with the option \<open>all\<close> every value added since the
  last time, in order, and without it the last one only. Taking the values empties the store.
\<close>
theorem stored_values_taken:
  "unwrap_or [] (map_of (fst (take_values (foldl (\<lambda>st (t, v). add_value t v st) new_all tvs))) u) =
      map snd (filter (\<lambda>(t, v). t = u) tvs) \<and>
    unwrap_or [] (map_of (fst (take_values (foldl (\<lambda>st (t, v). add_value t v st) new_one tvs))) u) =
      (case filter (\<lambda>(t, v). t = u) tvs of [] \<Rightarrow> [] | x # xs \<Rightarrow> [snd (last (x # xs))]) \<and>
    stored_keys (snd (take_values st)) = []"
  using take_values_pending [OF stored_keys_added, of new_all tvs u]
    take_values_pending [OF stored_keys_added, of new_one tvs u]
  by (cases st) (auto simp: pending_added new_all_def new_one_def split: list.splits)

end
