(* ===== verification/Server_State.thy ===== *)
theory Server_State
  imports Server_Util
begin

text \<open>
  The state of the server (\<open>InnerServer\<close> and \<open>ConnectedClient\<close> of
  \<open>src/server/inner.rs\<close>) and the sends to one client.

  Each mutex-protected field of \<open>InnerServer\<close> is a field of the record. What a client shares
  with the task that serves its connection lives outside the client: the kill switch
  (\<open>Arc<AtomicBool>\<close>) is a cell and the outgoing channel is a queue, both found by a reference.
\<close>

section \<open>State\<close>

record connected_client =
  cc_identity :: client_identity
  cc_kill_bool :: nat
  cc_pubuid_to_topicidx :: "(pub_uid, topic_idx) prim_bimap"
  cc_subuid_to_subidx :: "(sub_uid, sub_idx) prim_bimap"
  cc_subs :: "subscription list"
  cc_sub_ouput :: "nat option"
  cc_announced_topics :: "topic_idx set"

text \<open>
  A channel of messages: those sent and not yet received, whether the receiver is alive, and
  whether the sender is. The bound of 127 messages only makes a sender wait.
\<close>

record 't chan =
  ch_queue :: "'t ws_message list"
  ch_rx_open :: bool
  ch_tx_open :: bool

text \<open>A point in time of \<open>std::time::Instant\<close>, in nanoseconds.\<close>

type_synonym instant = nat

datatype server_callback = OnClientConnect

record ('v, 't) server =
  server_addr :: socket_addr
  callbacks :: "server_callback list"
  topics :: "(topic_idx, string topic) hmap"
  topic_map :: "(string, topic_idx) hmap"
  pub_count :: "(topic_idx, u16) hmap"
  topic_value_map :: "(topic_idx, 'v timestamped_value) hmap"
  metatopic_value_map :: "(topic_idx, meta_topic_value) hmap"
  client_map :: "(client_identity, client_idx) hmap"
  clients :: "(client_idx, connected_client) hmap"
  client_metatopic_map :: "(client_idx, topic_idx \<times> topic_idx) hmap"
  subscriptions :: "(sub_idx, subscription \<times> client_idx) hmap"
  topic_sub_map :: "(topic_idx, sub_idx list) hmap"
  sub_send_timestamps :: "(sub_idx, instant) hmap"
  sub_values :: "(sub_idx, 'v stored_sub_value) hmap"
  counters :: counter
  kill_cells :: "nat \<Rightarrow> bool"
  channels :: "nat \<Rightarrow> 't chan"
  next_ref :: nat

type_synonym ('v, 't, 'a) server_act = "(('v, 't) server, nt_error, 'a) act"

definition CLIENT_METATOPIC :: topic_idx where
  "CLIENT_METATOPIC = 0"

definition SERVER_SUB_METADATA :: topic_idx where
  "SERVER_SUB_METADATA = 1"

definition SERVER_PUB_METATOPIC :: topic_idx where
  "SERVER_PUB_METATOPIC = 2"

definition SERVER_CLIENT_IDX :: client_idx where
  "SERVER_CLIENT_IDX = 0"

definition on_counters :: "(counter, nt_error, 'a) act \<Rightarrow> ('v, 't, 'a) server_act" where
  "on_counters = zoom counters (\<lambda>c s. s\<lparr>counters := c\<rparr>)"

definition new_client :: "client_identity \<Rightarrow> nat \<Rightarrow> nat \<Rightarrow> connected_client" where
  "new_client identity kill_bool sub_output =
    \<lparr>cc_identity = identity,
     cc_kill_bool = kill_bool,
     cc_pubuid_to_topicidx = bm_new,
     cc_subuid_to_subidx = bm_new,
     cc_subs = [],
     cc_sub_ouput = Some sub_output,
     cc_announced_topics = {}\<rparr>"

section \<open>Sending to a client\<close>

text \<open>\<open>Sender::send\<close> fails when the receiver is gone.\<close>

definition chan_send :: "nat \<Rightarrow> 't ws_message \<Rightarrow> ('v, 't, unit) server_act" where
  "chan_send c msg s =
    (if ch_rx_open (channels s c)
     then (Ok (), s\<lparr>channels := (channels s)
                      (c := (channels s c)\<lparr>ch_queue := ch_queue (channels s c) @ [msg]\<rparr>)\<rparr>)
     else (Err TokioChannelMessageSend, s))"

definition send_nt_messages ::
    "('v, 't, 'm, string) ext \<Rightarrow> connected_client \<Rightarrow> string nt_message list \<Rightarrow> ('v, 't, unit) server_act"
where
  "send_nt_messages E client messages s =
    (case cc_sub_ouput client of
       None \<Rightarrow> (Ok (), s)
     | Some c \<Rightarrow>
         (case json_write_list E messages of
            Some json \<Rightarrow> chan_send c (WsText json) s
          | None \<Rightarrow> (Err SerdeJson, s)))"

definition send_binary :: "connected_client \<Rightarrow> u8 list \<Rightarrow> ('v, 't, unit) server_act" where
  "send_binary client message s =
    (case cc_sub_ouput client of
       Some c \<Rightarrow> chan_send c (WsBinary message) s
     | None \<Rightarrow> (Ok (), s))"

text \<open>The bytes of \<open>flush\<close>.\<close>

definition flush_bytes :: "u8 list" where
  "flush_bytes = map of_char ''flush''"

definition flush :: "connected_client \<Rightarrow> ('v, 't, unit) server_act" where
  "flush client s =
    (case cc_sub_ouput client of
       Some c \<Rightarrow> chan_send c (WsBinary flush_bytes) s
     | None \<Rightarrow> (Ok (), s))"

section \<open>Facts\<close>

text \<open>A send changes the channels and nothing else.\<close>

definition same_but_channels :: "('v, 't) server \<Rightarrow> ('v, 't) server \<Rightarrow> bool" where
  "same_but_channels s t \<longleftrightarrow> (\<exists>c. t = s\<lparr>channels := c\<rparr>)"

lemma same_but_channels_refl [simp]: "same_but_channels s s"
  unfolding same_but_channels_def by (rule exI [of _ "channels s"]) simp

lemma same_but_channels_trans:
  "same_but_channels s t \<Longrightarrow> same_but_channels t u \<Longrightarrow> same_but_channels s u"
  by (auto simp: same_but_channels_def)

lemma chan_send_frame: "same_but_channels s (snd (chan_send c m s))"
  by (auto simp: chan_send_def simp flip: same_but_channels_def) (auto simp: same_but_channels_def)

lemma send_nt_messages_frame: "same_but_channels s (snd (send_nt_messages E cl ms s))"
  by (auto simp: send_nt_messages_def chan_send_frame split: option.splits)

lemma send_binary_frame: "same_but_channels s (snd (send_binary cl b s))"
  by (auto simp: send_binary_def chan_send_frame split: option.splits)

lemma flush_frame: "same_but_channels s (snd (flush cl s))"
  by (auto simp: flush_def chan_send_frame split: option.splits)

lemma sends_no_panic [simp]:
  "\<not> is_panic (fst (chan_send c m s))"
  "\<not> is_panic (fst (send_nt_messages E cl ms s))"
  "\<not> is_panic (fst (send_binary cl b s))"
  "\<not> is_panic (fst (flush cl s))"
  by (auto simp: chan_send_def send_nt_messages_def send_binary_def flush_def split: option.splits)

end
