(* ===== verification/Server_Topics.thy ===== *)
theory Server_Topics
  imports Server_State
begin

text \<open>
  The topic registry of \<open>src/server/inner.rs\<close>: announcing, adding and removing topics.
\<close>

section \<open>Announcing\<close>

text \<open>The reply to the client that published: only if the topic is new to it.\<close>

definition announce_reply ::
    "('v, 't, 'm, string) ext \<Rightarrow> topic_idx \<Rightarrow> string announce_msg \<Rightarrow> client_idx \<Rightarrow> ('v, 't, unit) server_act"
where
  "announce_reply E topic_idx new_msg client_idx s =
    (case map_of (clients s) client_idx of
       Some client \<Rightarrow>
         if topic_idx \<notin> cc_announced_topics client
         then try_bind (send_nt_messages E client [Announce new_msg])
                (\<lambda>_. modify (\<lambda>s. s\<lparr>clients := hm_insert client_idx
                   (client\<lparr>cc_announced_topics := insert topic_idx (cc_announced_topics client)\<rparr>)
                   (clients s)\<rparr>)) s
         else (Ok (), s)
     | None \<Rightarrow>
         (Err (ServerError (ClientDoesNotExist
            (''client idx '' @ show_uint client_idx @ '' could not be announced to [did not exist]''))), s))"

definition announce_to ::
    "('v, 't, 'm, string) ext \<Rightarrow> topic_idx \<Rightarrow> string nt_message list \<Rightarrow> client_idx \<Rightarrow> ('v, 't, unit) server_act"
where
  "announce_to E topic_idx announce_msgs client_idx s =
    (case map_of (clients s) client_idx of
       None \<Rightarrow> (Ok (), s)
     | Some client \<Rightarrow>
         let client' = client\<lparr>cc_announced_topics := insert topic_idx (cc_announced_topics client)\<rparr>
         in send_nt_messages E client' announce_msgs
              (s\<lparr>clients := hm_insert client_idx client' (clients s)\<rparr>))"

text \<open>The clients with a subscription that cares about the topic, each once.\<close>

definition clients_to_notify :: "('v, 't) server \<Rightarrow> string \<Rightarrow> client_idx list" where
  "clients_to_notify s topic_name =
    remdups (map (\<lambda>(_, _, client_idx). client_idx)
      (filter (\<lambda>(_, subscription, _). cares_about subscription topic_name) (subscriptions s)))"

definition announce_topic ::
    "('v, 't, 'm, string) ext \<Rightarrow> topic_idx \<Rightarrow> (pub_uid \<times> client_idx) option \<Rightarrow> ('v, 't, unit) server_act"
where
  "announce_topic E topic_idx response_opt s =
    (case map_of (topics s) topic_idx of
       None \<Rightarrow>
         (Err (ServerError (TopicDoesNotExist
            (''topic idx '' @ show_uint topic_idx @ '' could not be announced [did not exist]''))), s)
     | Some topic \<Rightarrow>
         let announce_msg =
               \<lparr>an_name = t_name topic, an_id = topic_idx, an_type = t_type topic, an_pubuid = None,
                an_properties = unwrap_or publish_properties_default (t_properties topic)\<rparr>
         in try_bind
              (case response_opt of
                 None \<Rightarrow> ret ()
               | Some (pubuid, client_idx) \<Rightarrow>
                   announce_reply E topic_idx (announce_msg\<lparr>an_pubuid := Some pubuid\<rparr>) client_idx)
              (\<lambda>_. try_bind (gets (\<lambda>s. clients_to_notify s (t_name topic)))
                 (for_each (announce_to E topic_idx [Announce announce_msg]))) s)"

section \<open>Adding\<close>

text \<open>
  The entries a new topic gets: a publisher count of one, or two when its properties make the
  server an implicit publisher.
\<close>

definition register_topic :: "topic_idx \<Rightarrow> string topic \<Rightarrow> ('v, 't) server \<Rightarrow> ('v, 't) server" where
  "register_topic topic_idx topic s =
    s\<lparr>topics := hm_insert topic_idx topic (topics s),
      pub_count := hm_insert topic_idx (if has_implicit_publisher topic then 2 else 1) (pub_count s),
      topic_map := hm_insert (t_name topic) topic_idx (topic_map s),
      topic_sub_map := hm_insert topic_idx [] (topic_sub_map s)\<rparr>"

text \<open>
  A topic whose name is known keeps its index. A new one is registered, and unless it is a
  metatopic itself (its name has a \<open>$\<close>) its two metatopics are added and announced.
\<close>

function add_topic ::
    "('v, 't, 'm, string) ext \<Rightarrow> string topic \<Rightarrow> ('v, 't) server \<Rightarrow> (nt_error, topic_idx) outcome \<times> ('v, 't) server"
where
  "add_topic E topic s =
    (case map_of (topic_map s) (t_name topic) of
       Some topic_idx \<Rightarrow> (Ok topic_idx, s)
     | None \<Rightarrow>
         try_bind (on_counters next_topic_idx) (\<lambda>topic_idx.
         try_bind (modify (register_topic topic_idx topic)) (\<lambda>_.
           if str_contains (t_name topic) ''$'' then ret topic_idx
           else
             try_bind (add_topic E (new_meta (''$pub$'' @ t_name topic))) (\<lambda>meta_pub.
             try_bind (announce_topic E meta_pub None) (\<lambda>_.
             try_bind (add_topic E (new_meta (''$sub$'' @ t_name topic))) (\<lambda>meta_sub.
             try_bind (announce_topic E meta_sub None) (\<lambda>_.
             ret topic_idx)))))) s)"
  by pat_completeness auto
termination
  by (relation "measure (\<lambda>(E, topic, s). if CHR ''$'' \<in> set (t_name topic) then 0 else 1)") auto

declare add_topic.simps [simp del]

section \<open>Removing\<close>

text \<open>
  The topic leaves \<open>topics\<close> first; a metatopic of it that is not registered is an error, and
  what was removed so far stays removed.
\<close>

definition remove_topic :: "topic_idx \<Rightarrow> ('v, 't, unit) server_act" where
  "remove_topic topic_idx s =
    (case map_of (topics s) topic_idx of
       None \<Rightarrow>
         (Err (ServerError (TopicDoesNotExist
            (''topic idx '' @ show_uint topic_idx @ '' could not be removed [did not exist]''))), s)
     | Some topic \<Rightarrow>
         let s1 = s\<lparr>topics := hm_remove topic_idx (topics s)\<rparr>;
             meta_err = Err (ServerError (TopicDoesNotExist
               (''metatopic idx '' @ show_uint topic_idx @ '' could not be removed [did not exist]'')));
             meta_pub_name = ''$pub$'' @ t_name topic;
             meta_sub_name = ''$sub$'' @ t_name topic
         in (case map_of (topic_map s1) meta_pub_name of
               None \<Rightarrow> (meta_err, s1)
             | Some meta_pub_idx \<Rightarrow>
                 let s2 = s1\<lparr>topic_map := hm_remove meta_pub_name (topic_map s1)\<rparr>
                 in (case map_of (topic_map s2) meta_sub_name of
                       None \<Rightarrow> (meta_err, s2)
                     | Some meta_sub_idx \<Rightarrow>
                         (Ok (),
                          s2\<lparr>topic_map := hm_remove (t_name topic) (hm_remove meta_sub_name (topic_map s2)),
                             topics := hm_remove meta_sub_idx (hm_remove meta_pub_idx (topics s2)),
                             topic_sub_map := hm_remove meta_sub_idx (hm_remove meta_pub_idx
                               (hm_remove topic_idx (topic_sub_map s2))),
                             topic_value_map := hm_remove topic_idx (topic_value_map s2),
                             metatopic_value_map := hm_remove meta_sub_idx
                               (hm_remove meta_pub_idx (metatopic_value_map s2))\<rparr>))))"

section \<open>Taking back announcements\<close>

definition un_announce_to ::
    "('v, 't, 'm, string) ext \<Rightarrow> topic_idx \<Rightarrow> string nt_message list \<Rightarrow> client_idx \<Rightarrow> ('v, 't, unit) server_act"
where
  "un_announce_to E topic_idx unannounce_msgs client_idx s =
    (case map_of (clients s) client_idx of
       None \<Rightarrow> (Ok (), s)
     | Some client \<Rightarrow>
         if topic_idx \<notin> cc_announced_topics client then (Ok (), s)
         else
           let client' = client\<lparr>cc_announced_topics := cc_announced_topics client - {topic_idx}\<rparr>
           in send_nt_messages E client' unannounce_msgs
                (s\<lparr>clients := hm_insert client_idx client' (clients s)\<rparr>))"

definition un_announce_topics ::
    "('v, 't, 'm, string) ext \<Rightarrow> string \<Rightarrow> topic_idx \<Rightarrow> ('v, 't, unit) server_act"
where
  "un_announce_topics E topic_name topic_idx s =
    for_each (un_announce_to E topic_idx [UnAnnounce \<lparr>ua_name = topic_name, ua_id = topic_idx\<rparr>])
      (map fst (clients s)) s"

text \<open>Everything a subscription cares about, for a new subscription.\<close>

definition announcements_for :: "subscription \<Rightarrow> ('v, 't) server \<Rightarrow> (topic_idx \<times> string announce_msg) list" where
  "announcements_for subscription s =
    concat (map (\<lambda>(topic_name, topic_idx).
      if \<not> cares_about subscription topic_name then []
      else (case map_of (topics s) topic_idx of
              None \<Rightarrow> []
            | Some topic \<Rightarrow>
                [(topic_idx,
                  \<lparr>an_name = topic_name, an_id = topic_idx, an_type = t_type topic, an_pubuid = None,
                   an_properties = unwrap_or publish_properties_default (t_properties topic)\<rparr>)]))
      (topic_map s))"

definition announce_all_topics_for ::
    "('v, 't, 'm, string) ext \<Rightarrow> sub_idx \<Rightarrow> ('v, 't, unit) server_act"
where
  "announce_all_topics_for E sub_idx s =
    (case map_of (subscriptions s) sub_idx of
       None \<Rightarrow>
         (Err (ServerError (SubscriptionDoesNotExist
            (''subscription idx '' @ show_uint sub_idx @ '' could not be announced to [did not exist]''))), s)
     | Some (subscription, client_idx) \<Rightarrow>
         let announces = announcements_for subscription s
         in (case map_of (clients s) client_idx of
               None \<Rightarrow>
                 (Err (ServerError (ClientDoesNotExist
                    (''client idx '' @ show_uint client_idx @ '' could not be announced to [did not exist]''))), s)
             | Some client \<Rightarrow>
                 let client' = client\<lparr>cc_announced_topics :=
                       cc_announced_topics client \<union> set (map fst announces)\<rparr>
                 in send_nt_messages E client' (map (\<lambda>(_, a). Announce a) announces)
                      (s\<lparr>clients := hm_insert client_idx client' (clients s)\<rparr>)))"

end
