(* ===== verification/Server_Ops.thy ===== *)
theory Server_Ops
  imports Server_Topics
begin

text \<open>
  The requests of \<open>src/server/inner.rs\<close>: a new server, clients that come and go, publishing,
  subscribing, properties and values.
\<close>

section \<open>A new server\<close>

definition server_client :: connected_client where
  "server_client =
    \<lparr>cc_identity = server_identity,
     cc_kill_bool = 0,
     cc_pubuid_to_topicidx = bm_new,
     cc_subuid_to_subidx = bm_new,
     cc_subs = [],
     cc_sub_ouput = None,
     cc_announced_topics = {}\<rparr>"

definition empty_server :: "socket_addr \<Rightarrow> ('v, 't) server" where
  "empty_server addr =
    \<lparr>server_addr = addr, callbacks = [], topics = [], topic_map = [], pub_count = [],
     topic_value_map = [], metatopic_value_map = [], client_map = [], clients = [],
     client_metatopic_map = [], subscriptions = [], topic_sub_map = [], sub_send_timestamps = [],
     sub_values = [], counters = counter_default, kill_cells = (\<lambda>_. False),
     channels = (\<lambda>_. \<lparr>ch_queue = [], ch_rx_open = False, ch_tx_open = False\<rparr>), next_ref = 1\<rparr>"

text \<open>The server client, then the three metatopics \<open>$clients\<close>, \<open>$serversub\<close>, \<open>$serverpub\<close>.\<close>

definition try_new ::
    "('v, 't, 'm, string) ext \<Rightarrow> socket_addr \<Rightarrow> (nt_error, unit) outcome \<times> ('v, 't) server"
where
  "try_new E addr =
    try_bind (on_counters next_client_idx) (\<lambda>idx.
    try_bind (modify (\<lambda>s. s\<lparr>clients := hm_insert idx server_client (clients s)\<rparr>)) (\<lambda>_.
    try_bind (add_topic E (new_meta ''$clients'')) (\<lambda>_.
    try_bind (add_topic E (new_meta ''$serversub'')) (\<lambda>_.
    try_bind (add_topic E (new_meta ''$serverpub'')) (\<lambda>_.
    ret ()))))) (empty_server addr)"

section \<open>Clients\<close>

definition is_client_connected :: "client_identity \<Rightarrow> ('v, 't) server \<Rightarrow> bool" where
  "is_client_connected ident s \<longleftrightarrow> map_of (client_map s) ident \<noteq> None"

text \<open>One topic the leaving client published: one publisher less, none left removes the topic.\<close>

definition drop_publisher :: "topic_idx \<Rightarrow> ('v, 't, unit) server_act" where
  "drop_publisher topic_idx s =
    (case map_of (pub_count s) topic_idx of
       None \<Rightarrow> (Ok (), s)
     | Some count \<Rightarrow>
         (case checked_sub count 1 of
            None \<Rightarrow> (Panic ''attempt to subtract with overflow'', s)
          | Some count' \<Rightarrow>
              let s' = s\<lparr>pub_count := hm_insert topic_idx count' (pub_count s)\<rparr>
              in if count' = 0 then remove_topic topic_idx s' else (Ok (), s')))"

text \<open>The client leaves the map: its kill switch is set and its end of the channel is dropped.\<close>

definition drop_client :: "client_idx \<Rightarrow> connected_client \<Rightarrow> ('v, 't) server \<Rightarrow> ('v, 't) server" where
  "drop_client idx client s =
    s\<lparr>clients := hm_remove idx (clients s),
      kill_cells := (kill_cells s)(cc_kill_bool client := True),
      channels := (case cc_sub_ouput client of
                     None \<Rightarrow> channels s
                   | Some c \<Rightarrow> (channels s)(c := (channels s c)\<lparr>ch_tx_open := False\<rparr>))\<rparr>"

definition disconnect_client :: "client_identity \<Rightarrow> ('v, 't, unit) server_act" where
  "disconnect_client ident s =
    (let not_there = Err (ServerError (ClientDoesNotExist (show_identity ident)))
     in case map_of (client_map s) ident of
          None \<Rightarrow> (not_there, s)
        | Some idx \<Rightarrow>
            let s1 = s\<lparr>client_map := hm_remove ident (client_map s)\<rparr>
            in (case map_of (clients s1) idx of
                  None \<Rightarrow> (not_there, s1)
                | Some client \<Rightarrow>
                    try_bind
                      (for_each drop_publisher (map snd (bm_iter_lr (cc_pubuid_to_topicidx client))))
                      (\<lambda>_ s2.
                        let s3 = s2\<lparr>client_metatopic_map := hm_remove idx (client_metatopic_map s2)\<rparr>
                        in (case map_of (client_metatopic_map s2) idx of
                              None \<Rightarrow> (Ok (), s3)
                            | Some (pub_meta, sub_meta) \<Rightarrow>
                                try_bind (remove_topic pub_meta) (\<lambda>_. remove_topic sub_meta) s3))
                      (drop_client idx client s1)))"

text \<open>
  A name that occurs in the name of a client already there gets a suffix with the number of
  such clients.
\<close>

definition instances_of_ident :: "client_identity \<Rightarrow> ('v, 't) server \<Rightarrow> nat" where
  "instances_of_ident identity s =
    length (filter (\<lambda>(_, client). str_contains (ci_name (cc_identity client)) (ci_name identity)) (clients s))"

definition dedup_identity :: "client_identity \<Rightarrow> ('v, 't) server \<Rightarrow> client_identity" where
  "dedup_identity identity s =
    (if instances_of_ident identity s > 0
     then update_name (ci_name identity @ ''@'' @ show_nat (instances_of_ident identity s)) identity
     else identity)"

text \<open>
  What the task of the connection gets: the kill switch and the receiving end of the channel
  (the references of the cell and the queue), the index of the client and its final identity.
\<close>

definition admit_client :: "client_identity \<Rightarrow> client_idx \<Rightarrow> ('v, 't) server \<Rightarrow> ('v, 't) server" where
  "admit_client identity idx s =
    (let r = next_ref s in
     s\<lparr>next_ref := r + 1,
       kill_cells := (kill_cells s)(r := False),
       channels := (channels s)(r := \<lparr>ch_queue = [], ch_rx_open = True, ch_tx_open = True\<rparr>),
       clients := hm_insert idx (new_client identity r r) (clients s),
       client_map := hm_insert identity idx (client_map s),
       metatopic_value_map :=
         entry_merge CLIENT_METATOPIC (MClient []) (MClient [to_mte identity]) (metatopic_value_map s)\<rparr>)"

definition connect_client ::
    "('v, 't, 'm, string) ext \<Rightarrow> client_identity \<Rightarrow>
      ('v, 't, nat \<times> nat \<times> client_idx \<times> client_identity) server_act"
where
  "connect_client E ident s =
    (if is_client_connected ident s
     then (Err (ServerError (ClientAlreadyExists (show_identity ident))), s)
     else
       let s0 = s\<lparr>callbacks := callbacks s @ [OnClientConnect]\<rparr>;
           identity = dedup_identity ident s0;
           client_name = ci_name identity;
           r = next_ref s0
       in try_bind (on_counters next_client_idx) (\<lambda>idx.
          try_bind (modify (admit_client identity idx)) (\<lambda>_.
          try_bind (add_topic E (new_meta (''$clientpub$'' @ client_name))) (\<lambda>pub_idx.
          try_bind (add_topic E (new_meta (''$clientsub$'' @ client_name))) (\<lambda>sub_idx.
          try_bind (modify (\<lambda>s. s\<lparr>client_metatopic_map :=
                              hm_insert idx (pub_idx, sub_idx) (client_metatopic_map s)\<rparr>)) (\<lambda>_.
          ret (r, r, idx, identity)))))) s0)"

definition get_client_ident :: "client_idx \<Rightarrow> ('v, 't) server \<Rightarrow> client_identity option" where
  "get_client_ident client_idx s = map_option cc_identity (map_of (clients s) client_idx)"

section \<open>Publishing\<close>

definition client_missing :: "client_idx \<Rightarrow> nt_error" where
  "client_missing client_idx = ServerError (ClientDoesNotExist (''Client id: '' @ show_uint client_idx))"

definition metatopic_missing :: "client_idx \<Rightarrow> nt_error" where
  "metatopic_missing client_idx =
    ServerError (TopicDoesNotExist (''Client id '' @ show_uint client_idx @ '' metatopic did not exist''))"

definition record_publisher :: "client_idx \<Rightarrow> client_publisher_mte \<Rightarrow> ('v, 't, unit) server_act" where
  "record_publisher client_idx pub_mte s =
    (if client_idx = SERVER_CLIENT_IDX
     then (Ok (), s\<lparr>metatopic_value_map :=
             entry_merge SERVER_PUB_METATOPIC (MServerPublisher []) (MServerPublisher [pub_mte])
               (metatopic_value_map s)\<rparr>)
     else (case map_of (client_metatopic_map s) client_idx of
             Some (pub_idx, _) \<Rightarrow>
               (Ok (), s\<lparr>metatopic_value_map :=
                  entry_merge pub_idx (MClientPublisher []) (MClientPublisher [pub_mte])
                    (metatopic_value_map s)\<rparr>)
           | None \<Rightarrow> (Err (metatopic_missing client_idx), s)))"

definition bind_pubuid :: "client_idx \<Rightarrow> pub_uid \<Rightarrow> topic_idx \<Rightarrow> ('v, 't, unit) server_act" where
  "bind_pubuid client_idx pubuid topic_idx s =
    (case map_of (clients s) client_idx of
       None \<Rightarrow> (Err (client_missing client_idx), s)
     | Some client \<Rightarrow>
         (Ok (), s\<lparr>clients := hm_insert client_idx
            (client\<lparr>cc_pubuid_to_topicidx :=
               snd (bm_insert pubuid topic_idx (cc_pubuid_to_topicidx client))\<rparr>) (clients s)\<rparr>))"

definition inner_publish_topic ::
    "('v, 't, 'm, string) ext \<Rightarrow> string publish_topic_msg \<Rightarrow> client_idx \<Rightarrow> ('v, 't, topic_idx) server_act"
where
  "inner_publish_topic E pub_topic client_idx =
    (let pubuid = pt_pubuid pub_topic;
         pub_mte = \<lparr>cp_topic = pt_name pub_topic, cp_uid = pubuid\<rparr>
     in try_bind (add_topic E (from_publish_topic pub_topic)) (\<lambda>topic_idx.
        try_bind (announce_topic E topic_idx (Some (pubuid, client_idx))) (\<lambda>_.
        try_bind (bind_pubuid client_idx pubuid topic_idx) (\<lambda>_.
        try_bind (record_publisher client_idx pub_mte) (\<lambda>_.
        ret topic_idx)))))"

definition unbind_pubuid :: "client_idx \<Rightarrow> pub_uid \<Rightarrow> ('v, 't, topic_idx) server_act" where
  "unbind_pubuid client_idx pubuid s =
    (case map_of (clients s) client_idx of
       None \<Rightarrow> (Err (client_missing client_idx), s)
     | Some client \<Rightarrow>
         (case bm_remove_by_left pubuid (cc_pubuid_to_topicidx client) of
            (None, _) \<Rightarrow>
              (Err (ServerError (TopicDoesNotExist
                 (''pubuid '' @ show_uint pubuid @ '' for client '' @ show_uint client_idx @
                  '' related topic did not exist''))), s)
          | (Some topic_idx, b) \<Rightarrow>
              (Ok topic_idx,
               s\<lparr>clients := hm_insert client_idx (client\<lparr>cc_pubuid_to_topicidx := b\<rparr>) (clients s)\<rparr>)))"

text \<open>One publisher less; the last one removes the topic and then its count.\<close>

definition release_publisher :: "topic_idx \<Rightarrow> ('v, 't, unit) server_act" where
  "release_publisher topic_idx s =
    (case map_of (pub_count s) topic_idx of
       None \<Rightarrow>
         (Err (ServerError (TopicDoesNotExist
            (''Topic idx '' @ show_uint topic_idx @ '' did not exist in pub_count''))), s)
     | Some count \<Rightarrow>
         (case checked_sub count 1 of
            None \<Rightarrow> (Panic ''attempt to subtract with overflow'', s)
          | Some count' \<Rightarrow>
              let s' = s\<lparr>pub_count := hm_insert topic_idx count' (pub_count s)\<rparr>
              in if count' = 0
                 then try_bind (remove_topic topic_idx)
                        (\<lambda>_. modify (\<lambda>s. s\<lparr>pub_count := hm_remove topic_idx (pub_count s)\<rparr>)) s'
                 else (Ok (), s')))"

definition erase_publisher :: "client_idx \<Rightarrow> client_publisher_mte \<Rightarrow> ('v, 't, unit) server_act" where
  "erase_publisher client_idx pub_mte s =
    (if client_idx = SERVER_CLIENT_IDX
     then (Ok (), s\<lparr>metatopic_value_map :=
             entry_reduce SERVER_PUB_METATOPIC (MServerPublisher []) (MServerPublisher [pub_mte])
               (metatopic_value_map s)\<rparr>)
     else (case map_of (client_metatopic_map s) client_idx of
             Some (pub_idx, _) \<Rightarrow>
               (Ok (), s\<lparr>metatopic_value_map :=
                  entry_reduce pub_idx (MClientPublisher []) (MClientPublisher [pub_mte])
                    (metatopic_value_map s)\<rparr>)
           | None \<Rightarrow> (Err (metatopic_missing client_idx), s)))"

definition inner_unpublish_topic ::
    "unpublish_topic_msg \<Rightarrow> client_idx \<Rightarrow> ('v, 't, unit) server_act"
where
  "inner_unpublish_topic pub_topic client_idx =
    try_bind (unbind_pubuid client_idx (up_pubuid pub_topic)) (\<lambda>topic_idx.
    try_bind (gets (\<lambda>s. \<lparr>cp_topic = unwrap_or '''' (map_option t_name (map_of (topics s) topic_idx)),
                         cp_uid = up_pubuid pub_topic\<rparr>)) (\<lambda>pub_mte.
    try_bind (release_publisher topic_idx) (\<lambda>_.
    erase_publisher client_idx pub_mte)))"

end
