(* ===== verification/Server_Subs.thy ===== *)
theory Server_Subs
  imports Server_Ops
begin

text \<open>
  The second half of the requests of \<open>src/server/inner.rs\<close>: subscriptions, properties, values,
  flushing.
\<close>

section \<open>Subscribing\<close>

text \<open>
  The type a topic is announced with to a new subscriber; \<open>None\<close> skips the topic (the
  \<open>continue\<close> of the loop).
\<close>

definition announced_type ::
    "('v, 't, 'm, string) ext \<Rightarrow> string \<Rightarrow> topic_idx \<Rightarrow> ('v, 't) server \<Rightarrow> string option"
where
  "announced_type E topic_name topic_idx s =
    (if str_contains topic_name ''$'' then Some ''raw''
     else (case map_of (topic_value_map s) topic_idx of
             Some v \<Rightarrow> Some (stringify (frc_get_type E (tv_value v)))
           | None \<Rightarrow> map_option t_type (map_of (topics s) topic_idx)))"

text \<open>The bytes of the current value of a topic; a value that cannot be written is left out.\<close>

definition current_value_bytes ::
    "('v, 't, 'm, string) ext \<Rightarrow> topic_idx \<Rightarrow> ('v, 't) server \<Rightarrow> u8 list"
where
  "current_value_bytes E topic_idx s =
    (case map_of (topic_value_map s) topic_idx of
       None \<Rightarrow> []
     | Some v \<Rightarrow> (case tv_as_bytes E v topic_idx of Ok buf \<Rightarrow> buf | _ \<Rightarrow> []))"

definition announce_msg_for :: "string \<Rightarrow> topic_idx \<Rightarrow> string \<Rightarrow> ('v, 't) server \<Rightarrow> string nt_message" where
  "announce_msg_for topic_name topic_idx ty s =
    Announce
      \<lparr>an_name = topic_name, an_id = topic_idx, an_type = ty, an_pubuid = None,
       an_properties =
         (case map_of (topics s) topic_idx of
            None \<Rightarrow> publish_properties_default
          | Some topic \<Rightarrow> unwrap_or publish_properties_default (t_properties topic))\<rparr>"

text \<open>
  The loop over the interested topics: it enters the subscription in the list of each topic and
  gathers the announcements and the current values.
\<close>

fun subscribe_topics ::
    "('v, 't, 'm, string) ext \<Rightarrow> sub_idx \<Rightarrow> (string \<times> topic_idx) list \<Rightarrow>
      string nt_message list \<Rightarrow> u8 list \<Rightarrow> ('v, 't, string nt_message list \<times> u8 list) server_act"
where
  "subscribe_topics E sub_idx [] announce_msgs send_values s = (Ok (announce_msgs, send_values), s)"
| "subscribe_topics E sub_idx ((topic_name, topic_idx) # rest) announce_msgs send_values s =
    (case map_of (topic_sub_map s) topic_idx of
       None \<Rightarrow>
         (Err (ServerError (TopicDoesNotExist (''Topic id: '' @ show_uint topic_idx))), s)
     | Some vectr \<Rightarrow>
         let s' = s\<lparr>topic_sub_map := hm_insert topic_idx (vectr @ [sub_idx]) (topic_sub_map s)\<rparr>
         in (case announced_type E topic_name topic_idx s' of
               None \<Rightarrow> subscribe_topics E sub_idx rest announce_msgs send_values s'
             | Some ty \<Rightarrow>
                 subscribe_topics E sub_idx rest
                   (announce_msgs @ [announce_msg_for topic_name topic_idx ty s'])
                   (send_values @ current_value_bytes E topic_idx s') s'))"

definition interested_topics :: "subscription \<Rightarrow> ('v, 't) server \<Rightarrow> (string \<times> topic_idx) list" where
  "interested_topics subscription s = filter (\<lambda>(name, _). cares_about subscription name) (topic_map s)"

definition store_subscription ::
    "instant \<Rightarrow> sub_idx \<Rightarrow> subscription \<Rightarrow> client_idx \<Rightarrow> connected_client \<Rightarrow> ('v, 't) server \<Rightarrow> ('v, 't) server"
where
  "store_subscription now sub_idx subscription client_idx client s =
    s\<lparr>sub_send_timestamps := hm_insert sub_idx now (sub_send_timestamps s),
      sub_values := hm_insert sub_idx
        (if unwrap_or False (opt_all (unwrap_or subscription_options_default (sn_options subscription)))
         then new_all else new_one) (sub_values s),
      subscriptions := hm_insert sub_idx (subscription, client_idx) (subscriptions s),
      clients := hm_insert client_idx
        (client\<lparr>cc_subuid_to_subidx :=
           snd (bm_insert (sn_subuid subscription) sub_idx (cc_subuid_to_subidx client))\<rparr>) (clients s)\<rparr>"

definition subscribe ::
    "('v, 't, 'm, string) ext \<Rightarrow> instant \<Rightarrow> subscribe_msg \<Rightarrow> client_idx \<Rightarrow> ('v, 't, unit) server_act"
where
  "subscribe E now sub client_idx s =
    (case map_of (clients s) client_idx of
       None \<Rightarrow> (Err (client_missing client_idx), s)
     | Some client \<Rightarrow>
         let subscription =
               \<lparr>sn_subuid = sb_subuid sub, sn_topics = sb_topics sub, sn_options = sb_options sub\<rparr>;
             interested = interested_topics subscription s
         in try_bind (on_counters next_sub_idx) (\<lambda>sub_idx.
            try_bind (subscribe_topics E sub_idx interested [] []) (\<lambda>(announce_msgs, send_values).
            try_bind (modify (store_subscription now sub_idx subscription client_idx client)) (\<lambda>_.
            try_bind (send_nt_messages E client announce_msgs) (\<lambda>_.
            send_binary client send_values)))) s)"

text \<open>A subscription that ends leaves every list it was entered in.\<close>

definition forget_subscription :: "sub_idx \<Rightarrow> ('v, 't) server \<Rightarrow> ('v, 't) server" where
  "forget_subscription subidx s =
    s\<lparr>topic_sub_map := hm_map_values (filter (\<lambda>elem. elem \<noteq> subidx)) (topic_sub_map s),
      subscriptions := hm_remove subidx (subscriptions s),
      sub_values := hm_remove subidx (sub_values s),
      sub_send_timestamps := hm_remove subidx (sub_send_timestamps s)\<rparr>"

definition unsubscribe :: "unsubscribe_msg \<Rightarrow> client_idx \<Rightarrow> ('v, 't, unit) server_act" where
  "unsubscribe unsub client_idx s =
    (case map_of (clients s) client_idx of
       None \<Rightarrow> (Err (client_missing client_idx), s)
     | Some client \<Rightarrow>
         (case bm_remove_by_left (us_subuid unsub) (cc_subuid_to_subidx client) of
            (None, _) \<Rightarrow>
              (Err (ServerError (SubscriptionDoesNotExist (''Subuid: '' @ show_i32 (us_subuid unsub)))), s)
          | (Some subidx, b) \<Rightarrow>
              (Ok (), forget_subscription subidx
                 (s\<lparr>clients := hm_insert client_idx (client\<lparr>cc_subuid_to_subidx := b\<rparr>) (clients s)\<rparr>))))"

section \<open>Properties\<close>

definition update_properties ::
    "publish_properties \<Rightarrow> publish_properties option \<Rightarrow> publish_properties"
where
  "update_properties update old =
    (case old of
       None \<Rightarrow> update
     | Some properties \<Rightarrow>
         let p1 = (case pp_retained update of
                     Some r \<Rightarrow> properties\<lparr>pp_retained := Some r\<rparr>
                   | None \<Rightarrow> properties)
         in (case pp_persistent update of
               Some p \<Rightarrow> p1\<lparr>pp_persistent := Some p\<rparr>
             | None \<Rightarrow> p1))"

definition set_properties :: "set_properties_msg \<Rightarrow> ('v, 't, unit) server_act" where
  "set_properties msg s =
    (case map_of (topic_map s) (sp_name msg) of
       None \<Rightarrow> (Err (ServerError (TopicDoesNotExist (sp_name msg))), s)
     | Some topic_idx \<Rightarrow>
         (case map_of (topics s) topic_idx of
            None \<Rightarrow> (Err (ServerError (TopicDoesNotExist (sp_name msg))), s)
          | Some topic \<Rightarrow>
              (Ok (), s\<lparr>topics := hm_insert topic_idx
                 (topic\<lparr>t_properties := Some (update_properties (sp_update msg) (t_properties topic))\<rparr>)
                 (topics s)\<rparr>)))"

section \<open>Values\<close>

text \<open>
  The value goes to the store of every subscription of the topic; both lookups of the loop are
  followed by \<open>unwrap\<close>.
\<close>

fun push_values ::
    "topic_idx \<Rightarrow> 'v timestamped_value \<Rightarrow> sub_idx list \<Rightarrow> ('v, 't, unit) server_act"
where
  "push_values topic_idx v [] s = (Ok (), s)"
| "push_values topic_idx v (sub_idx # rest) s =
    (case map_of (sub_values s) sub_idx of
       None \<Rightarrow> (Panic ''called `Option::unwrap()` on a `None` value'', s)
     | Some st \<Rightarrow>
         push_values topic_idx v rest
           (s\<lparr>sub_values := hm_insert sub_idx (add_value topic_idx (NormalValue v) st) (sub_values s)\<rparr>))"

definition store_value :: "topic_idx \<Rightarrow> 'v timestamped_value \<Rightarrow> ('v, 't) server \<Rightarrow> ('v, 't) server" where
  "store_value topic_idx v s =
    (case map_of (topic_value_map s) topic_idx of
       Some old_value \<Rightarrow>
         if tv_timestamp old_value < tv_timestamp v
         then s\<lparr>topic_value_map := hm_insert topic_idx (replace_inplace old_value v) (topic_value_map s)\<rparr>
         else s
     | None \<Rightarrow> s\<lparr>topic_value_map := hm_insert topic_idx v (topic_value_map s)\<rparr>)"

definition set_value :: "'v timestamped_value \<Rightarrow> topic_idx \<Rightarrow> ('v, 't, unit) server_act" where
  "set_value v topic_idx s =
    (case map_of (topics s) topic_idx of
       None \<Rightarrow>
         (Err (ServerError (TopicDoesNotExist
            (''topic idx '' @ show_uint topic_idx @ '' could not be set [did not exist]''))), s)
     | Some topic \<Rightarrow>
         if str_contains (t_name topic) ''$''
         then (Err (ServerError (NotNormalTopic (t_name topic))), s)
         else
           (case map_of (topic_sub_map s) topic_idx of
              None \<Rightarrow> (Panic ''called `Option::unwrap()` on a `None` value'', s)
            | Some subs \<Rightarrow>
                try_bind (push_values topic_idx v subs)
                  (\<lambda>_. modify (store_value topic_idx v)) s))"

text \<open>
  \<open>map.get(name).cloned().ok_or(Err(e)?)\<close>: the argument of \<open>ok_or\<close> is evaluated before the
  call, and \<open>Err(e)?\<close> returns from the function. The first step of the evaluation is the lookup,
  the second leaves with the error.
\<close>

definition get_topic_idx :: "string \<Rightarrow> ('v, 't, topic_idx) server_act" where
  "get_topic_idx topic_name =
    try_bind (gets (\<lambda>s. map_of (topic_map s) topic_name)) (\<lambda>found.
    try_bind (throw (ServerError (TopicDoesNotExist
                (''topic name '' @ topic_name @ '' could not be found [did not exist]'')))) (\<lambda>err.
    (case found of Some idx \<Rightarrow> ret idx | None \<Rightarrow> throw err)))"

definition get_value :: "topic_idx \<Rightarrow> ('v, 't, 'v timestamped_value) server_act" where
  "get_value topic_idx s =
    (case map_of (topic_value_map s) topic_idx of
       Some v \<Rightarrow> (Ok v, s)
     | None \<Rightarrow>
         (Err (ServerError (TopicDoesNotExist
            (''topic idx '' @ show_uint topic_idx @ '' could not be found [did not exist]''))), s))"

section \<open>Flushing\<close>

definition flush_all :: "('v, 't, unit) server_act" where
  "flush_all s = for_each flush (map snd (clients s)) s"

definition flush_client :: "client_idx \<Rightarrow> ('v, 't, unit) server_act" where
  "flush_client client_idx s =
    (case map_of (clients s) client_idx of
       None \<Rightarrow> (Err (client_missing client_idx), s)
     | Some client \<Rightarrow> flush client s)"

end
