(* ===== verification/Server_Invariant.thy ===== *)
theory Server_Invariant
  imports Server_Subs
begin

text \<open>
  What is true of the server between two requests, and that every request keeps it so: the
  topic registry and the subscription lists agree with each other, so that no lookup that the
  code follows with \<open>unwrap\<close> or \<open>expect\<close> can fail.
\<close>

section \<open>The invariant\<close>

text \<open>Every map has each key once.\<close>

definition wf_maps :: "('v, 't) server \<Rightarrow> bool" where
  "wf_maps s \<longleftrightarrow>
    distinct (map fst (topics s)) \<and> distinct (map fst (topic_map s)) \<and>
    distinct (map fst (pub_count s)) \<and> distinct (map fst (topic_value_map s)) \<and>
    distinct (map fst (metatopic_value_map s)) \<and> distinct (map fst (client_map s)) \<and>
    distinct (map fst (clients s)) \<and> distinct (map fst (client_metatopic_map s)) \<and>
    distinct (map fst (subscriptions s)) \<and> distinct (map fst (topic_sub_map s)) \<and>
    distinct (map fst (sub_send_timestamps s)) \<and> distinct (map fst (sub_values s))"

text \<open>
  A topic that exists, or that a name leads to, has a list of subscriptions; two names never
  lead to one topic; a topic that a name leads to has that name; indices come from the counter.
\<close>

definition registry_inv :: "('v, 't) server \<Rightarrow> bool" where
  "registry_inv s \<longleftrightarrow>
    (\<forall>i t. map_of (topics s) i = Some t \<longrightarrow> i \<in> hm_keys (topic_sub_map s)) \<and>
    (\<forall>n i. map_of (topic_map s) n = Some i \<longrightarrow> i \<in> hm_keys (topic_sub_map s)) \<and>
    (\<forall>n m i. map_of (topic_map s) n = Some i \<longrightarrow> map_of (topic_map s) m = Some i \<longrightarrow> n = m) \<and>
    (\<forall>n i t. map_of (topic_map s) n = Some i \<longrightarrow> map_of (topics s) i = Some t \<longrightarrow> t_name t = n) \<and>
    (\<forall>i \<in> hm_keys (topic_sub_map s). i < c_topic_idx (counters s)) \<and>
    (\<forall>i \<in> hm_keys (pub_count s). i < c_topic_idx (counters s))"

text \<open>The stores of the subscriptions hold each topic once, with an index below the counter.\<close>

definition stores_ok :: "topic_idx \<Rightarrow> (sub_idx, 'v stored_sub_value) hmap \<Rightarrow> bool" where
  "stores_ok bound sv \<longleftrightarrow>
    (\<forall>j st. map_of sv j = Some st \<longrightarrow>
       distinct (stored_keys st) \<and> (\<forall>t \<in> set (stored_keys st). t < bound))"

lemma stores_ok_insert:
  "stores_ok b sv \<Longrightarrow> distinct (stored_keys st) \<Longrightarrow> \<forall>t \<in> set (stored_keys st). t < b \<Longrightarrow>
    stores_ok b (hm_insert j st sv)"
  by (simp add: stores_ok_def)

lemma stores_ok_remove: "stores_ok b sv \<Longrightarrow> stores_ok b (hm_remove j sv)"
  by (simp add: stores_ok_def)

lemma stores_ok_mono: "stores_ok b sv \<Longrightarrow> b \<le> c \<Longrightarrow> stores_ok c sv"
  unfolding stores_ok_def by (meson order.strict_trans2)

lemma stored_keys_add: "set (stored_keys (add_value t v st)) = insert t (set (stored_keys st))"
  by (cases st) (auto simp: dom_update split: option.splits)

text \<open>
  Every subscription in a list has a store for its values, and every subscription has a store
  and a time.
\<close>

definition subs_inv :: "('v, 't) server \<Rightarrow> bool" where
  "subs_inv s \<longleftrightarrow>
    (\<forall>i subs. map_of (topic_sub_map s) i = Some subs \<longrightarrow> set subs \<subseteq> hm_keys (sub_values s)) \<and>
    hm_keys (subscriptions s) = hm_keys (sub_values s) \<and>
    hm_keys (sub_send_timestamps s) = hm_keys (sub_values s) \<and>
    stores_ok (c_topic_idx (counters s)) (sub_values s)"

definition server_inv :: "('v, 't) server \<Rightarrow> bool" where
  "server_inv s \<longleftrightarrow> wf_maps s \<and> registry_inv s \<and> subs_inv s"

lemmas inv_defs = server_inv_def wf_maps_def registry_inv_def subs_inv_def

lemma server_invD:
  assumes "server_inv s"
  shows inv_topic_listed: "map_of (topics s) i = Some t \<Longrightarrow> i \<in> hm_keys (topic_sub_map s)"
    and inv_name_listed: "map_of (topic_map s) n = Some i \<Longrightarrow> i \<in> hm_keys (topic_sub_map s)"
    and inv_name_inj: "map_of (topic_map s) n = Some i \<Longrightarrow> map_of (topic_map s) m = Some i \<Longrightarrow> n = m"
    and inv_name_of: "map_of (topic_map s) n = Some i \<Longrightarrow> map_of (topics s) i = Some t \<Longrightarrow> t_name t = n"
    and inv_listed_bound: "i \<in> hm_keys (topic_sub_map s) \<Longrightarrow> i < c_topic_idx (counters s)"
    and inv_count_bound: "i \<in> hm_keys (pub_count s) \<Longrightarrow> i < c_topic_idx (counters s)"
    and inv_sub_stored: "map_of (topic_sub_map s) i = Some subs \<Longrightarrow> j \<in> set subs \<Longrightarrow> j \<in> hm_keys (sub_values s)"
    and inv_subs_stored: "j \<in> hm_keys (subscriptions s) \<longleftrightarrow> j \<in> hm_keys (sub_values s)"
    and inv_subs_timed: "j \<in> hm_keys (sub_send_timestamps s) \<longleftrightarrow> j \<in> hm_keys (sub_values s)"
    and inv_stores: "stores_ok (c_topic_idx (counters s)) (sub_values s)"
proof -
  from assms have reg: "registry_inv s" and subs: "subs_inv s"
    by (simp_all add: server_inv_def)
  show "map_of (topics s) i = Some t \<Longrightarrow> i \<in> hm_keys (topic_sub_map s)"
    using reg unfolding registry_inv_def by blast
  show "map_of (topic_map s) n = Some i \<Longrightarrow> i \<in> hm_keys (topic_sub_map s)"
    using reg unfolding registry_inv_def by blast
  show "map_of (topic_map s) n = Some i \<Longrightarrow> map_of (topic_map s) m = Some i \<Longrightarrow> n = m"
    using reg unfolding registry_inv_def by blast
  show "map_of (topic_map s) n = Some i \<Longrightarrow> map_of (topics s) i = Some t \<Longrightarrow> t_name t = n"
    using reg unfolding registry_inv_def by blast
  show "i \<in> hm_keys (topic_sub_map s) \<Longrightarrow> i < c_topic_idx (counters s)"
    using reg unfolding registry_inv_def by blast
  show "i \<in> hm_keys (pub_count s) \<Longrightarrow> i < c_topic_idx (counters s)"
    using reg unfolding registry_inv_def by blast
  show "map_of (topic_sub_map s) i = Some subs \<Longrightarrow> j \<in> set subs \<Longrightarrow> j \<in> hm_keys (sub_values s)"
    using subs unfolding subs_inv_def by blast
  show "j \<in> hm_keys (subscriptions s) \<longleftrightarrow> j \<in> hm_keys (sub_values s)"
    using subs unfolding subs_inv_def by simp
  show "j \<in> hm_keys (sub_send_timestamps s) \<longleftrightarrow> j \<in> hm_keys (sub_values s)"
    using subs unfolding subs_inv_def by simp
  show "stores_ok (c_topic_idx (counters s)) (sub_values s)"
    using subs unfolding subs_inv_def by simp
qed

named_theorems frame_simps \<open>the invariant does not look at these fields\<close>

lemma server_inv_frames [frame_simps]:
  "server_inv (s\<lparr>channels := a\<rparr>) = server_inv s"
  "server_inv (s\<lparr>kill_cells := b\<rparr>) = server_inv s"
  "server_inv (s\<lparr>callbacks := c\<rparr>) = server_inv s"
  "server_inv (s\<lparr>next_ref := d\<rparr>) = server_inv s"
  by (simp_all add: inv_defs)

text \<open>The maps no other map refers to: storing and removing under a key keeps the invariant.\<close>

lemma server_inv_loose [frame_simps]:
  "server_inv s \<Longrightarrow> server_inv (s\<lparr>clients := hm_insert ci cl (clients s)\<rparr>)"
  "server_inv s \<Longrightarrow> server_inv (s\<lparr>clients := hm_remove ci (clients s)\<rparr>)"
  "server_inv s \<Longrightarrow> server_inv (s\<lparr>client_map := hm_insert ident ci (client_map s)\<rparr>)"
  "server_inv s \<Longrightarrow> server_inv (s\<lparr>client_map := hm_remove ident (client_map s)\<rparr>)"
  "server_inv s \<Longrightarrow> server_inv (s\<lparr>client_metatopic_map := hm_insert ci p (client_metatopic_map s)\<rparr>)"
  "server_inv s \<Longrightarrow> server_inv (s\<lparr>client_metatopic_map := hm_remove ci (client_metatopic_map s)\<rparr>)"
  "server_inv s \<Longrightarrow> server_inv (s\<lparr>metatopic_value_map := entry_merge i mv mw (metatopic_value_map s)\<rparr>)"
  "server_inv s \<Longrightarrow> server_inv (s\<lparr>metatopic_value_map := entry_reduce i mv mw (metatopic_value_map s)\<rparr>)"
  "server_inv s \<Longrightarrow> server_inv (s\<lparr>topic_value_map := hm_insert i tv (topic_value_map s)\<rparr>)"
  "server_inv s \<Longrightarrow> server_inv (s\<lparr>pub_count := hm_remove i (pub_count s)\<rparr>)"
  by (simp_all add: inv_defs entry_merge_def entry_reduce_def distinct_update distinct_delete)

lemma server_inv_pub_count [frame_simps]:
  assumes "server_inv s" and "map_of (pub_count s) i = Some old"
  shows "server_inv (s\<lparr>pub_count := hm_insert i new (pub_count s)\<rparr>)"
  using assms by (auto simp: inv_defs distinct_update)

lemma server_inv_counters:
  assumes "server_inv s" and "c_topic_idx (counters s) \<le> c_topic_idx c"
  shows "server_inv (s\<lparr>counters := c\<rparr>)"
proof -
  have "i < c_topic_idx c" if "i \<in> hm_keys (topic_sub_map s) \<or> i \<in> hm_keys (pub_count s)" for i
    using that assms(2) inv_listed_bound [OF assms(1)] inv_count_bound [OF assms(1)]
    by (meson order.strict_trans2)
  with assms(1) stores_ok_mono [OF inv_stores [OF assms(1)] assms(2)] show ?thesis
    by (simp add: inv_defs)
qed

section \<open>What sends and announcements leave alone\<close>

text \<open>
  A predicate that does not notice a client being updated or a message being sent. Sending,
  announcing and taking announcements back keep every such predicate: the invariant is one, and
  so is any statement about the other fields.
\<close>

locale client_insensitive =
  fixes I :: "('v, 't) server \<Rightarrow> bool"
  assumes upd_client: "I s \<Longrightarrow> map_of (clients s) ci = Some old \<Longrightarrow> cc_sub_ouput cl = cc_sub_ouput old \<Longrightarrow>
      I (s\<lparr>clients := hm_insert ci cl (clients s)\<rparr>)"
    and upd_channels: "I s \<Longrightarrow> I (s\<lparr>channels := d\<rparr>)"
begin

lemma frame_inv: "same_but_channels s t \<Longrightarrow> I s \<Longrightarrow> I t"
  by (auto simp: same_but_channels_def upd_channels)

lemma keeps_frame: "(\<And>s. same_but_channels s (snd (m s))) \<Longrightarrow> keeps I m"
  by (rule tripleI) (metis frame_inv)

lemma keeps_sends:
  "keeps I (send_nt_messages E cl ms)" "keeps I (send_binary cl b)" "keeps I (flush cl)"
  by (rule keeps_frame, rule send_nt_messages_frame send_binary_frame flush_frame)+

lemma keeps_announce_reply: "keeps I (announce_reply E i m ci)"
proof (rule tripleI)
  fix t
  assume t: "I t"
  show "I (snd (announce_reply E i m ci t))"
  proof (cases "map_of (clients t) ci")
    case (Some cl)
    obtain r u where run: "send_nt_messages E cl [Announce m] t = (r, u)" by fastforce
    with send_nt_messages_frame [of t E cl "[Announce m]"] have frame: "same_but_channels t u"
      by simp
    then have "map_of (clients u) ci = Some cl"
      using Some by (auto simp: same_but_channels_def)
    with frame_inv [OF frame t] have
      "I (u\<lparr>clients := hm_insert ci (cl\<lparr>cc_announced_topics := insert i (cc_announced_topics cl)\<rparr>) (clients u)\<rparr>)"
      by (rule upd_client) simp
    with frame_inv [OF frame t] t Some run show ?thesis
      by (cases r) (simp_all add: announce_reply_def try_bind_def act_simps)
  qed (simp add: announce_reply_def t)
qed

lemma keeps_send_after_update:
  "I t \<Longrightarrow> map_of (clients t) ci = Some old \<Longrightarrow> cc_sub_ouput cl' = cc_sub_ouput old \<Longrightarrow>
    I (snd (send_nt_messages E cl ms (t\<lparr>clients := hm_insert ci cl' (clients t)\<rparr>)))"
  using keeps_sends(1) [of E cl ms] upd_client by (simp add: triple_def)

lemma keeps_announce_to: "keeps I (announce_to E i ms ci)"
  by (rule tripleI) (auto simp: announce_to_def Let_def keeps_send_after_update split: option.splits)

lemma keeps_un_announce_to: "keeps I (un_announce_to E i ms ci)"
  by (rule tripleI) (auto simp: un_announce_to_def Let_def keeps_send_after_update split: option.splits)

lemma keeps_announce_topic: "keeps I (announce_topic E i r)"
proof (rule tripleI)
  fix t
  assume t: "I t"
  show "I (snd (announce_topic E i r t))"
  proof (cases "map_of (topics t) i")
    case (Some topic)
    let ?m = "\<lparr>an_name = t_name topic, an_id = i, an_type = t_type topic, an_pubuid = None,
        an_properties = unwrap_or publish_properties_default (t_properties topic)\<rparr>"
    have reply: "keeps I (case r of None \<Rightarrow> ret ()
        | Some (p, ci) \<Rightarrow> announce_reply E i (?m\<lparr>an_pubuid := Some p\<rparr>) ci)"
      by (cases r) (auto intro: keeps_intros keeps_announce_reply)
    have "keeps I (try_bind (case r of None \<Rightarrow> ret ()
        | Some (p, ci) \<Rightarrow> announce_reply E i (?m\<lparr>an_pubuid := Some p\<rparr>) ci)
        (\<lambda>_. try_bind (gets (\<lambda>u. clients_to_notify u (t_name topic)))
           (for_each (announce_to E i [Announce ?m]))))"
      by (intro keeps_intros keeps_announce_to reply)
    with t Some show ?thesis by (simp add: announce_topic_def triple_def Let_def)
  qed (simp add: announce_topic_def t)
qed

lemma keeps_un_announce_topics: "keeps I (un_announce_topics E n i)"
proof (rule tripleI)
  fix t
  assume "I t"
  have "keeps I (for_each (un_announce_to E i [UnAnnounce \<lparr>ua_name = n, ua_id = i\<rparr>])
      (map fst (clients t)))"
    by (intro keeps_intros keeps_un_announce_to)
  with \<open>I t\<close> show "I (snd (un_announce_topics E n i t))"
    by (simp add: un_announce_topics_def triple_def)
qed

lemma keeps_announce_all: "keeps I (announce_all_topics_for E si)"
  by (rule tripleI)
    (auto simp: announce_all_topics_for_def Let_def keeps_send_after_update split: option.splits)

lemma keeps_flush_all: "keeps I flush_all"
proof (rule tripleI)
  fix t
  assume "I t"
  have "keeps I (for_each flush (map snd (clients t)))"
    by (intro keeps_intros keeps_sends)
  with \<open>I t\<close> show "I (snd (flush_all t))" by (simp add: flush_all_def triple_def)
qed

lemma keeps_flush_client: "keeps I (flush_client ci)"
proof (rule tripleI)
  fix t
  assume "I t"
  then show "I (snd (flush_client ci t))"
    using keeps_sends(3) by (auto simp: flush_client_def triple_def split: option.splits)
qed

end

interpretation inv: client_insensitive server_inv
  by unfold_locales (simp_all add: frame_simps)

text \<open>All fields but the clients and the channels.\<close>

definition core :: "('v, 't) server \<Rightarrow> ('v, 't) server" where
  "core s = s\<lparr>clients := [], channels := (\<lambda>_. \<lparr>ch_queue = [], ch_rx_open = False, ch_tx_open = False\<rparr>)\<rparr>"

lemma core_fields:
  assumes "core s = core t"
  shows "topics s = topics t" "topic_map s = topic_map t" "pub_count s = pub_count t"
    "topic_value_map s = topic_value_map t" "metatopic_value_map s = metatopic_value_map t"
    "client_map s = client_map t" "client_metatopic_map s = client_metatopic_map t"
    "subscriptions s = subscriptions t" "topic_sub_map s = topic_sub_map t"
    "sub_send_timestamps s = sub_send_timestamps t" "sub_values s = sub_values t"
    "counters s = counters t" "kill_cells s = kill_cells t"
  using assms unfolding core_def by (cases s; cases t; simp)+

interpretation core: client_insensitive "\<lambda>s. core s = x" for x
  by unfold_locales (simp_all add: core_def)

lemma announce_topic_core: "core (snd (announce_topic E i r s)) = core s"
  using core.keeps_announce_topic [of "core s" E i r] by (simp add: triple_def)

end
