(* ===== verification/Server_Preserves.thy ===== *)
theory Server_Preserves
  imports Server_Invariant
begin

text \<open>
  Every request of the server keeps the invariant \<open>server_inv\<close>, whatever it returns.
\<close>

section \<open>Topics\<close>

definition fresh_topic :: "topic_idx \<Rightarrow> string \<Rightarrow> ('v, 't) server \<Rightarrow> bool" where
  "fresh_topic i n s \<longleftrightarrow>
    map_of (topic_map s) n = None \<and> i < c_topic_idx (counters s) \<and>
    i \<notin> hm_keys (topic_sub_map s)"

lemma next_topic_idx_inv:
  assumes "server_inv s" and "on_counters next_topic_idx s = (r, s')"
  shows "server_inv s' \<and> (\<forall>i n. r = Ok i \<longrightarrow> map_of (topic_map s) n = None \<longrightarrow> fresh_topic i n s')"
proof (cases "checked_add (c_topic_idx (counters s)) 1")
  case None
  with assms show ?thesis
    by (auto simp: on_counters_def zoom_def next_topic_idx_def)
next
  case (Some k)
  then have less: "c_topic_idx (counters s) < k" by (rule checked_add_less)
  from assms(2) Some have r: "r = Ok (c_topic_idx (counters s))"
    and s': "s' = s\<lparr>counters := (counters s)\<lparr>c_topic_idx := k\<rparr>\<rparr>"
    by (auto simp: on_counters_def zoom_def next_topic_idx_def)
  from assms(1) less have "server_inv s'"
    unfolding s' by (intro server_inv_counters) simp_all
  moreover have "c_topic_idx (counters s) \<notin> hm_keys (topic_sub_map s)"
    using inv_listed_bound [OF assms(1)] by blast
  ultimately show ?thesis
    using r s' less by (simp add: fresh_topic_def)
qed

lemma register_topic_inv:
  assumes "server_inv s" and "fresh_topic i (t_name t) s"
  shows "server_inv (register_topic i t s)"
proof -
  from assms have "wf_maps (register_topic i t s)"
    by (simp add: inv_defs register_topic_def distinct_update)
  moreover from assms have "subs_inv (register_topic i t s)"
    by (auto simp: inv_defs register_topic_def)
  moreover have "registry_inv (register_topic i t s)"
  proof -
    from assms have new: "map_of (topic_map s) (t_name t) = None" "i \<notin> hm_keys (topic_sub_map s)"
      and i: "i < c_topic_idx (counters s)" and reg: "registry_inv s"
      by (simp_all add: fresh_topic_def server_inv_def)
    from reg new have unmapped: "map_of (topic_map s) n \<noteq> Some i" for n
      by (auto simp: registry_inv_def ran_def)
    show ?thesis
      using reg new i unmapped
      by (auto simp: registry_inv_def register_topic_def ran_def split: if_splits)
  qed
  ultimately show ?thesis by (simp add: server_inv_def)
qed

lemma add_topic_known:
  "map_of (topic_map s) (t_name t) = Some i \<Longrightarrow> add_topic E t s = (Ok i, s)"
  by (subst add_topic.simps) simp

text \<open>
  A predicate that also stays true when a new name is registered, under the next index. Adding a
  topic keeps it.
\<close>

locale registry_insensitive = client_insensitive I
  for I :: "('v, 't) server \<Rightarrow> bool" +
  assumes next_topic: "I s \<Longrightarrow> on_counters next_topic_idx s = (r, s') \<Longrightarrow> I s'"
    and register: "I s \<Longrightarrow> map_of (topic_map s) (t_name t) = None \<Longrightarrow>
      on_counters next_topic_idx s = (Ok i, s') \<Longrightarrow> I (register_topic i t s')"
begin

lemma on_new_topic:
  assumes "I s" and "map_of (topic_map s) (t_name t) = None" and "\<And>i. keeps I (rest i)"
  shows "I (snd (try_bind (on_counters next_topic_idx) (\<lambda>i.
    try_bind (modify (register_topic i t)) (\<lambda>_. rest i)) s))"
proof -
  obtain r s' where run: "on_counters next_topic_idx s = (r, s')" by fastforce
  note next_topic [OF assms(1) run]
  moreover have "I (snd (rest i (register_topic i t s')))" if "r = Ok i" for i
    using keepsD [OF assms(3) register [OF assms(1,2) run [unfolded that]]] .
  ultimately show ?thesis
    using run by (cases r) (simp_all add: try_bind_def act_simps)
qed

lemma keeps_adding_meta:
  assumes "CHR ''$'' \<in> set (t_name t)"
  shows "keeps I (add_topic E t)"
proof (rule tripleI)
  fix s
  assume s: "I s"
  show "I (snd (add_topic E t s))"
  proof (cases "map_of (topic_map s) (t_name t)")
    case None
    from on_new_topic [OF s None keeps_basic(1)] None assms show ?thesis
      by (subst add_topic.simps) simp
  qed (simp add: s add_topic_known)
qed

lemma keeps_adding_topic: "keeps I (add_topic E t)"
proof (cases "CHR ''$'' \<in> set (t_name t)")
  case False
  show ?thesis
  proof (rule tripleI)
    fix s
    assume s: "I s"
    show "I (snd (add_topic E t s))"
    proof (cases "map_of (topic_map s) (t_name t)")
      case None
      have "keeps I
          (try_bind (add_topic E (new_meta (''$pub$'' @ t_name t))) (\<lambda>meta_pub.
           try_bind (announce_topic E meta_pub None) (\<lambda>_.
           try_bind (add_topic E (new_meta (''$sub$'' @ t_name t))) (\<lambda>meta_sub.
           try_bind (announce_topic E meta_sub None) (\<lambda>_. ret i)))))" for i
        by (intro keeps_intros keeps_adding_meta keeps_announce_topic) simp_all
      from on_new_topic [OF s None this] None False show ?thesis
        by (subst add_topic.simps) simp
    qed (simp add: s add_topic_known)
  qed
qed (rule keeps_adding_meta)

end

interpretation inv: registry_insensitive server_inv
proof unfold_locales
  fix s :: "('v, 't) server" and r s'
  assume "server_inv s" and "on_counters next_topic_idx s = (r, s')"
  then show "server_inv s'" using next_topic_idx_inv by blast
next
  fix s s' :: "('v, 't) server" and t :: "string topic" and i
  assume s: "server_inv s" "map_of (topic_map s) (t_name t) = None"
    and run: "on_counters next_topic_idx s = (Ok i, s')"
  from next_topic_idx_inv [OF s(1) run] s(2) show "server_inv (register_topic i t s')"
    by (simp add: register_topic_inv)
qed

text \<open>
  Removing: a name that still leads to one of the three indices that go would be the name of
  the topic or of one of its metatopics, and those names are gone.
\<close>

lemma remove_topic_entry_inv:
  assumes "server_inv s"
  shows "server_inv (s\<lparr>topics := hm_remove i (topics s)\<rparr>)"
    "server_inv (s\<lparr>topic_map := hm_remove n (topic_map s)\<rparr>)"
  using assms by (auto simp: inv_defs distinct_delete split: if_splits)

lemma remove_listed_inv:
  assumes "server_inv s" and "\<forall>n. map_of (topic_map s) n \<noteq> Some i" and "map_of (topics s) i = None"
  shows "server_inv (s\<lparr>topic_sub_map := hm_remove i (topic_sub_map s)\<rparr>)"
  using assms by (auto simp: inv_defs distinct_delete split: if_splits)

lemma remove_values_inv:
  assumes "server_inv s"
  shows "server_inv (s\<lparr>topic_value_map := hm_remove i (topic_value_map s)\<rparr>)"
    "server_inv (s\<lparr>metatopic_value_map := hm_remove i (metatopic_value_map s)\<rparr>)"
  using assms by (simp_all add: inv_defs distinct_delete)

lemma remove_topics_inv: "server_inv s \<Longrightarrow> server_inv (s\<lparr>topics := fold hm_remove is (topics s)\<rparr>)"
proof (induction "is" arbitrary: s)
  case (Cons i "is")
  from Cons.IH [OF remove_topic_entry_inv(1) [OF Cons.prems, of i]] show ?case by simp
qed simp

lemma remove_names_inv: "server_inv s \<Longrightarrow> server_inv (s\<lparr>topic_map := fold hm_remove ns (topic_map s)\<rparr>)"
proof (induction ns arbitrary: s)
  case (Cons n ns)
  from Cons.IH [OF remove_topic_entry_inv(2) [OF Cons.prems, of n]] show ?case by simp
qed simp

lemma remove_lists_inv:
  assumes "server_inv s"
    and "\<And>i. i \<in> set is \<Longrightarrow> map_of (topics s) i = None \<and> (\<forall>n. map_of (topic_map s) n \<noteq> Some i)"
  shows "server_inv (s\<lparr>topic_sub_map := fold hm_remove is (topic_sub_map s)\<rparr>)"
  using assms
proof (induction "is" arbitrary: s)
  case (Cons i "is")
  from Cons.prems(2) [of i] have "server_inv (s\<lparr>topic_sub_map := hm_remove i (topic_sub_map s)\<rparr>)"
    by (intro remove_listed_inv Cons.prems(1)) simp_all
  from Cons.IH [OF this] Cons.prems(2) show ?case by simp
qed simp

lemma remove_topic_inv:
  assumes s: "server_inv s"
  shows "server_inv (snd (remove_topic idx s))"
proof (cases "map_of (topics s) idx")
  case None
  with s show ?thesis by (simp add: remove_topic_def)
next
  case topic: (Some topic)
  let ?mp = "''$pub$'' @ t_name topic" and ?ms = "''$sub$'' @ t_name topic"
  have s1: "server_inv (s\<lparr>topics := hm_remove idx (topics s)\<rparr>)"
    by (rule remove_topic_entry_inv(1) [OF s])
  show ?thesis
  proof (cases "map_of (topic_map s) ?mp")
    case None
    with topic s1 show ?thesis by (simp add: remove_topic_def)
  next
    case mp: (Some mp)
    show ?thesis
    proof (cases "map_of (topic_map s) ?ms")
      case None
      with topic mp remove_topic_entry_inv(2) [OF s1, of ?mp] show ?thesis
        by (simp add: remove_topic_def)
    next
      case ms: (Some ms)
      let ?T = "fold hm_remove [idx, mp, ms] (topics s)"
      let ?N = "fold hm_remove [?mp, ?ms, t_name topic] (topic_map s)"
      have "server_inv (s\<lparr>topic_map := ?N, topics := ?T\<rparr>)"
        using remove_topics_inv [OF remove_names_inv [OF s, of "[?mp, ?ms, t_name topic]"],
          of "[idx, mp, ms]"] by simp
      moreover have "map_of ?T i = None \<and> (\<forall>n. map_of ?N n \<noteq> Some i)" if "i \<in> {idx, mp, ms}" for i
        using that inv_name_of [OF s _ topic] inv_name_inj [OF s _ mp] inv_name_inj [OF s _ ms]
        by auto
      ultimately have "server_inv (s\<lparr>topic_map := ?N, topics := ?T,
          topic_sub_map := fold hm_remove [idx, mp, ms] (topic_sub_map s)\<rparr>)"
        using remove_lists_inv [of "s\<lparr>topic_map := ?N, topics := ?T\<rparr>" "[idx, mp, ms]"] by simp
      from remove_values_inv(2) [OF remove_values_inv(2) [OF remove_values_inv(1) [OF this, of idx], of mp], of ms]
      show ?thesis
        using topic mp ms by (simp add: remove_topic_def Let_def)
    qed
  qed
qed

lemma remove_topic_no_panic [simp]: "\<not> is_panic (fst (remove_topic idx s))"
  by (auto simp: remove_topic_def Let_def split: option.splits)

interpretation remove_topic: safe_action server_inv "remove_topic idx" for idx
  by unfold_locales (simp_all add: remove_topic_inv)

section \<open>Clients\<close>

lemma drop_publisher_inv: "server_inv s \<Longrightarrow> server_inv (snd (drop_publisher i s))"
  by (auto simp: drop_publisher_def Let_def frame_simps remove_topic_inv split: option.splits)

lemma drop_client_inv: "server_inv s \<Longrightarrow> server_inv (drop_client idx cl s)"
  unfolding drop_client_def
  using server_inv_loose(2) [of s idx] by (auto simp: inv_defs split: option.splits)

text \<open>The last part of \<open>disconnect_client\<close>: the metatopics of the client.\<close>

definition forget_client :: "client_idx \<Rightarrow> ('v, 't, unit) server_act" where
  "forget_client idx s2 =
    (let s3 = s2\<lparr>client_metatopic_map := hm_remove idx (client_metatopic_map s2)\<rparr>
     in case map_of (client_metatopic_map s2) idx of
          None \<Rightarrow> (Ok (), s3)
        | Some (p, q) \<Rightarrow> try_bind (remove_topic p) (\<lambda>_. remove_topic q) s3)"

lemma forget_client_inv:
  fixes s :: "('v, 't) server"
  assumes "server_inv s"
  shows "server_inv (snd (forget_client idx s))"
proof -
  have "keeps server_inv (try_bind (remove_topic p) (\<lambda>_. remove_topic q :: ('v, 't, unit) server_act))" for p q
    by (intro keeps_intros remove_topic.keeps)
  with assms show ?thesis
    by (auto simp: forget_client_def Let_def frame_simps keepsD split: option.split)
qed

lemma keeps_disconnect_client: "keeps server_inv (disconnect_client ident :: ('v, 't, unit) server_act)"
proof (rule tripleI)
  fix s :: "('v, 't) server"
  assume s: "server_inv s"
  have "keeps server_inv (try_bind (for_each drop_publisher is) (\<lambda>_. forget_client idx :: ('v, 't, unit) server_act))"
    for "is" idx
    by (intro keeps_intros tripleI drop_publisher_inv forget_client_inv)
  then show "server_inv (snd (disconnect_client ident s))"
    using s by (auto simp: disconnect_client_def Let_def keepsD forget_client_def [abs_def] drop_client_inv
        frame_simps split: option.split)
qed

lemma admit_client_inv: "server_inv s \<Longrightarrow> server_inv (admit_client ident idx s)"
  by (simp add: admit_client_def Let_def inv_defs entry_merge_def distinct_update)

lemma keeps_next_client_idx: "keeps server_inv (on_counters next_client_idx)"
  by (rule tripleI)
    (auto simp: on_counters_def zoom_def next_client_idx_def intro: server_inv_counters split: option.splits)

lemma keeps_connect_client:
  fixes E :: "('v, 't, 'm, string) ext"
  shows "keeps server_inv (connect_client E ident)"
proof (rule tripleI)
  fix s :: "('v, 't) server"
  assume s: "server_inv s"
  show "server_inv (snd (connect_client E ident s))"
  proof (cases "is_client_connected ident s")
    case False
    have "server_inv (s\<lparr>callbacks := callbacks s @ [OnClientConnect]\<rparr>)"
      using s by (simp add: frame_simps)
    then show ?thesis
      unfolding connect_client_def if_not_P [OF False] Let_def
      by (rule keepsD [rotated])
        (intro keeps_intros keeps_next_client_idx admit_client_inv inv.keeps_adding_topic server_inv_loose(5))
  qed (simp add: connect_client_def s)
qed

section \<open>Publishing\<close>

lemma bind_pubuid_inv: "server_inv s \<Longrightarrow> server_inv (snd (bind_pubuid ci p i s))"
  by (auto simp: bind_pubuid_def frame_simps split: option.splits)

lemma unbind_pubuid_inv: "server_inv s \<Longrightarrow> server_inv (snd (unbind_pubuid ci p s))"
  by (auto simp: unbind_pubuid_def frame_simps split: option.splits prod.splits)

lemma record_publisher_inv: "server_inv s \<Longrightarrow> server_inv (snd (record_publisher ci m s))"
  by (auto simp: record_publisher_def frame_simps split: option.splits)

lemma erase_publisher_inv: "server_inv s \<Longrightarrow> server_inv (snd (erase_publisher ci m s))"
  by (auto simp: erase_publisher_def frame_simps split: option.splits)

lemma release_publisher_inv:
  fixes s :: "('v, 't) server"
  assumes "server_inv s"
  shows "server_inv (snd (release_publisher i s))"
proof -
  have "keeps server_inv (try_bind (remove_topic i)
      (\<lambda>_. modify (\<lambda>s :: ('v, 't) server. s\<lparr>pub_count := hm_remove i (pub_count s)\<rparr>)))"
    by (intro keeps_intros remove_topic.keeps server_inv_loose(10))
  with assms show ?thesis
    by (auto simp: release_publisher_def Let_def frame_simps triple_def split: option.splits)
qed

lemma keeps_inner_publish_topic: "keeps server_inv (inner_publish_topic E p ci)"
  unfolding inner_publish_topic_def Let_def
  by (intro keeps_intros inv.keeps_adding_topic inv.keeps_announce_topic tripleI bind_pubuid_inv record_publisher_inv)

lemma keeps_inner_unpublish_topic: "keeps server_inv (inner_unpublish_topic p ci)"
  unfolding inner_unpublish_topic_def
  by (intro keeps_intros tripleI unbind_pubuid_inv release_publisher_inv erase_publisher_inv)

end
