(* ===== verification/Server_Safety.thy ===== *)
theory Server_Safety
  imports Server_Preserves
begin

text \<open>
  Subscriptions and values keep the invariant, and under it none of the lookups the code follows
  with \<open>unwrap\<close> fails. Then the runs of the server: any sequence of requests from a new server.
\<close>

section \<open>Subscriptions\<close>

text \<open>
  Inside \<open>subscribe\<close> the lists already name the subscription that has no store yet: the
  invariant holds but for that one index.
\<close>

definition inv_but :: "sub_idx \<Rightarrow> ('v, 't) server \<Rightarrow> bool" where
  "inv_but j s \<longleftrightarrow> wf_maps s \<and> registry_inv s \<and>
    (\<forall>i subs. map_of (topic_sub_map s) i = Some subs \<longrightarrow> set subs \<subseteq> insert j (hm_keys (sub_values s))) \<and>
    hm_keys (subscriptions s) = hm_keys (sub_values s) \<and>
    hm_keys (sub_send_timestamps s) = hm_keys (sub_values s) \<and>
    stores_ok (c_topic_idx (counters s)) (sub_values s)"

lemma server_inv_but: "server_inv s \<Longrightarrow> inv_but j s"
  unfolding server_inv_def subs_inv_def inv_but_def by blast

lemma inv_but_listed:
  assumes "inv_but j s" and "map_of (topic_sub_map s) i = Some vec"
  shows "inv_but j (s\<lparr>topic_sub_map := hm_insert i (vec @ [j]) (topic_sub_map s)\<rparr>)"
proof -
  let ?s = "s\<lparr>topic_sub_map := hm_insert i (vec @ [j]) (topic_sub_map s)\<rparr>"
  have keys: "hm_keys (topic_sub_map ?s) = hm_keys (topic_sub_map s)"
    using assms(2) by auto
  from assms have "wf_maps ?s" by (simp add: inv_but_def wf_maps_def distinct_update)
  moreover from assms keys have "registry_inv ?s"
    unfolding inv_but_def registry_inv_def by simp
  moreover from assms have "\<forall>k subs. map_of (topic_sub_map ?s) k = Some subs \<longrightarrow>
      set subs \<subseteq> insert j (hm_keys (sub_values ?s))"
    unfolding inv_but_def by (auto split: if_splits)
  ultimately show ?thesis
    using assms(1) by (simp add: inv_but_def)
qed

text \<open>With every interested topic listed the loop ends with \<open>Ok\<close>, and it changes only the lists.\<close>

lemma subscribe_topics_run:
  assumes "inv_but j s" and "\<forall>(n, i) \<in> set ts. i \<in> hm_keys (topic_sub_map s)"
  shows "\<exists>ms vs tsm. subscribe_topics E j ts ms0 vs0 s = (Ok (ms, vs), s\<lparr>topic_sub_map := tsm\<rparr>) \<and>
    inv_but j (s\<lparr>topic_sub_map := tsm\<rparr>)"
  using assms
proof (induction ts arbitrary: s ms0 vs0)
  case Nil
  show ?case
    by (rule exI [of _ ms0], rule exI [of _ vs0], rule exI [of _ "topic_sub_map s"])
      (simp add: Nil.prems(1))
next
  case (Cons p ts)
  obtain n i where p: "p = (n, i)" by fastforce
  from Cons.prems(2) p obtain vec where vec: "map_of (topic_sub_map s) i = Some vec" by auto
  let ?s = "s\<lparr>topic_sub_map := hm_insert i (vec @ [j]) (topic_sub_map s)\<rparr>"
  have inv: "inv_but j ?s" by (rule inv_but_listed [OF Cons.prems(1) vec])
  have listed: "\<forall>(n, i) \<in> set ts. i \<in> hm_keys (topic_sub_map ?s)"
    using Cons.prems(2) by auto
  show ?case
  proof (cases "announced_type E n i ?s")
    case None
    from Cons.IH [OF inv listed, of ms0 vs0] show ?thesis
      by (simp add: p vec None Let_def)
  next
    case (Some ty)
    from Cons.IH [OF inv listed, of "ms0 @ [announce_msg_for n i ty ?s]"
        "vs0 @ current_value_bytes E i ?s"]
    show ?thesis by (simp add: p vec Some Let_def)
  qed
qed

lemma store_subscription_inv:
  assumes "inv_but j s"
  shows "server_inv (store_subscription now j sub ci cl s)"
proof -
  from assms have "wf_maps (store_subscription now j sub ci cl s)"
    by (simp add: inv_but_def wf_maps_def store_subscription_def distinct_update)
  moreover from assms have "registry_inv (store_subscription now j sub ci cl s)"
    unfolding inv_but_def registry_inv_def store_subscription_def by simp
  moreover from assms have "subs_inv (store_subscription now j sub ci cl s)"
    by (auto simp: inv_but_def subs_inv_def store_subscription_def new_all_def new_one_def
        intro: stores_ok_insert)
  ultimately show ?thesis by (simp add: server_inv_def)
qed

lemma next_sub_idx_inv:
  assumes "server_inv s" and "on_counters next_sub_idx s = (r, t)"
  shows "server_inv t \<and> topic_map t = topic_map s \<and> topic_sub_map t = topic_sub_map s"
  using assms
  by (auto simp: on_counters_def zoom_def next_sub_idx_def intro: server_inv_counters split: option.splits)

lemma subscribe_inv:
  fixes E :: "('v, 't, 'm, string) ext" and s :: "('v, 't) server"
  assumes s: "server_inv s"
  shows "server_inv (snd (subscribe E now sub ci s))"
proof (cases "map_of (clients s) ci")
  case None
  with s show ?thesis by (simp add: subscribe_def)
next
  case (Some cl)
  let ?sub = "\<lparr>sn_subuid = sb_subuid sub, sn_topics = sb_topics sub, sn_options = sb_options sub\<rparr>"
  obtain r t where nxt: "on_counters next_sub_idx s = (r, t)" by fastforce
  note t = next_sub_idx_inv [OF s nxt]
  show ?thesis
  proof (cases r)
    case (Ok j)
    have "\<forall>(n, i) \<in> set (interested_topics ?sub s). i \<in> hm_keys (topic_sub_map t)"
      using t s inv_name_listed [of t]
      by (auto simp: interested_topics_def server_inv_def wf_maps_def intro: map_of_is_SomeI)
    from subscribe_topics_run [OF server_inv_but [of t j] this, of E "[]" "[]"] t
    obtain ms vs tsm where loop: "subscribe_topics E j (interested_topics ?sub s) [] [] t =
        (Ok (ms, vs), t\<lparr>topic_sub_map := tsm\<rparr>)" and inv: "inv_but j (t\<lparr>topic_sub_map := tsm\<rparr>)"
      by blast
    have "keeps server_inv (try_bind (send_nt_messages E cl ms) (\<lambda>_. send_binary cl vs))"
      by (intro keeps_intros inv.keeps_sends)
    from keepsD [OF this store_subscription_inv [OF inv]] show ?thesis
      by (simp add: subscribe_def Some try_bind_def act_simps nxt Ok loop)
  qed (use t in \<open>simp_all add: subscribe_def Some try_bind_def nxt\<close>)
qed

lemma forget_subscription_inv:
  assumes "server_inv s"
  shows "server_inv (forget_subscription j s)"
proof -
  have wf: "wf_maps (forget_subscription j s)"
    using assms
    by (simp add: inv_defs forget_subscription_def distinct_delete hm_map_values_def comp_def case_prod_beta)
  have keys: "hm_keys (topic_sub_map (forget_subscription j s)) = hm_keys (topic_sub_map s)"
    by (auto simp: forget_subscription_def)
  have reg: "registry_inv (forget_subscription j s)"
  proof -
    have "registry_inv s" using assms by (simp add: server_inv_def)
    with keys show ?thesis
      unfolding registry_inv_def by (simp add: forget_subscription_def)
  qed
  have "subs_inv (forget_subscription j s)"
    unfolding subs_inv_def
  proof (intro conjI allI impI)
    fix i subs
    assume "map_of (topic_sub_map (forget_subscription j s)) i = Some subs"
    then obtain old where old: "map_of (topic_sub_map s) i = Some old"
      and subs: "subs = filter (\<lambda>e. e \<noteq> j) old"
      by (auto simp: forget_subscription_def)
    then show "set subs \<subseteq> hm_keys (sub_values (forget_subscription j s))"
      using inv_sub_stored [OF assms old] by (auto simp: forget_subscription_def)
  qed (use assms in \<open>simp_all add: server_inv_def subs_inv_def forget_subscription_def stores_ok_remove\<close>)
  with wf reg show ?thesis by (simp add: server_inv_def)
qed

lemma unsubscribe_inv: "server_inv s \<Longrightarrow> server_inv (snd (unsubscribe u ci s))"
  by (auto simp: unsubscribe_def frame_simps intro: forget_subscription_inv
      split: option.splits prod.splits)

section \<open>Properties and values\<close>

lemma set_properties_inv:
  assumes "server_inv s"
  shows "server_inv (snd (set_properties m s))"
proof (cases "\<exists>i t. map_of (topic_map s) (sp_name m) = Some i \<and> map_of (topics s) i = Some t")
  case True
  then obtain i t where i: "map_of (topic_map s) (sp_name m) = Some i" and t: "map_of (topics s) i = Some t"
    by blast
  let ?t = "t\<lparr>t_properties := Some (update_properties (sp_update m) (t_properties t))\<rparr>"
  have "registry_inv (s\<lparr>topics := hm_insert i ?t (topics s)\<rparr>)"
    unfolding registry_inv_def
  proof (intro conjI allI impI ballI)
    fix k u
    assume "map_of (topics (s\<lparr>topics := hm_insert i ?t (topics s)\<rparr>)) k = Some u"
    then show "k \<in> hm_keys (topic_sub_map (s\<lparr>topics := hm_insert i ?t (topics s)\<rparr>))"
      using inv_topic_listed [OF assms] t by (auto split: if_splits)
  next
    fix n k u
    assume "map_of (topic_map (s\<lparr>topics := hm_insert i ?t (topics s)\<rparr>)) n = Some k"
      and "map_of (topics (s\<lparr>topics := hm_insert i ?t (topics s)\<rparr>)) k = Some u"
    then show "t_name u = n"
      using inv_name_of [OF assms] t by (auto split: if_splits)
  qed (use inv_name_listed [OF assms] inv_name_inj [OF assms] inv_listed_bound [OF assms]
        inv_count_bound [OF assms] in simp_all)
  then have "server_inv (s\<lparr>topics := hm_insert i ?t (topics s)\<rparr>)"
    using assms by (simp add: server_inv_def wf_maps_def subs_inv_def distinct_update)
  with i t show ?thesis by (simp add: set_properties_def)
qed (use assms in \<open>auto simp: set_properties_def split: option.splits\<close>)

text \<open>What may become of the stores: the same subscriptions, still in order.\<close>

definition stores_grow :: "('v, 't) server \<Rightarrow> (sub_idx, 'v stored_sub_value) hmap \<Rightarrow> bool" where
  "stores_grow s sv \<longleftrightarrow>
    hm_keys sv = hm_keys (sub_values s) \<and>
    (distinct (map fst (sub_values s)) \<longrightarrow> distinct (map fst sv)) \<and>
    (stores_ok (c_topic_idx (counters s)) (sub_values s) \<longrightarrow> stores_ok (c_topic_idx (counters s)) sv)"

lemma stores_grow_inv: "server_inv s \<Longrightarrow> stores_grow s sv \<Longrightarrow> server_inv (s\<lparr>sub_values := sv\<rparr>)"
  by (simp add: inv_defs stores_grow_def)

lemma stores_grow_insert:
  assumes "map_of (sub_values s) j = Some old"
    and "stores_ok (c_topic_idx (counters s)) (sub_values s) \<Longrightarrow>
      distinct (stored_keys st) \<and> (\<forall>t \<in> set (stored_keys st). t < c_topic_idx (counters s))"
  shows "stores_grow s (hm_insert j st (sub_values s))"
  using assms by (auto simp: stores_grow_def distinct_update intro: stores_ok_insert)

lemma stores_grow_trans:
  "stores_grow s sv \<Longrightarrow> stores_grow (s\<lparr>sub_values := sv\<rparr>) sw \<Longrightarrow> stores_grow s sw"
  by (simp add: stores_grow_def)

lemma push_values_run:
  assumes "set js \<subseteq> hm_keys (sub_values s)" and "i < c_topic_idx (counters s)"
  shows "\<exists>sv. push_values i v js s = (Ok (), s\<lparr>sub_values := sv\<rparr>) \<and> stores_grow s sv"
  using assms
proof (induction js arbitrary: s)
  case Nil
  show ?case by (rule exI [of _ "sub_values s"]) (simp add: stores_grow_def)
next
  case (Cons j js)
  then obtain st where st: "map_of (sub_values s) j = Some st" by auto
  let ?sv = "hm_insert j (add_value i (NormalValue v) st) (sub_values s)"
  have grow: "stores_grow s ?sv"
    using st Cons.prems(2)
    by (intro stores_grow_insert [OF st]) (auto simp: stores_ok_def stored_keys_add stored_keys_add_value)
  then have "set js \<subseteq> hm_keys (sub_values (s\<lparr>sub_values := ?sv\<rparr>))"
    using Cons.prems(1) unfolding stores_grow_def by simp
  from Cons.IH [OF this] Cons.prems(2) obtain sv
    where run: "push_values i v js (s\<lparr>sub_values := ?sv\<rparr>) = (Ok (), s\<lparr>sub_values := ?sv, sub_values := sv\<rparr>)"
      and more: "stores_grow (s\<lparr>sub_values := ?sv\<rparr>) sv"
    by auto
  from stores_grow_trans [OF grow more] run st show ?case by auto
qed

text \<open>A value for a normal topic is always taken.\<close>

lemma set_value_run:
  assumes "server_inv s" and "map_of (topics s) i = Some t" and "CHR ''$'' \<notin> set (t_name t)"
  shows "\<exists>sv. set_value v i s = (Ok (), store_value i v (s\<lparr>sub_values := sv\<rparr>)) \<and> stores_grow s sv"
proof -
  have listed: "i \<in> hm_keys (topic_sub_map s)" by (rule inv_topic_listed [OF assms(1,2)])
  then obtain subs where subs: "map_of (topic_sub_map s) i = Some subs" by auto
  have "set subs \<subseteq> hm_keys (sub_values s)"
    using inv_sub_stored [OF assms(1) subs] by blast
  from push_values_run [OF this inv_listed_bound [OF assms(1) listed], of v] obtain sv
    where run: "push_values i v subs s = (Ok (), s\<lparr>sub_values := sv\<rparr>)" and grow: "stores_grow s sv"
    by blast
  with assms subs show ?thesis
    by (intro exI [of _ sv]) (simp add: set_value_def try_bind_def act_simps)
qed

lemma store_value_inv: "server_inv s \<Longrightarrow> server_inv (store_value i v s)"
  by (auto simp: store_value_def frame_simps split: option.splits)

lemma set_value_cases:
  assumes "server_inv s"
  shows "server_inv (snd (set_value v i s)) \<and> \<not> is_panic (fst (set_value v i s))"
proof (cases "map_of (topics s) i")
  case None
  with assms show ?thesis by (simp add: set_value_def)
next
  case (Some t)
  show ?thesis
  proof (cases "CHR ''$'' \<in> set (t_name t)")
    case True
    with assms Some show ?thesis by (simp add: set_value_def)
  next
    case False
    from set_value_run [OF assms Some False, of v] obtain sv
      where "set_value v i s = (Ok (), store_value i v (s\<lparr>sub_values := sv\<rparr>))" and "stores_grow s sv"
      by blast
    with assms show ?thesis by (simp add: store_value_inv stores_grow_inv)
  qed
qed

interpretation set_value: safe_action server_inv "set_value v i" for v i
  by unfold_locales (simp_all add: set_value_cases)

interpretation set_properties: safe_action server_inv "set_properties m" for m
  by unfold_locales
    (rule set_properties_inv, assumption, simp add: set_properties_def split: option.splits)

interpretation unsubscribe: safe_action server_inv "unsubscribe u ci" for u ci
  by unfold_locales
    (auto simp: unsubscribe_inv, auto simp: unsubscribe_def split: option.splits prod.splits)

lemma get_topic_idx_run:
  "get_topic_idx n s =
    (Err (ServerError (TopicDoesNotExist (''topic name '' @ n @ '' could not be found [did not exist]''))), s)"
  by (simp add: get_topic_idx_def)

end
