(* ===== verification/Server_Runner.thy ===== *)
theory Server_Runner
  imports Server_Safety
begin

text \<open>
  The tasks of \<open>src/server/runner.rs\<close>: the parser of what clients send, the loop that sends
  values out, the acceptance of a websocket request, and the connection of one client.

  The two loops of \<open>message_parser\<close> run while the server lives; their bodies are modelled, one
  message or one pass at a time.
\<close>

section \<open>Text from a client\<close>

text \<open>One message: the request it stands for, its error logged. Others are logged only.\<close>

fun dispatch ::
    "('v, 't, 'm, string) ext \<Rightarrow> instant \<Rightarrow> client_idx \<Rightarrow> string nt_message \<Rightarrow> ('v, 't, unit) server_act"
where
  "dispatch E now ci (Publish pub_topic) = ignore_err (inner_publish_topic E pub_topic ci)"
| "dispatch E now ci (Unpublish pub_topic) = ignore_err (inner_unpublish_topic pub_topic ci)"
| "dispatch E now ci (SetProperties set_props) = ignore_err (set_properties set_props)"
| "dispatch E now ci (Subscribe sub) = ignore_err (subscribe E now sub ci)"
| "dispatch E now ci (Unsubscribe unsub) = ignore_err (unsubscribe unsub ci)"
| "dispatch E now ci (Close close) =
     ignore_err (disconnect_client (ClientIdentity (cl_addr close) (cl_name close)))"
| "dispatch E now ci _ = ret ()"

definition parse_text ::
    "('v, 't, 'm, string) ext \<Rightarrow> instant \<Rightarrow> client_idx \<Rightarrow> 't \<Rightarrow> ('v, 't, unit) server_act"
where
  "parse_text E now ci text =
    (case json_read_list E text of
       None \<Rightarrow> ret ()
     | Some nt_msg_vec \<Rightarrow> for_each (dispatch E now ci) nt_msg_vec)"

section \<open>Binary data from a client\<close>

text \<open>
  \<open>while let Ok(data) = from_read(&mut msgpack)\<close>: the values of a byte string, until one cannot
  be read. \<open>None\<close>: the fuel is used up.
\<close>

fun decode_values :: "('v, 't, 'm, 'ty) ext \<Rightarrow> nat \<Rightarrow> u8 list \<Rightarrow> 'm list option" where
  "decode_values E 0 msgpack = None"
| "decode_values E (Suc fuel) msgpack =
     (case rmpv_read E msgpack of
        None \<Rightarrow> Some []
      | Some (data, rest) \<Rightarrow> map_option (Cons data) (decode_values E fuel rest))"

text \<open>
  One value: publisher id, timestamp and value of an array; whatever is missing or of the wrong
  kind is a panic (\<open>expect\<close>). A value of a registered publisher is set, its error dropped.
\<close>

definition decode_update ::
    "('v, 't, 'm, 'ty) ext \<Rightarrow> 'm list \<Rightarrow> (nt_error, pub_uid \<times> 'v timestamped_value) outcome"
where
  "decode_update E array =
    (case array of
       [] \<Rightarrow> Panic ''Array was too short''
     | uid # array1 \<Rightarrow>
         (case rmpv_as_u64 E uid of
            None \<Rightarrow> Panic ''MsgPack value could not be represented as u64''
          | Some topic_uid \<Rightarrow>
              if unat topic_uid \<ge> 2 ^ 32
              then Panic ''MsgPack value could not be represented as u32''
              else
                (case array1 of
                   [] \<Rightarrow> Panic ''Array was too short''
                 | time # array2 \<Rightarrow>
                     (case rmpv_as_u64 E time of
                        None \<Rightarrow> Panic ''MsgPack value could not be represented as u64''
                      | Some timestamp \<Rightarrow>
                          if array2 = [] then Panic ''Array was too short''
                          else
                            (case frc_of_rmpv E (last array2) of
                               None \<Rightarrow> Panic ''Invalid msgpack value''
                             | Some v \<Rightarrow>
                                 Ok (ucast topic_uid, \<lparr>tv_timestamp = timestamp, tv_value = v\<rparr>))))))"

definition apply_update ::
    "client_idx \<Rightarrow> pub_uid \<Rightarrow> 'v timestamped_value \<Rightarrow> ('v, 't, unit) server_act"
where
  "apply_update ci topic_uid v s =
    (case map_of (clients s) ci of
       None \<Rightarrow> (Ok (), s)
     | Some client \<Rightarrow>
         (case bm_get_by_left (cc_pubuid_to_topicidx client) topic_uid of
            None \<Rightarrow> (Ok (), s)
          | Some topic_idx \<Rightarrow> ignore_err (set_value v topic_idx) s))"

definition parse_value ::
    "('v, 't, 'm, 'ty) ext \<Rightarrow> client_idx \<Rightarrow> 'm \<Rightarrow> ('v, 't, unit) server_act"
where
  "parse_value E ci data =
    (case rmpv_as_array E data of
       None \<Rightarrow> ret ()
     | Some array \<Rightarrow>
         (case decode_update E array of
            Ok (topic_uid, v) \<Rightarrow> apply_update ci topic_uid v
          | Err e \<Rightarrow> throw e
          | Panic p \<Rightarrow> panic p))"

definition parse_binary ::
    "('v, 't, 'm, 'ty) ext \<Rightarrow> client_idx \<Rightarrow> u8 list \<Rightarrow> ('v, 't, unit) server_act option"
where
  "parse_binary E ci msgpack =
    map_option (for_each (parse_value E ci)) (decode_values E (Suc (length msgpack)) msgpack)"

text \<open>One message off the queue of the parser.\<close>

definition parse_in ::
    "('v, 't, 'm, string) ext \<Rightarrow> instant \<Rightarrow> client_idx \<Rightarrow> 't ws_message \<Rightarrow> ('v, 't, unit) server_act option"
where
  "parse_in E now ci msg =
    (case msg of
       WsText text \<Rightarrow> Some (parse_text E now ci text)
     | WsBinary msgpack \<Rightarrow> parse_binary E ci msgpack
     | _ \<Rightarrow> Some (ret ()))"

section \<open>Sending values out\<close>

definition elapsed_secs :: "instant \<Rightarrow> instant \<Rightarrow> real" where
  "elapsed_secs now earlier = real (now - earlier) / 10 ^ 9"

fun encode_values ::
    "('v, 't, 'm, 'ty) ext \<Rightarrow> u64 \<Rightarrow> topic_idx \<Rightarrow> 'v server_sendable_value list \<Rightarrow> (nt_error, u8 list) outcome"
where
  "encode_values E now topic_idx [] = Ok []"
| "encode_values E now topic_idx (v # vs) =
     (if unat topic_idx \<ge> 2 ^ 31 then Panic ''Topic idx overflowing i32''
      else
        (case sendable_as_bytes E now v topic_idx of
           Ok b \<Rightarrow>
             (case encode_values E now topic_idx vs of
                Ok bs \<Rightarrow> Ok (b @ bs)
              | Err e \<Rightarrow> Err e
              | Panic p \<Rightarrow> Panic p)
         | Err _ \<Rightarrow> Panic ''Failed to encode value''
         | Panic p \<Rightarrow> Panic p))"

definition send_topic_values ::
    "('v, 't, 'm, 'ty) ext \<Rightarrow> u64 \<Rightarrow> connected_client \<Rightarrow>
      topic_idx \<times> 'v server_sendable_value list \<Rightarrow> ('v, 't, unit) server_act"
where
  "send_topic_values E now client entry =
    (case encode_values E now (fst entry) (snd entry) of
       Ok buf \<Rightarrow> ignore_err (send_binary client buf)
     | Err e \<Rightarrow> throw e
     | Panic p \<Rightarrow> panic p)"

text \<open>
  One pass over the subscriptions: \<open>clk\<close> is \<open>Instant::now()\<close> and \<open>now\<close> the wall clock during the
  pass. The result is the new \<open>soonest_offset\<close>.
\<close>

fun send_pass ::
    "('v, 't, 'm, 'ty) ext \<Rightarrow> instant \<Rightarrow> u64 \<Rightarrow> (sub_idx \<times> subscription \<times> client_idx) list \<Rightarrow>
      real \<Rightarrow> ('v, 't, real) server_act"
where
  "send_pass E clk now [] soonest_offset s = (Ok soonest_offset, s)"
| "send_pass E clk now ((sub_idx, subscription, ci) # entries) soonest_offset s =
    (let options = get_options subscription;
         periodic = unwrap_or (1 / 10) (opt_periodic options)
     in if unwrap_or False (opt_topics_only options)
        then send_pass E clk now entries soonest_offset s
        else
          (case map_of (sub_send_timestamps s) sub_idx of
             None \<Rightarrow> (Panic ''Sub timestamp missing'', s)
           | Some send_instant \<Rightarrow>
               if \<bar>elapsed_secs clk send_instant - periodic\<bar> < 1 / 1000
               then send_pass E clk now entries (periodic - elapsed_secs clk send_instant) s
               else
                 let s1 = s\<lparr>sub_send_timestamps := hm_insert sub_idx clk (sub_send_timestamps s)\<rparr>
                 in (case map_of (clients s1) ci of
                       None \<Rightarrow> send_pass E clk now entries soonest_offset s1
                     | Some client \<Rightarrow>
                         (case map_of (sub_values s1) sub_idx of
                            None \<Rightarrow> (Panic ''Sub values did not exists'', s1)
                          | Some st \<Rightarrow>
                              let (values_to_send, st') = take_values st;
                                  s2 = s1\<lparr>sub_values := hm_insert sub_idx st' (sub_values s1)\<rparr>
                              in try_bind (for_each (send_topic_values E now client) values_to_send)
                                   (\<lambda>_. send_pass E clk now entries soonest_offset) s2))))"

text \<open>
  One turn of the loop: the time it then sleeps and the offset it keeps.
  \<open>Duration::from_secs_f64\<close> panics on a negative number.
\<close>

definition send_out_turn ::
    "('v, 't, 'm, 'ty) ext \<Rightarrow> instant \<Rightarrow> u64 \<Rightarrow> real \<Rightarrow> ('v, 't, real \<times> real) server_act"
where
  "send_out_turn E clk now soonest_offset s =
    (if subscriptions s = []
     then (if soonest_offset < 0
           then (Panic ''cannot convert float seconds to Duration: value is negative'', s)
           else (Ok (soonest_offset, soonest_offset), s))
     else try_bind (send_pass E clk now (subscriptions s) soonest_offset)
            (\<lambda>off. ret (max 0 (min (1 / 10) (off - 5 / 10000)), off)) s)"

section \<open>Accepting a connection\<close>

text \<open>What \<open>request\<close> reads of an HTTP request; a header that is not text counts as missing.\<close>

record http_request =
  rq_is_get :: bool
  rq_is_http11 :: bool
  rq_upgrade :: "string option"
  rq_has_key :: bool
  rq_protocol :: "string option"
  rq_path :: string

datatype http_answer = Hello | Switching bool string

definition to_ascii_lowercase :: "string \<Rightarrow> string" where
  "to_ascii_lowercase s =
    map (\<lambda>c. let n = of_char c :: nat in if 65 \<le> n \<and> n \<le> 90 then char_of (n + 32) else c) s"

function trim_start_matches :: "string \<Rightarrow> string \<Rightarrow> string" where
  "trim_start_matches pat s =
    (if pat \<noteq> [] \<and> prefix pat s then trim_start_matches pat (drop (length pat) s) else s)"
  by pat_completeness auto
termination
  by (relation "measure (\<lambda>(pat, s). length s)") (auto simp: prefix_def)

declare trim_start_matches.simps [simp del]

definition request :: "http_request \<Rightarrow> http_answer" where
  "request req =
    (if \<not> rq_is_get req \<or> \<not> rq_is_http11 req \<or>
        \<not> (case rq_upgrade req of
             None \<Rightarrow> False
           | Some val \<Rightarrow> str_contains (to_ascii_lowercase val) ''websocket'') \<or>
        \<not> rq_has_key req
     then Hello
     else
       (let name = trim_start_matches ''/nt/'' (rq_path req)
        in case rq_protocol req of
             None \<Rightarrow> Hello
           | Some hdr \<Rightarrow>
               if str_contains (to_ascii_lowercase hdr) ''rtt.networktables.first.wpi.edu''
               then Switching True name
               else if str_contains (to_ascii_lowercase hdr) ''networktables''
               then Switching False name
               else Hello))"

section \<open>The connection of one client\<close>

text \<open>What the connection does with a message from the socket.\<close>

datatype 't incoming_action =
    Dropped
  | TimeReply "u8 list"
  | PongReply
  | Killed
  | Forwarded "'t ws_message"

text \<open>
  The answer to a time request whose MessagePack value is \<open>arr\<close>; \<open>None\<close> falls through to the
  code that follows. The writes are followed by \<open>unwrap\<close>.
\<close>

definition time_sync ::
    "('v, 't, 'm, 'ty) ext \<Rightarrow> u64 \<Rightarrow> u8 list \<Rightarrow> (nt_error, 't incoming_action option) outcome"
where
  "time_sync E now data =
    (case rmpv_read E data of
       None \<Rightarrow> Ok None
     | Some (v, _) \<Rightarrow>
         (case rmpv_as_array E v of
            None \<Rightarrow> Ok None
          | Some arr \<Rightarrow>
              if arr = [] then Ok None
              else if rmpv_is_integer E (last arr)
              then
                (case write_all
                        [rmp_array_len E 4,
                         rmp_i32 E (-1),
                         rmp_uint E now,
                         rmp_u8 E (as_u8 FrcInt),
                         rmp_uint E (unwrap_or 0 (rmpv_as_u64 E (last arr)))] of
                   Ok buf \<Rightarrow> Ok (Some (TimeReply buf))
                 | _ \<Rightarrow> Panic ''called `Result::unwrap()` on an `Err` value'')
              else Ok (Some Dropped)))"

definition incoming ::
    "('v, 't, 'm, 'ty) ext \<Rightarrow> u64 \<Rightarrow> 't ws_message \<Rightarrow> (nt_error, 't incoming_action) outcome"
where
  "incoming E now msg =
    (case msg of
       WsBinary data \<Rightarrow>
         if length data < 2 then Ok Dropped
         else if data ! 0 \<noteq> 148 then Ok Dropped
         else if data ! 1 = 210 then
           (case time_sync E now data of
              Ok (Some act) \<Rightarrow> Ok act
            | Ok None \<Rightarrow> Ok (Forwarded msg)
            | Err e \<Rightarrow> Err e
            | Panic p \<Rightarrow> Panic p)
         else Ok (Forwarded msg)
     | WsPing _ \<Rightarrow> Ok PongReply
     | WsPong _ \<Rightarrow> Ok Dropped
     | WsClose \<Rightarrow> Ok Killed
     | WsText _ \<Rightarrow> Ok (Forwarded msg))"

text \<open>
  The outgoing half: messages fed to the socket and not yet flushed, those flushed, and the
  kill switch. Its inputs: a tick of the flush timer, the next message of the server (\<open>None\<close>:
  the sender is gone) and the next message of the time channel.
\<close>

record 't conn =
  cn_fed :: "'t ws_message list"
  cn_wire :: "'t ws_message list"
  cn_kill :: bool

datatype 't conn_event = Tick | OutMsg "'t ws_message option" | TimeMsg "'t ws_message option"

definition new_conn :: "'t conn" where
  "new_conn = \<lparr>cn_fed = [], cn_wire = [], cn_kill = False\<rparr>"

definition conn_flush :: "'t conn \<Rightarrow> 't conn" where
  "conn_flush c = c\<lparr>cn_wire := cn_wire c @ cn_fed c, cn_fed := []\<rparr>"

definition conn_feed :: "'t ws_message \<Rightarrow> 't conn \<Rightarrow> 't conn" where
  "conn_feed m c = c\<lparr>cn_fed := cn_fed c @ [m]\<rparr>"

fun outgoing :: "'t conn \<Rightarrow> 't conn_event \<Rightarrow> 't conn" where
  "outgoing c Tick = conn_flush c"
| "outgoing c (OutMsg None) = c\<lparr>cn_kill := True\<rparr>"
| "outgoing c (OutMsg (Some (WsBinary bin))) = (if bin = flush_bytes then conn_flush c else c)"
| "outgoing c (OutMsg (Some msg)) = conn_feed msg c"
| "outgoing c (TimeMsg None) = c\<lparr>cn_kill := True\<rparr>"
| "outgoing c (TimeMsg (Some msg)) = conn_flush (conn_feed msg c)"

text \<open>The last thing a connection does: one close message for the parser, not in a list.\<close>

definition close_text :: "('v, 't, 'm, string) ext \<Rightarrow> client_identity \<Rightarrow> (nt_error, 't ws_message) outcome" where
  "close_text E identity =
    (case json_write_one E (as_close identity) of
       Some json \<Rightarrow> Ok (WsText json)
     | None \<Rightarrow> Panic ''called `Result::unwrap()` on an `Err` value'')"

section \<open>Facts\<close>

text \<open>The length of the input is fuel enough to read everything in it.\<close>

lemma decode_values_enough:
  "rmpv_consumes E \<Longrightarrow> length bytes < fuel \<Longrightarrow> \<exists>vs. decode_values E fuel bytes = Some vs"
proof (induction fuel arbitrary: bytes)
  case (Suc fuel)
  show ?case
  proof (cases "rmpv_read E bytes")
    case (Some p)
    obtain v rest where p: "p = (v, rest)" by fastforce
    with Some Suc.prems have "length rest < fuel"
      by (fastforce simp: rmpv_consumes_def)
    with Suc.IH [OF Suc.prems(1)] Some p show ?thesis by force
  qed simp
qed simp

lemma sendable_as_bytes_total: "rmp_total E \<Longrightarrow> \<exists>b. sendable_as_bytes E now v i = Ok b"
  by (cases v) (simp_all add: tv_as_bytes_total meta_as_bytes_total)

lemma encode_values_total:
  assumes "rmp_total E" and "unat i < 2 ^ 31"
  shows "\<exists>b. encode_values E now i vs = Ok b"
proof (induction vs)
  case (Cons v vs)
  with assms sendable_as_bytes_total [OF assms(1), of now v i] show ?case by auto
qed simp

end
