(* ===== verification/Client_State.thy ===== *)
theory Client_State
  imports Server_Runner "HOL-Library.Stream"
begin

text \<open>
  The state of the client (\<open>InnerClient\<close> of \<open>src/client/inner.rs\<close>, \<open>src/client/config.rs\<close>,
  \<open>src/client/util.rs\<close>, the subscription handles of \<open>src/spec/subscription.rs\<close>) and the
  operations that touch one part of it: sending to the socket task, the clocks, the identifiers.
\<close>

section \<open>Subscriptions of the user\<close>

text \<open>
  A \<open>SubscriptionStream\<close> belongs to the user: it owns the \<open>Arc\<close> with the data of the
  subscription and the receiving end of a channel. The client keeps an \<open>InternalSub\<close>: a \<open>Weak\<close>
  to the same data and the sending end. Both are references here, to an object with its strong
  count and to a channel with its queue.
\<close>

record 'm message_data =
  md_topic_name :: string
  md_timestamp :: u32
  md_type :: frc_type
  md_data :: 'm

record internal_sub =
  is_data :: nat
  is_sender :: nat

record subscription_stream =
  ss_data :: nat
  ss_receiver :: nat

record sub_arc =
  arc_strong :: nat
  arc_data :: subscription

record 'm sub_chan =
  sc_queue :: "'m message_data list"
  sc_rx_open :: bool

text \<open>The capacity of such a channel (\<open>subscribe_w_options\<close>).\<close>

definition SUB_CAPACITY :: nat where
  "SUB_CAPACITY = 256"

section \<open>Configuration\<close>

text \<open>
  The callbacks of the user run for their effect outside the client: a call is recorded with
  its argument. \<open>should_reconnect\<close> is a function of the error.
\<close>

datatype client_callback =
  OnAnnounce "frc_type topic" | OnUnannounce "frc_type topic option" | OnDisconnect | OnReconnect

record client_config =
  cf_connect_timeout :: u64
  cf_disconnect_retry_interval :: u64
  cf_should_reconnect :: "ws_error \<Rightarrow> bool"

fun default_should_reconnect :: "ws_error \<Rightarrow> bool" where
  "default_should_reconnect AlreadyClosed = True"
| "default_should_reconnect ConnectionClosed = True"
| "default_should_reconnect (Protocol protocol_err) =
     (case protocol_err of
        SendAfterClosing \<Rightarrow> True
      | ResetWithoutClosingHandshake \<Rightarrow> True
      | _ \<Rightarrow> False)"
| "default_should_reconnect (WsIo kind) =
     (case kind of
        ConnectionReset \<Rightarrow> True
      | ConnectionAborted \<Rightarrow> True
      | TimedOut \<Rightarrow> True
      | _ \<Rightarrow> False)"
| "default_should_reconnect _ = True"

definition client_config_default :: client_config where
  "client_config_default =
    \<lparr>cf_connect_timeout = 500, cf_disconnect_retry_interval = 1000,
     cf_should_reconnect = default_should_reconnect\<rparr>"

section \<open>The state\<close>

text \<open>
  \<open>nc_socket_queue\<close> is the channel to the socket task, \<open>nc_socket_open\<close> says whether that task
  still holds its receiver, and \<open>nc_socket_panic\<close> is the error the task left in the oneshot
  channel, until someone takes it. \<open>nc_clock\<close> holds what the next calls of \<open>Instant::now()\<close>
  will return, in nanoseconds; \<open>nc_start_time\<close> counts nanoseconds from the Unix epoch.
\<close>

record ('t, 'm) client =
  nc_server_addr :: socket_addr
  nc_subscriptions :: "(i32, internal_sub) hmap"
  nc_announced_topics :: "(i32, frc_type topic) hmap"
  nc_client_published_topics :: "(u32, frc_type published_topic) hmap"
  nc_socket_queue :: "'t ws_message list"
  nc_socket_open :: bool
  nc_socket_panic :: "nt_error option"
  nc_server_time_offset :: u64
  nc_sub_counter :: i32
  nc_topic_counter :: u32
  nc_config :: client_config
  nc_start_instant :: instant
  nc_start_time :: int
  nc_identity :: string
  nc_clock :: "instant stream"
  nc_callbacks :: "client_callback list"
  nc_next_ref :: nat
  nc_arcs :: "nat \<Rightarrow> sub_arc"
  nc_chans :: "nat \<Rightarrow> 'm sub_chan"

type_synonym ('t, 'm, 'a) client_act = "(('t, 'm) client, nt_error, 'a) act"

definition instant_now :: "('t, 'm, instant) client_act" where
  "instant_now c = (Ok (shd (nc_clock c)), c\<lparr>nc_clock := stl (nc_clock c)\<rparr>)"

definition call_back :: "client_callback \<Rightarrow> ('t, 'm, unit) client_act" where
  "call_back cb = modify (\<lambda>c. c\<lparr>nc_callbacks := nc_callbacks c @ [cb]\<rparr>)"

section \<open>Sending to the socket task\<close>

text \<open>The error of a dead task is there once: \<open>try_recv\<close> takes it out of the channel.\<close>

definition check_task_panic :: "('t, 'm, unit) client_act" where
  "check_task_panic c =
    (case nc_socket_panic c of
       Some err \<Rightarrow> (Err err, c\<lparr>nc_socket_panic := None\<rparr>)
     | None \<Rightarrow> (Ok (), c))"

definition send_message :: "'t ws_message \<Rightarrow> ('t, 'm, unit) client_act" where
  "send_message message =
    try_bind check_task_panic (\<lambda>_ c.
      if nc_socket_open c
      then (Ok (), c\<lparr>nc_socket_queue := nc_socket_queue c @ [message]\<rparr>)
      else (Panic ''called `Result::unwrap()` on an `Err` value'', c))"

section \<open>Time\<close>

text \<open>Microseconds between two instants, \<open>as u64\<close>; an earlier instant counts as zero.\<close>

definition micros_since :: "instant \<Rightarrow> instant \<Rightarrow> u64" where
  "micros_since now earlier = of_nat ((now - earlier) div 1000)"

definition client_time :: "('t, 'm, u64) client_act" where
  "client_time =
    try_bind instant_now (\<lambda>now c. (Ok (micros_since now (nc_start_instant c)), c))"

text \<open>An addition of two \<open>u64\<close> that overflows panics (the check of a debug build).\<close>

definition add_u64 :: "u64 \<Rightarrow> u64 \<Rightarrow> ('t, 'm, u64) client_act" where
  "add_u64 a b =
    (case checked_add a b of
       Some r \<Rightarrow> ret r
     | None \<Rightarrow> panic ''attempt to add with overflow'')"

definition server_time :: "('t, 'm, u64) client_act" where
  "server_time =
    try_bind client_time (\<lambda>t c. add_u64 t (nc_server_time_offset c) c)"

text \<open>\<open>duration_since(UNIX_EPOCH).unwrap()\<close> of the start time, in microseconds.\<close>

definition since_epoch :: "('t, 'm, u64) client_act" where
  "since_epoch c =
    (if nc_start_time c < 0
     then (Panic ''called `Result::unwrap()` on an `Err` value'', c)
     else (Ok (of_int (nc_start_time c div 1000)), c))"

definition real_world_server_time :: "('t, 'm, u64) client_act" where
  "real_world_server_time =
    try_bind since_epoch (\<lambda>start. try_bind server_time (\<lambda>t. add_u64 start t))"

definition to_real_time :: "u64 \<Rightarrow> ('t, 'm, u64) client_act" where
  "to_real_time server_t = try_bind since_epoch (\<lambda>start. add_u64 start server_t)"

text \<open>
  A time reply of the server: \<open>Some ()\<close> when the offset is known or need not change, \<open>None\<close> when
  one of the subtractions fails. \<open>client_timestamp as u64\<close> keeps the bits.
\<close>

definition handle_new_timestamp :: "u64 \<Rightarrow> i64 option \<Rightarrow> ('t, 'm, unit option) client_act" where
  "handle_new_timestamp server_timestamp client_timestamp_opt =
    (case client_timestamp_opt of
       None \<Rightarrow> ret (Some ())
     | Some client_timestamp \<Rightarrow>
         try_bind client_time (\<lambda>receive_time.
           case checked_sub receive_time client_timestamp of
             None \<Rightarrow> ret None
           | Some round_trip_time \<Rightarrow>
               (case checked_sub server_timestamp (round_trip_time div 2) of
                  None \<Rightarrow> ret None
                | Some server_time_at_receive \<Rightarrow>
                    (case checked_sub server_time_at_receive receive_time of
                       None \<Rightarrow> ret None
                     | Some offset \<Rightarrow>
                         try_bind (modify (\<lambda>c. c\<lparr>nc_server_time_offset := offset\<rparr>))
                           (\<lambda>_. ret (Some ()))))))"

definition reset_time :: "('t, 'm, unit) client_act" where
  "reset_time =
    try_bind (modify (\<lambda>c. c\<lparr>nc_server_time_offset := 0\<rparr>)) (\<lambda>_.
    try_bind instant_now (\<lambda>now. modify (\<lambda>c. c\<lparr>nc_start_instant := now\<rparr>)))"

section \<open>Identifiers\<close>

text \<open>\<open>checked_add\<close> of \<open>i32\<close>.\<close>

definition checked_add_i32 :: "i32 \<Rightarrow> i32 \<Rightarrow> i32 option" where
  "checked_add_i32 a b =
    (if - (2 ^ 31) \<le> sint a + sint b \<and> sint a + sint b < 2 ^ 31 then Some (a + b) else None)"

definition new_topic_id :: "('t, 'm, u32) client_act" where
  "new_topic_id c =
    (let new_id = unwrap_or 1 (checked_add (nc_topic_counter c) 1)
     in (Ok new_id, c\<lparr>nc_topic_counter := new_id\<rparr>))"

definition new_sub_id :: "('t, 'm, i32) client_act" where
  "new_sub_id c =
    (let new_id = unwrap_or 1 (checked_add_i32 (nc_sub_counter c) 1)
     in (Ok new_id, c\<lparr>nc_sub_counter := new_id\<rparr>))"

section \<open>The handles of a subscription\<close>

definition is_valid :: "('t, 'm) client \<Rightarrow> internal_sub \<Rightarrow> bool" where
  "is_valid c sub \<longleftrightarrow> arc_strong (nc_arcs c (is_data sub)) \<noteq> 0"

definition upgrade :: "('t, 'm) client \<Rightarrow> internal_sub \<Rightarrow> subscription option" where
  "upgrade c sub = (if is_valid c sub then Some (arc_data (nc_arcs c (is_data sub))) else None)"

definition matches_topic :: "('t, 'm) client \<Rightarrow> internal_sub \<Rightarrow> frc_type topic \<Rightarrow> bool" where
  "matches_topic c sub topic =
    (case upgrade c sub of
       None \<Rightarrow> False
     | Some data \<Rightarrow>
         (let prefix = unwrap_or False (Option.bind (sn_options data) opt_prefix)
          in if prefix
             then (\<exists>topic_pat \<in> sn_topics data. str_starts_with (t_name topic) topic_pat)
             else (\<exists>topic_name \<in> sn_topics data. topic_name = t_name topic)))"

text \<open>
  \<open>try_next\<close> of the stream: the oldest message, if there is one. A user waiting in \<open>next\<close> gets
  the same message as soon as there is one.
\<close>

definition try_next :: "subscription_stream \<Rightarrow> ('t, 'm, 'm message_data option) client_act" where
  "try_next stream c =
    (case sc_queue (nc_chans c (ss_receiver stream)) of
       [] \<Rightarrow> (Ok None, c)
     | message # rest \<Rightarrow>
         (Ok (Some message),
          c\<lparr>nc_chans := (nc_chans c)(ss_receiver stream :=
              (nc_chans c (ss_receiver stream))\<lparr>sc_queue := rest\<rparr>)\<rparr>))"

text \<open>The user drops a stream: one strong reference less, and the receiver is gone.\<close>

definition drop_stream :: "subscription_stream \<Rightarrow> ('t, 'm) client \<Rightarrow> ('t, 'm) client" where
  "drop_stream stream c =
    c\<lparr>nc_arcs := (nc_arcs c)(ss_data stream :=
        (nc_arcs c (ss_data stream))\<lparr>arc_strong := arc_strong (nc_arcs c (ss_data stream)) - 1\<rparr>),
      nc_chans := (nc_chans c)(ss_receiver stream :=
        (nc_chans c (ss_receiver stream))\<lparr>sc_queue := [], sc_rx_open := False\<rparr>)\<rparr>"

end
