(* ===== verification/Server_Handles.thy ===== *)
theory Server_Handles
  imports Server_Runner
begin

text \<open>
  The calls of the program that owns the server: \<open>src/server/handles.rs\<close>, with the source of
  unique numbers of \<open>src/lib.rs\<close>. The asynchronous and the blocking handle share these bodies.
\<close>

section \<open>Unique numbers\<close>

text \<open>\<open>SEED.fetch_add(1)\<close> wraps around.\<close>

definition generate_uid :: "(u64, nt_error, u64) act" where
  "generate_uid SEED = (Ok SEED, SEED + 1)"

text \<open>The state of the process: the seed and the server.\<close>

type_synonym ('v, 't) process = "u64 \<times> ('v, 't) server"

definition with_seed :: "(u64, nt_error, 'a) act \<Rightarrow> (('v, 't) process, nt_error, 'a) act" where
  "with_seed = zoom fst (\<lambda>x p. (x, snd p))"

definition with_server :: "('v, 't, 'a) server_act \<Rightarrow> (('v, 't) process, nt_error, 'a) act" where
  "with_server = zoom snd (\<lambda>s p. (fst p, s))"

section \<open>Starting\<close>

text \<open>
  A handle shares the server it has started. Its uid is the hash of the address alone, \<open>hash_addr\<close>
  being \<open>DefaultHasher\<close>; handles compare by it. The tasks \<open>run_server\<close> spawns are modelled in
  \<open>Server_Runner\<close> and \<open>Server_Lifecycle\<close>. The blocking handle needs a runtime of its own first.
\<close>

record ('v, 't) server_handle =
  sh_uid :: u64
  sh_inner :: "('v, 't) server"

definition start_server ::
    "(socket_addr \<Rightarrow> u64) \<Rightarrow> ('v, 't, 'm, string) ext \<Rightarrow> socket_addr \<Rightarrow>
      (nt_error, ('v, 't) server_handle) outcome"
where
  "start_server hash_addr E addr =
    (case try_new E addr of
       (Ok _, inner) \<Rightarrow> Ok \<lparr>sh_uid = hash_addr addr, sh_inner = inner\<rparr>
     | (Err e, _) \<Rightarrow> Err e
     | (Panic p, _) \<Rightarrow> Panic p)"

definition start_server_blocking ::
    "(socket_addr \<Rightarrow> u64) \<Rightarrow> ('v, 't, 'm, string) ext \<Rightarrow> bool \<Rightarrow> socket_addr \<Rightarrow>
      (nt_error, ('v, 't) server_handle) outcome"
where
  "start_server_blocking hash_addr E runtime_built addr =
    (if runtime_built then start_server hash_addr E addr
     else Panic ''Failed to start tokio runtime'')"

definition server_handle_eq :: "('v, 't) server_handle \<Rightarrow> ('v, 't) server_handle \<Rightarrow> bool" where
  "server_handle_eq this other \<longleftrightarrow> sh_uid this = sh_uid other"

section \<open>Calls\<close>

text \<open>
  \<open>type_text\<close> is the conversion of \<open>val.get_type()\<close> to the type text of the message: the code
  passes the \<open>FrcType\<close> itself where the message has a \<open>String\<close>, and names no conversion.
\<close>

definition publish_topic_w_props ::
    "('v, 't, 'm, string) ext \<Rightarrow> (frc_type \<Rightarrow> string) \<Rightarrow> u64 \<Rightarrow> string \<Rightarrow> 'v \<Rightarrow> publish_properties option \<Rightarrow>
      (('v, 't) process, nt_error, unit) act"
where
  "publish_topic_w_props E type_text now topic_name val props =
    try_bind (with_seed generate_uid) (\<lambda>uid.
    try_bind (with_server (inner_publish_topic E
                \<lparr>pt_name = topic_name, pt_pubuid = ucast uid,
                 pt_type = type_text (frc_get_type E val), pt_properties = props\<rparr> 0)) (\<lambda>topic_idx.
    with_server (set_value \<lparr>tv_timestamp = now, tv_value = val\<rparr> topic_idx)))"

definition publish_topic ::
    "('v, 't, 'm, string) ext \<Rightarrow> (frc_type \<Rightarrow> string) \<Rightarrow> u64 \<Rightarrow> string \<Rightarrow> 'v \<Rightarrow>
      (('v, 't) process, nt_error, unit) act"
where
  "publish_topic E type_text now topic_name val =
    publish_topic_w_props E type_text now topic_name val None"

definition set_topic_value_w_timestamp :: "string \<Rightarrow> 'v \<Rightarrow> u64 \<Rightarrow> ('v, 't, unit) server_act" where
  "set_topic_value_w_timestamp topic_name val timestamp =
    try_bind (get_topic_idx topic_name) (\<lambda>topic_idx.
    set_value \<lparr>tv_timestamp = timestamp, tv_value = val\<rparr> topic_idx)"

definition set_topic_value :: "u64 \<Rightarrow> string \<Rightarrow> 'v \<Rightarrow> ('v, 't, unit) server_act" where
  "set_topic_value now topic_name val = set_topic_value_w_timestamp topic_name val now"

definition set_topic_props :: "string \<Rightarrow> publish_properties \<Rightarrow> ('v, 't, unit) server_act" where
  "set_topic_props topic_name props = set_properties \<lparr>sp_name = topic_name, sp_update = props\<rparr>"

definition get_topic_value :: "string \<Rightarrow> ('v, 't, 'v) server_act" where
  "get_topic_value topic_name =
    try_bind (get_topic_idx topic_name) (\<lambda>topic_idx.
    try_bind (get_value topic_idx) (\<lambda>v. ret (tv_value v)))"

definition get_topic_names :: "('v, 't) server \<Rightarrow> string list" where
  "get_topic_names s = map fst (topic_map s)"

section \<open>Facts\<close>

lemma with_server_run [act_simps]:
  "with_server m p = (case m (snd p) of (r, s) \<Rightarrow> (r, (fst p, s)))"
  by (simp add: with_server_def zoom_def)

lemma with_seed_run [act_simps]:
  "with_seed generate_uid p = (Ok (fst p), (fst p + 1, snd p))"
  by (simp add: with_seed_def zoom_def generate_uid_def)

lemma keeps_with_server: "keeps I m \<Longrightarrow> keeps (\<lambda>p. I (snd p)) (with_server m)"
  by (auto simp: triple_def act_simps split: prod.splits)

lemma keeps_with_seed: "keeps (\<lambda>p. I (snd p)) (with_seed generate_uid)"
  by (simp add: triple_def act_simps)

lemma get_topic_idx_then:
  "try_bind (get_topic_idx n) f s =
    (Err (ServerError (TopicDoesNotExist (''topic name '' @ n @ '' could not be found [did not exist]''))), s)"
  by (simp add: try_bind_def get_topic_idx_run)

lemma keeps_set_topic_value: "keeps I (set_topic_value_w_timestamp n v ts)"
  by (simp add: triple_def set_topic_value_w_timestamp_def get_topic_idx_then)

end
