(* ===== verification/Client_Ops.thy ===== *)
theory Client_Ops
  imports Client_State Server_Handles
begin

text \<open>
  The rest of \<open>InnerClient\<close> (publishing a value, asking for the time, the opening of a
  connection) and the operations of \<open>AsyncClientHandle\<close> of \<open>src/client/async_handle.rs\<close>.
\<close>

section \<open>Values\<close>

datatype unsigned_int_or_negative_one = NegativeOne | UnsignedInt u32

fun write_to_buf :: "('v, 't, 'm, 'ty) ext \<Rightarrow> unsigned_int_or_negative_one \<Rightarrow> u8 list option" where
  "write_to_buf E NegativeOne = rmp_i32 E (-1)"
| "write_to_buf E (UnsignedInt u_int) = rmp_u32 E u_int"

text \<open>The write of the id is followed by \<open>unwrap\<close>, the others by \<open>?\<close>.\<close>

definition publish_value_w_timestamp ::
    "('v, 't, 'm, frc_type) ext \<Rightarrow> unsigned_int_or_negative_one \<Rightarrow> frc_type \<Rightarrow> u32 \<Rightarrow> 'm \<Rightarrow>
      ('t, 'm, unit) client_act"
where
  "publish_value_w_timestamp E uid type timestamp value =
    try_bind check_task_panic (\<lambda>_.
      case rmp_array_len E 4 of
        None \<Rightarrow> throw MsgPackWrite
      | Some len_bytes \<Rightarrow>
          (case write_to_buf E uid of
             None \<Rightarrow> panic ''called `Result::unwrap()` on an `Err` value''
           | Some id_bytes \<Rightarrow>
               (case write_all [rmp_uint E (ucast timestamp), rmp_u8 E (as_u8 type), rmpv_write E value] of
                  Ok rest \<Rightarrow> send_message (WsBinary (len_bytes @ id_bytes @ rest))
                | Err e \<Rightarrow> throw e
                | Panic p \<Rightarrow> panic p)))"

definition publish_value ::
    "('v, 't, 'm, frc_type) ext \<Rightarrow> unsigned_int_or_negative_one \<Rightarrow> frc_type \<Rightarrow> 'm \<Rightarrow>
      ('t, 'm, unit) client_act"
where
  "publish_value E uid type value =
    try_bind server_time (\<lambda>t. publish_value_w_timestamp E uid type (ucast t) value)"

definition update_time :: "('v, 't, 'm, frc_type) ext \<Rightarrow> ('t, 'm, unit) client_act" where
  "update_time E c =
    (case map_of (nc_announced_topics c) (-1) of
       None \<Rightarrow> (Ok (), c)
     | Some time_topic \<Rightarrow>
         try_bind client_time (\<lambda>t.
           publish_value_w_timestamp E NegativeOne (t_type time_topic) 0 (rmpv_of_u64 E t)) c)"

section \<open>The opening of a connection\<close>

definition time_topic :: "frc_type topic" where
  "time_topic = \<lparr>t_name = ''Time'', t_type = FrcInt, t_properties = None\<rparr>"

definition publish_again :: "'ty published_topic \<Rightarrow> 'ty nt_message" where
  "publish_again topic =
    Publish \<lparr>pt_name = pd_name topic, pt_pubuid = pd_pubuid topic, pt_type = pd_type topic,
             pt_properties = pd_properties topic\<rparr>"

definition subscribe_again :: "subscription \<Rightarrow> 'ty nt_message" where
  "subscribe_again data =
    Subscribe \<lparr>sb_subuid = sn_subuid data, sb_topics = sn_topics data, sb_options = sn_options data\<rparr>"

definition opening_messages :: "('t, 'm) client \<Rightarrow> frc_type nt_message list" where
  "opening_messages c =
    map (\<lambda>(_, topic). publish_again topic) (nc_client_published_topics c) @
    map subscribe_again (List.map_filter (\<lambda>(_, sub). upgrade c sub) (nc_subscriptions c))"

text \<open>Its errors are dropped, but not a panic: one of the message list that cannot be written.\<close>

definition on_open :: "('v, 't, 'm, frc_type) ext \<Rightarrow> ('t, 'm, unit) client_act" where
  "on_open E =
    try_bind (modify (\<lambda>c. c\<lparr>nc_announced_topics := hm_insert (-1) time_topic [],
                            nc_subscriptions := filter (\<lambda>(_, sub). is_valid c sub) (nc_subscriptions c)\<rparr>)) (\<lambda>_.
    try_bind (gets opening_messages) (\<lambda>messages.
    try_bind reset_time (\<lambda>_.
    try_bind (ignore_err (update_time E)) (\<lambda>_.
      case json_write_list E messages of
        None \<Rightarrow> panic ''called `Result::unwrap()` on an `Err` value''
      | Some json \<Rightarrow> ignore_err (send_message (WsText json))))))"

section \<open>The handle\<close>

text \<open>\<open>serde_json::to_string(&messages)?\<close>, then the text to the socket task.\<close>

definition send_json :: "('v, 't, 'm, frc_type) ext \<Rightarrow> frc_type nt_message list \<Rightarrow> ('t, 'm, unit) client_act" where
  "send_json E messages =
    (case json_write_list E messages of
       None \<Rightarrow> throw SerdeJson
     | Some json \<Rightarrow> send_message (WsText json))"

definition clean_name :: "string \<Rightarrow> string" where
  "clean_name name =
    (let clean = name;
         clean = str_replace ''$'' '''' clean;
         clean = str_replace ''//'' '''' clean;
         clean = str_replace '':'' ''/'' clean
     in clean)"

definition client_publish_topic ::
    "('v, 't, 'm, frc_type) ext \<Rightarrow> string \<Rightarrow> frc_type \<Rightarrow> publish_properties option \<Rightarrow>
      ('t, 'm, frc_type published_topic) client_act"
where
  "client_publish_topic E name topic_type properties =
    try_bind new_topic_id (\<lambda>pubuid.
      let clean = clean_name name;
          publish_message =
            Publish \<lparr>pt_name = clean, pt_pubuid = pubuid, pt_type = topic_type, pt_properties = properties\<rparr>;
          messages =
            (case properties of
               Some properties \<Rightarrow>
                 [publish_message, SetProperties \<lparr>sp_name = clean, sp_update = properties\<rparr>]
             | None \<Rightarrow> [publish_message]);
          topic =
            \<lparr>pd_name = clean, pd_pubuid = pubuid, pd_type = topic_type, pd_properties = properties\<rparr>
      in try_bind (send_json E messages) (\<lambda>_.
         try_bind (modify (\<lambda>c. c\<lparr>nc_client_published_topics :=
                             hm_insert pubuid topic (nc_client_published_topics c)\<rparr>)) (\<lambda>_.
         ret topic)))"

definition client_unpublish ::
    "('v, 't, 'm, frc_type) ext \<Rightarrow> frc_type published_topic \<Rightarrow> ('t, 'm, unit) client_act"
where
  "client_unpublish E topic = send_json E [as_unpublish topic]"

definition subscribe_w_options ::
    "('v, 't, 'm, frc_type) ext \<Rightarrow> string list \<Rightarrow> subscription_options option \<Rightarrow>
      ('t, 'm, subscription_stream) client_act"
where
  "subscribe_w_options E topic_names options =
    try_bind new_sub_id (\<lambda>subuid.
    try_bind (send_json E [Subscribe \<lparr>sb_subuid = subuid, sb_topics = set topic_names, sb_options = options\<rparr>]) (\<lambda>_.
    (\<lambda>c. let r = nc_next_ref c
         in (Ok \<lparr>ss_data = r, ss_receiver = r\<rparr>,
             c\<lparr>nc_next_ref := r + 1,
               nc_arcs := (nc_arcs c)
                 (r := \<lparr>arc_strong = 1,
                        arc_data = \<lparr>sn_subuid = subuid, sn_topics = set topic_names, sn_options = options\<rparr>\<rparr>),
               nc_chans := (nc_chans c)(r := \<lparr>sc_queue = [], sc_rx_open = True\<rparr>),
               nc_subscriptions :=
                 hm_insert subuid \<lparr>is_data = r, is_sender = r\<rparr> (nc_subscriptions c)\<rparr>))))"

definition client_subscribe ::
    "('v, 't, 'm, frc_type) ext \<Rightarrow> string list \<Rightarrow> ('t, 'm, subscription_stream) client_act"
where
  "client_subscribe E topic_names = subscribe_w_options E topic_names None"

text \<open>The stream is consumed: its \<open>Drop\<close> runs on every way out of the function.\<close>

definition client_unsubscribe ::
    "('v, 't, 'm, frc_type) ext \<Rightarrow> subscription_stream \<Rightarrow> ('t, 'm, unit) client_act"
where
  "client_unsubscribe E stream c =
    (let data = arc_data (nc_arcs c (ss_data stream));
         (r, c') =
           try_bind (send_json E [as_unsubscribe data]) (\<lambda>_.
             modify (\<lambda>c. c\<lparr>nc_subscriptions := hm_remove (sn_subuid data) (nc_subscriptions c)\<rparr>)) c
     in (r, drop_stream stream c'))"

definition handle_publish_value_w_timestamp ::
    "('v, 't, 'm, frc_type) ext \<Rightarrow> frc_type published_topic \<Rightarrow> u32 \<Rightarrow> 'm \<Rightarrow> ('t, 'm, unit) client_act"
where
  "handle_publish_value_w_timestamp E topic timestamp value =
    publish_value_w_timestamp E (UnsignedInt (pd_pubuid topic)) (pd_type topic) timestamp value"

definition handle_publish_value ::
    "('v, 't, 'm, frc_type) ext \<Rightarrow> frc_type published_topic \<Rightarrow> 'm \<Rightarrow> ('t, 'm, unit) client_act"
where
  "handle_publish_value E topic value =
    publish_value E (UnsignedInt (pd_pubuid topic)) (pd_type topic) value"

definition use_announced_topics :: "((i32, frc_type topic) hmap \<Rightarrow> 'a) \<Rightarrow> ('t, 'm) client \<Rightarrow> 'a" where
  "use_announced_topics f c = f (nc_announced_topics c)"

definition handle_set_properties :: "('t, 'm, unit) client_act" where
  "handle_set_properties = panic ''not yet implemented''"

end
