(* ===== verification/Client_Socket.thy ===== *)
theory Client_Socket
  imports Client_Ops
begin

text \<open>
  What the socket task of the client does (\<open>handle_message\<close> and the functions after it in
  \<open>src/client/inner.rs\<close>): messages of the server, values for the subscribers, the end of a
  connection and the attempts at a new one, and the start of the client.
\<close>

section \<open>Values of the server\<close>

text \<open>
  \<open>try_send\<close> to the channel of a subscription: it fails when the channel is full or the receiver
  is gone.
\<close>

definition try_send :: "nat \<Rightarrow> 'm message_data \<Rightarrow> ('t, 'm) client \<Rightarrow> bool \<times> ('t, 'm) client" where
  "try_send r message c =
    (let ch = nc_chans c r
     in if sc_rx_open ch \<and> length (sc_queue ch) < SUB_CAPACITY
        then (True, c\<lparr>nc_chans := (nc_chans c)(r := ch\<lparr>sc_queue := sc_queue ch @ [message]\<rparr>)\<rparr>)
        else (False, c))"

text \<open>
  The body of \<open>retain\<close>: whether the subscription stays, and the message sent on the way.
\<close>

definition offer ::
    "frc_type topic \<Rightarrow> 'm message_data \<Rightarrow> internal_sub \<Rightarrow> ('t, 'm) client \<Rightarrow> bool \<times> ('t, 'm) client"
where
  "offer topic message sub c =
    (if \<not> is_valid c sub then (False, c)
     else if matches_topic c sub topic then try_send (is_sender sub) message c
     else (True, c))"

fun offer_all ::
    "frc_type topic \<Rightarrow> 'm message_data \<Rightarrow> (i32, internal_sub) hmap \<Rightarrow> ('t, 'm) client \<Rightarrow>
      (i32, internal_sub) hmap \<times> ('t, 'm) client"
where
  "offer_all topic message [] c = ([], c)"
| "offer_all topic message ((subuid, sub) # subs) c =
     (let (stays, c1) = offer topic message sub c;
          (kept, c2) = offer_all topic message subs c1
      in (if stays then (subuid, sub) # kept else kept, c2))"

definition send_value_to_subscriber ::
    "frc_type topic \<Rightarrow> u32 \<Rightarrow> frc_type \<Rightarrow> 'm \<Rightarrow> ('t, 'm, unit) client_act"
where
  "send_value_to_subscriber topic timestamp_micros type data c =
    (let message = \<lparr>md_topic_name = t_name topic, md_timestamp = timestamp_micros, md_type = type, md_data = data\<rparr>;
         (kept, c') = offer_all topic message (nc_subscriptions c) c
     in (Ok (), c'\<lparr>nc_subscriptions := kept\<rparr>))"

definition handle_value :: "('v, 't, 'm, frc_type) ext \<Rightarrow> 'm list \<Rightarrow> ('t, 'm, unit) client_act" where
  "handle_value E array =
    (if length array \<noteq> 4 then ret ()
     else
       (let id_opt = map_option ucast (rmpv_as_i64 E (array ! 0)) :: i32 option;
            timestamp_micros_opt = rmpv_as_u64 E (array ! 1);
            type_idx_opt = rmpv_as_u64 E (array ! 2);
            data = array ! 3
        in case id_opt of
             None \<Rightarrow> ret ()
           | Some topic_id \<Rightarrow>
               (case timestamp_micros_opt of
                  None \<Rightarrow> ret ()
                | Some timestamp_micros \<Rightarrow>
                    if 0 \<le> sint topic_id
                    then
                      (case type_idx_opt of
                         None \<Rightarrow> ret ()
                       | Some type_idx \<Rightarrow>
                           (case from_u8 (ucast type_idx) of
                              None \<Rightarrow> ret ()
                            | Some type \<Rightarrow>
                                (\<lambda>c. case map_of (nc_announced_topics c) topic_id of
                                       None \<Rightarrow> (Ok (), c)
                                     | Some topic \<Rightarrow>
                                         send_value_to_subscriber topic (ucast timestamp_micros) type data c)))
                    else if topic_id = -1
                    then
                      try_bind (handle_new_timestamp timestamp_micros (rmpv_as_i64 E data)) (\<lambda>done.
                        case done of
                          Some _ \<Rightarrow> ret ()
                        | None \<Rightarrow>
                            try_bind instant_now (\<lambda>now.
                            try_bind (modify (\<lambda>c. c\<lparr>nc_start_instant := now\<rparr>)) (\<lambda>_.
                            try_bind (ignore_err (update_time E)) (\<lambda>_.
                            try_bind (handle_new_timestamp timestamp_micros (rmpv_as_i64 E data)) (\<lambda>_.
                            ret ())))))
                    else ret ())))"

section \<open>Messages of the server\<close>

definition handle_announce :: "frc_type announce_msg \<Rightarrow> ('t, 'm, unit) client_act" where
  "handle_announce a =
    try_bind (modify (\<lambda>c.
      if an_id a \<in> hm_keys (nc_announced_topics c) then c
      else c\<lparr>nc_announced_topics :=
               hm_insert (an_id a)
                 \<lparr>t_name = an_name a, t_type = an_type a, t_properties = Some (an_properties a)\<rparr>
                 (nc_announced_topics c)\<rparr>)) (\<lambda>_ c.
    case map_of (nc_announced_topics c) (an_id a) of
      None \<Rightarrow> (Panic ''called `Option::unwrap()` on a `None` value'', c)
    | Some topic \<Rightarrow> call_back (OnAnnounce topic) c)"

definition handle_un_announce :: "un_announce_msg \<Rightarrow> ('t, 'm, unit) client_act" where
  "handle_un_announce u =
    try_bind (gets (\<lambda>c. map_of (nc_announced_topics c) (ua_id u))) (\<lambda>removed.
    try_bind (modify (\<lambda>c. c\<lparr>nc_announced_topics := hm_remove (ua_id u) (nc_announced_topics c)\<rparr>)) (\<lambda>_.
    call_back (OnUnannounce removed)))"

fun handle_nt_message :: "frc_type nt_message \<Rightarrow> ('t, 'm, unit) client_act" where
  "handle_nt_message (Announce a) = handle_announce a"
| "handle_nt_message (UnAnnounce u) = handle_un_announce u"
| "handle_nt_message (Properties _) = ret ()"
| "handle_nt_message _ = ret ()"

text \<open>\<open>None\<close> is no result of the code: it stands for the fuel of \<open>decode_values\<close> being used up.\<close>

definition handle_message ::
    "('v, 't, 'm, frc_type) ext \<Rightarrow> 't ws_message \<Rightarrow> ('t, 'm, unit) client_act option"
where
  "handle_message E message =
    (case message of
       WsText text \<Rightarrow>
         Some (case json_read_list E text of
                 None \<Rightarrow> ret ()
               | Some messages \<Rightarrow> for_each handle_nt_message messages)
     | WsBinary msgpack \<Rightarrow>
         map_option
           (for_each (\<lambda>data. case rmpv_as_array E data of
                               Some array \<Rightarrow> handle_value E array
                             | None \<Rightarrow> ret ()))
           (decode_values E (Suc (length msgpack)) msgpack)
     | _ \<Rightarrow> Some (ret ()))"

section \<open>The connection\<close>

text \<open>The request of a connection: its address and the header it adds.\<close>

definition connection_request :: "('t, 'm) client \<Rightarrow> string \<times> string \<times> string" where
  "connection_request c =
    (''ws://'' @ show_socket_addr (nc_server_addr c) @ ''/nt/'' @ nc_identity c,
     ''Sec-WebSocket-Protocol'', ''networktables.first.wpi.edu'')"

text \<open>
  The attempts to connect again, each after the retry interval: an attempt fails (an error or a
  timeout) or succeeds. \<open>None\<close>: still trying when the list of attempts ends.
\<close>

fun reconnect_loop :: "('v, 't, 'm, frc_type) ext \<Rightarrow> bool list \<Rightarrow> ('t, 'm, unit) client_act option" where
  "reconnect_loop E [] = None"
| "reconnect_loop E (False # attempts) = reconnect_loop E attempts"
| "reconnect_loop E (True # attempts) =
     Some (try_bind (on_open E) (\<lambda>_. call_back OnReconnect))"

definition handle_disconnect ::
    "('v, 't, 'm, frc_type) ext \<Rightarrow> bool list \<Rightarrow> ws_error option \<Rightarrow> ('t, 'm) client \<Rightarrow>
      ((nt_error, unit) outcome \<times> ('t, 'm) client) option"
where
  "handle_disconnect E attempts result c =
    (case result of
       None \<Rightarrow> Some (Ok (), c)
     | Some err \<Rightarrow>
         if cf_should_reconnect (nc_config c) err
         then map_option (\<lambda>m. try_bind (call_back OnDisconnect) (\<lambda>_. m) c) (reconnect_loop E attempts)
         else Some (Err (Tungstenite err), c))"

text \<open>
  What wakes the socket task: a message of the server, the end of the stream, an error of the
  socket, or a message of the client, whose sending gives the result that comes with it.
\<close>

datatype 't socket_event =
    FromServer "'t ws_message" | StreamEnded | SocketError ws_error | FromClient "ws_error option"

definition socket_select ::
    "('v, 't, 'm, frc_type) ext \<Rightarrow> bool list \<Rightarrow> 't socket_event \<Rightarrow> ('t, 'm) client \<Rightarrow>
      ((nt_error, unit) outcome \<times> ('t, 'm) client) option"
where
  "socket_select E attempts ev c =
    (case ev of
       FromServer message \<Rightarrow> map_option (\<lambda>m. m c) (handle_message E message)
     | StreamEnded \<Rightarrow> handle_disconnect E attempts (Some AlreadyClosed) c
     | SocketError err \<Rightarrow> handle_disconnect E attempts (Some err) c
     | FromClient sent \<Rightarrow>
         (case nc_socket_queue c of
            [] \<Rightarrow> Some (Ok (), c)
          | _ # rest \<Rightarrow> handle_disconnect E attempts sent (c\<lparr>nc_socket_queue := rest\<rparr>)))"

text \<open>
  One turn of the task: an error is left for the client and ends the task, a panic ends it
  without one. The receiver of the client's messages goes with the task.
\<close>

definition end_task :: "nt_error option \<Rightarrow> ('t, 'm) client \<Rightarrow> ('t, 'm) client" where
  "end_task err c =
    c\<lparr>nc_socket_panic := err, nc_socket_open := False, nc_socket_queue := []\<rparr>"

definition socket_turn ::
    "('v, 't, 'm, frc_type) ext \<Rightarrow> bool list \<Rightarrow> 't socket_event \<Rightarrow> ('t, 'm) client \<Rightarrow> ('t, 'm) client option"
where
  "socket_turn E attempts ev c =
    map_option (\<lambda>(r, c').
        case r of
          Ok _ \<Rightarrow> c'
        | Err err \<Rightarrow> end_task (Some err) c'
        | Panic _ \<Rightarrow> end_task None c')
      (socket_select E attempts ev c)"

section \<open>The start\<close>

definition inner_client ::
    "socket_addr \<Rightarrow> client_config \<Rightarrow> string \<Rightarrow> instant \<Rightarrow> int \<Rightarrow> instant stream \<Rightarrow> ('t, 'm) client"
where
  "inner_client addr config identity now epoch_now clock =
    \<lparr>nc_server_addr = addr, nc_subscriptions = [], nc_announced_topics = [],
     nc_client_published_topics = [], nc_socket_queue = [], nc_socket_open = True,
     nc_socket_panic = None, nc_server_time_offset = 0, nc_sub_counter = 0, nc_topic_counter = 0,
     nc_config = config, nc_start_instant = now, nc_start_time = epoch_now, nc_identity = identity,
     nc_clock = clock, nc_callbacks = [], nc_next_ref = 0,
     nc_arcs = (\<lambda>_. \<lparr>arc_strong = 0,
                     arc_data = \<lparr>sn_subuid = 0, sn_topics = {}, sn_options = None\<rparr>\<rparr>),
     nc_chans = (\<lambda>_. \<lparr>sc_queue = [], sc_rx_open = False\<rparr>)\<rparr>"

text \<open>\<open>attempt\<close> is how the first attempt to connect ends: with an error, or not.\<close>

definition start_client ::
    "('v, 't, 'm, frc_type) ext \<Rightarrow> nt_error option \<Rightarrow> socket_addr \<Rightarrow> client_config \<Rightarrow> string \<Rightarrow>
      instant \<Rightarrow> int \<Rightarrow> instant stream \<Rightarrow> (nt_error, unit) outcome \<times> ('t, 'm) client"
where
  "start_client E attempt addr config identity now epoch_now clock =
    (let c = inner_client addr config identity now epoch_now clock
     in case attempt of
          Some err \<Rightarrow> (Err err, end_task None c)
        | None \<Rightarrow> on_open E c)"

end
