(* ===== verification/Client_Invariant.thy ===== *)
theory Client_Invariant
  imports Client_Socket
begin

text \<open>
  The invariant of the client, the calls that cannot touch it, and the states the client can
  reach.
\<close>

section \<open>The invariant\<close>

text \<open>
  A published topic is kept under its own id and has a clean name. A subscription is kept under
  its own id, which is positive; its data and its channel belong to it alone. As long as the
  data is there the receiver is, and no channel holds more than its capacity.
\<close>

definition published_ok :: "(u32, frc_type published_topic) hmap \<Rightarrow> bool" where
  "published_ok m \<longleftrightarrow>
    (\<forall>k p. map_of m k = Some p \<longrightarrow>
       pd_pubuid p = k \<and> CHR ''$'' \<notin> set (pd_name p) \<and> CHR '':'' \<notin> set (pd_name p))"

definition subs_ok :: "('t, 'm) client \<Rightarrow> bool" where
  "subs_ok c \<longleftrightarrow>
    (\<forall>k sub. map_of (nc_subscriptions c) k = Some sub \<longrightarrow>
       0 < sint k \<and> is_sender sub = is_data sub \<and> is_data sub < nc_next_ref c \<and>
       sn_subuid (arc_data (nc_arcs c (is_data sub))) = k)"

definition refs_ok :: "('t, 'm) client \<Rightarrow> bool" where
  "refs_ok c \<longleftrightarrow>
    (\<forall>r. (sc_rx_open (nc_chans c r) \<longleftrightarrow> arc_strong (nc_arcs c r) \<noteq> 0) \<and>
         arc_strong (nc_arcs c r) \<le> 1 \<and> length (sc_queue (nc_chans c r)) \<le> SUB_CAPACITY \<and>
         (nc_next_ref c \<le> r \<longrightarrow> arc_strong (nc_arcs c r) = 0))"

definition client_inv :: "('t, 'm) client \<Rightarrow> bool" where
  "client_inv c \<longleftrightarrow>
    distinct (map fst (nc_client_published_topics c)) \<and> distinct (map fst (nc_subscriptions c)) \<and>
    0 \<le> sint (nc_sub_counter c) \<and>
    published_ok (nc_client_published_topics c) \<and> subs_ok c \<and> refs_ok c"

lemma subs_okD:
  assumes "client_inv c" and "map_of (nc_subscriptions c) k = Some sub"
  shows "is_sender sub = is_data sub" "is_data sub < nc_next_ref c"
    "sn_subuid (arc_data (nc_arcs c (is_data sub))) = k" "0 < sint k"
  using assms by (auto simp: client_inv_def subs_ok_def)

text \<open>Two subscriptions never share their data.\<close>

lemma subs_refs_distinct:
  "client_inv c \<Longrightarrow> map_of (nc_subscriptions c) k = Some sub \<Longrightarrow>
    map_of (nc_subscriptions c) k' = Some sub' \<Longrightarrow> is_data sub = is_data sub' \<Longrightarrow> k = k'"
  using subs_okD(3) by metis

section \<open>What cannot touch it\<close>

text \<open>
  A predicate that does not look at the socket, the clocks, the announced topics and the
  callbacks. Sending, asking for the time and the messages of the server that are texts keep
  every such predicate.
\<close>

locale socket_insensitive =
  fixes I :: "('t, 'm) client \<Rightarrow> bool"
  assumes frames [intro]:
      "I c \<Longrightarrow> I (c\<lparr>nc_announced_topics := a\<rparr>)" "I c \<Longrightarrow> I (c\<lparr>nc_socket_queue := q\<rparr>)"
      "I c \<Longrightarrow> I (c\<lparr>nc_socket_open := b\<rparr>)" "I c \<Longrightarrow> I (c\<lparr>nc_socket_panic := p\<rparr>)"
      "I c \<Longrightarrow> I (c\<lparr>nc_server_time_offset := off\<rparr>)" "I c \<Longrightarrow> I (c\<lparr>nc_start_instant := i\<rparr>)"
      "I c \<Longrightarrow> I (c\<lparr>nc_clock := k\<rparr>)" "I c \<Longrightarrow> I (c\<lparr>nc_callbacks := cbs\<rparr>)"
begin

lemma keeps_basics:
  "keeps I instant_now" "keeps I (call_back cb)" "keeps I check_task_panic" "keeps I since_epoch"
  "keeps I (add_u64 x y)"
  by (auto simp: triple_def instant_now_def call_back_def check_task_panic_def since_epoch_def
      add_u64_def act_simps split: option.splits)

lemma keeps_send: "keeps I (send_message m)"
  unfolding send_message_def
  by (rule keeps_try_bind [OF keeps_basics(3)]) (auto simp: triple_def)

lemma keeps_client_time: "keeps I client_time"
  unfolding client_time_def by (rule keeps_try_bind [OF keeps_basics(1)]) (auto simp: triple_def)

lemma keeps_server_time: "keeps I server_time"
  unfolding server_time_def
  by (rule keeps_try_bind [OF keeps_client_time])
    (use keeps_basics(5) in \<open>auto simp: triple_def\<close>)

lemma keeps_new_timestamp: "keeps I (handle_new_timestamp st ct)"
  unfolding handle_new_timestamp_def
  by (cases ct) (auto intro!: keeps_intros keeps_client_time split: option.splits)

lemma keeps_reset_time: "keeps I reset_time"
  unfolding reset_time_def by (intro keeps_intros keeps_basics) auto

lemma keeps_publish_value_w_timestamp: "keeps I (publish_value_w_timestamp E uid ty ts v)"
  unfolding publish_value_w_timestamp_def
  by (rule keeps_try_bind [OF keeps_basics(3)])
    (auto intro!: keeps_intros keeps_send split: option.splits outcome.splits)

lemma keeps_publish_value: "keeps I (publish_value E uid ty v)"
  unfolding publish_value_def
  by (intro keeps_intros keeps_server_time keeps_publish_value_w_timestamp)

lemma keeps_update_time: "keeps I (update_time E)"
proof (rule tripleI)
  fix c
  assume "I c"
  have "keeps I (try_bind client_time (\<lambda>t. publish_value_w_timestamp E NegativeOne ty 0 (rmpv_of_u64 E t)))" for ty
    by (rule keeps_try_bind [OF keeps_client_time keeps_publish_value_w_timestamp])
  with \<open>I c\<close> show "I (snd (update_time E c))"
    by (simp add: update_time_def triple_def split: option.splits)
qed

lemma keeps_send_json: "keeps I (send_json E ms)"
  unfolding send_json_def by (auto intro!: keeps_intros keeps_send split: option.splits)

lemma ended: "I c \<Longrightarrow> I (end_task err c)"
  unfolding end_task_def by (intro frames)

lemma keeps_nt_message: "keeps I (handle_nt_message m)"
proof -
  have "keeps I (handle_announce a)" for a
    unfolding handle_announce_def
    by (rule keeps_try_bind [OF keeps_modify])
      (use keeps_basics(2) in \<open>auto simp: triple_def split: option.splits\<close>)
  moreover have "keeps I (handle_un_announce u)" for u
    unfolding handle_un_announce_def by (intro keeps_intros keeps_basics) auto
  ultimately show ?thesis by (cases m) (auto intro: keeps_intros)
qed

end

section \<open>What the socket task cannot touch\<close>

text \<open>
  The socket task also delivers values and gives up subscriptions. A predicate that survives
  both is kept by every turn of the task.
\<close>

locale task_insensitive = socket_insensitive I
  for I :: "('t, 'm) client \<Rightarrow> bool" +
  assumes fewer: "I c \<Longrightarrow> subseq subs (nc_subscriptions c) \<Longrightarrow> I (c\<lparr>nc_subscriptions := subs\<rparr>)"
    and sent: "I c \<Longrightarrow> sc_rx_open (nc_chans c r) \<Longrightarrow> length (sc_queue (nc_chans c r)) < SUB_CAPACITY \<Longrightarrow>
      I (c\<lparr>nc_chans := (nc_chans c)(r := (nc_chans c r)\<lparr>sc_queue := sc_queue (nc_chans c r) @ [m]\<rparr>)\<rparr>)"
begin

lemma keeps_on_open: "keeps I (on_open E)"
proof -
  have "I c \<Longrightarrow> I (c\<lparr>nc_announced_topics := a, nc_subscriptions := filter P (nc_subscriptions c)\<rparr>)" for c a P
    using fewer [of "c\<lparr>nc_announced_topics := a\<rparr>" "filter P (nc_subscriptions c)"] by (simp add: frames)
  then show ?thesis
    unfolding on_open_def
    by (auto intro!: keeps_intros keeps_reset_time keeps_update_time keeps_send split: option.splits)
qed

lemma offered: "I c \<Longrightarrow> I (snd (offer topic m sub c))"
  by (auto simp: offer_def try_send_def Let_def sent)

lemma offered_all:
  assumes "I c"
  shows "I (snd (offer_all topic m subs c))"
  using assms
proof (induction subs arbitrary: c)
  case (Cons e subs)
  obtain k sub where e: "e = (k, sub)" by fastforce
  obtain b d where "offer topic m sub c = (b, d)" by fastforce
  moreover from this Cons.prems have "I d" using offered by (metis snd_conv)
  ultimately show ?case using Cons.IH [of d] e by (auto split: prod.splits)
qed simp

lemma offered_subseq: "subseq (fst (offer_all topic m subs c)) subs"
proof (induction subs arbitrary: c)
  case (Cons e subs)
  obtain k sub where e: "e = (k, sub)" by fastforce
  obtain b d where "offer topic m sub c = (b, d)" by fastforce
  with Cons.IH [of d] e show ?case by (auto split: prod.splits)
qed simp

lemma offered_keeps_subs: "nc_subscriptions (snd (offer_all topic m subs c)) = nc_subscriptions c"
proof (induction subs arbitrary: c)
  case (Cons e subs)
  obtain k sub where e: "e = (k, sub)" by fastforce
  obtain b d where o: "offer topic m sub c = (b, d)" by fastforce
  then have "nc_subscriptions d = nc_subscriptions c"
    by (auto simp: offer_def try_send_def Let_def split: if_splits)
  with Cons.IH [of d] e o show ?case by (auto split: prod.splits)
qed simp

lemma keeps_send_value: "keeps I (send_value_to_subscriber topic ts ty v)"
proof (rule tripleI)
  fix c
  assume "I c"
  let ?m = "\<lparr>md_topic_name = t_name topic, md_timestamp = ts, md_type = ty, md_data = v\<rparr>"
  obtain kept d where run: "offer_all topic ?m (nc_subscriptions c) c = (kept, d)" by fastforce
  from offered_all [OF \<open>I c\<close>, of topic ?m "nc_subscriptions c"]
    offered_subseq [of topic ?m "nc_subscriptions c" c]
    offered_keeps_subs [of topic ?m "nc_subscriptions c" c] run
  have "I d" "subseq kept (nc_subscriptions d)" by simp_all
  with run show "I (snd (send_value_to_subscriber topic ts ty v c))"
    by (simp add: send_value_to_subscriber_def fewer)
qed

lemma keeps_handle_value: "keeps I (handle_value E array)"
proof -
  have delivery: "keeps I (\<lambda>c. case map_of (nc_announced_topics c) i of None \<Rightarrow> (Ok (), c)
      | Some topic \<Rightarrow> send_value_to_subscriber topic ts ty v c)" for i ts ty v
    using keeps_send_value by (auto simp: triple_def split: option.splits)
  have set_start: "keeps I (modify (\<lambda>c. c\<lparr>nc_start_instant := i\<rparr>))" for i
    by (rule keeps_modify) (rule frames)
  show ?thesis
    unfolding handle_value_def Let_def
    by (auto intro!: keeps_intros delivery set_start keeps_new_timestamp keeps_basics keeps_update_time
        split: option.splits)
qed

lemma keeps_handle_message: "handle_message E message = Some m \<Longrightarrow> keeps I m"
  unfolding handle_message_def
  by (auto intro!: keeps_intros keeps_nt_message keeps_handle_value split: ws_message.splits option.splits)

lemma keeps_reconnect_loop: "reconnect_loop E attempts = Some m \<Longrightarrow> keeps I m"
  by (induction E attempts rule: reconnect_loop.induct)
    (auto intro!: keeps_intros keeps_on_open keeps_basics)

lemma disconnected:
  assumes "I c" and "handle_disconnect E attempts result c = Some (r, d)"
  shows "I d"
proof (cases result)
  case (Some err)
  show ?thesis
  proof (cases "cf_should_reconnect (nc_config c) err")
    case True
    with assms(2) Some obtain m where m: "reconnect_loop E attempts = Some m"
      and "try_bind (call_back OnDisconnect) (\<lambda>_. m) c = (r, d)"
      by (auto simp: handle_disconnect_def)
    then have d: "d = snd (try_bind (call_back OnDisconnect) (\<lambda>_. m) c)" by simp
    have "keeps I (try_bind (call_back OnDisconnect) (\<lambda>_. m))"
      by (intro keeps_intros keeps_basics keeps_reconnect_loop [OF m])
    from keepsD [OF this \<open>I c\<close>] d show ?thesis by simp
  qed (use assms Some in \<open>auto simp: handle_disconnect_def\<close>)
qed (use assms in \<open>auto simp: handle_disconnect_def\<close>)

lemma turned:
  assumes "I c" and "socket_turn E attempts ev c = Some d"
  shows "I d"
proof -
  from assms(2) obtain r c' where sel: "socket_select E attempts ev c = Some (r, c')"
    and d: "d = (case r of Ok _ \<Rightarrow> c' | Err err \<Rightarrow> end_task (Some err) c' | Panic _ \<Rightarrow> end_task None c')"
    by (auto simp: socket_turn_def)
  have "I c'"
  proof (cases ev)
    case (FromServer message)
    with sel obtain m where m: "handle_message E message = Some m" and "m c = (r, c')"
      by (auto simp: socket_select_def)
    with keepsD [OF keeps_handle_message [OF m] assms(1)] show ?thesis by (metis snd_conv)
  next
    case (FromClient sent)
    then show ?thesis
      using sel assms(1) disconnected [OF frames(2) [OF assms(1)]]
      by (auto simp: socket_select_def split: list.splits)
  qed (use sel disconnected [OF assms(1)] in \<open>auto simp: socket_select_def\<close>)
  with d ended show ?thesis by (cases r) auto
qed

end

end
