(* ===== verification/Client_Runs.thy ===== *)
theory Client_Runs
  imports Client_Invariant
begin

text \<open>
  Every operation of the client keeps the invariant, and the states the client can reach by
  them, in any order.
\<close>

section \<open>The invariant is kept\<close>

lemma subseq_in_set: "subseq xs ys \<Longrightarrow> x \<in> set xs \<Longrightarrow> x \<in> set ys"
  by (induction rule: list_emb.induct) auto

lemma distinct_keys_subseq: "subseq xs ys \<Longrightarrow> distinct (map fst ys) \<Longrightarrow> distinct (map fst xs)"
  by (induction rule: list_emb.induct) (auto dest: subseq_in_set)

lemma subseq_map_of:
  assumes "subseq xs ys" and "distinct (map fst ys)" and "map_of xs k = Some v"
  shows "map_of ys k = Some v"
  using map_of_is_SomeI [OF assms(2) subseq_in_set [OF assms(1) map_of_SomeD [OF assms(3)]]] .

interpretation client: task_insensitive client_inv
proof unfold_locales
  fix c :: "('t, 'm) client" and subs
  assume inv: "client_inv c" and sub: "subseq subs (nc_subscriptions c)"
  from inv have d: "distinct (map fst (nc_subscriptions c))" by (simp add: client_inv_def)
  have "subs_ok (c\<lparr>nc_subscriptions := subs\<rparr>)"
    unfolding subs_ok_def
    using subs_okD [OF inv subseq_map_of [OF sub d]] by simp
  with inv distinct_keys_subseq [OF sub d] show "client_inv (c\<lparr>nc_subscriptions := subs\<rparr>)"
    by (simp add: client_inv_def refs_ok_def)
qed (auto simp: client_inv_def subs_ok_def refs_ok_def)

lemma checked_add_i32_positive:
  assumes "0 \<le> sint a"
  shows "0 < sint (unwrap_or 1 (checked_add_i32 a 1))"
proof (cases "sint a + 1 < 2 ^ 31")
  case True
  with assms have "sint (a + 1) = sint a + 1"
    by (simp add: sint_word_ariths signed_take_bit_int_eq_self)
  with True assms show ?thesis by (simp add: checked_add_i32_def)
next
  case False
  then show ?thesis by (simp add: checked_add_i32_def)
qed

lemma inv_new_topic_id: "client_inv c \<Longrightarrow> client_inv (snd (new_topic_id c))"
  by (simp add: new_topic_id_def client_inv_def subs_ok_def refs_ok_def Let_def)

lemma new_sub_id_run:
  assumes "client_inv c"
  shows "\<exists>k. new_sub_id c = (Ok k, c\<lparr>nc_sub_counter := k\<rparr>) \<and> 0 < sint k \<and>
    client_inv (c\<lparr>nc_sub_counter := k\<rparr>)"
proof -
  from assms checked_add_i32_positive [of "nc_sub_counter c"]
  have "0 < sint (unwrap_or 1 (checked_add_i32 (nc_sub_counter c) 1))" by (simp add: client_inv_def)
  with assms show ?thesis
    by (simp add: new_sub_id_def client_inv_def subs_ok_def refs_ok_def Let_def)
qed

section \<open>Clean names\<close>

lemma str_replace_chars: "c \<in> set (str_replace pat by s) \<Longrightarrow> c \<in> set by \<or> c \<in> set s"
proof (induction pat "by" s rule: str_replace.induct)
  case (2 pat by' d cs)
  show ?case
  proof (cases "pat \<noteq> [] \<and> prefix pat (d # cs)")
    case True
    with 2 set_drop_subset [of "length pat" "d # cs"] show ?thesis by auto
  next
    case False
    with 2 show ?thesis by (auto split: if_splits)
  qed
qed simp

lemma str_replace_char_gone: "d \<notin> set by \<Longrightarrow> d \<notin> set (str_replace [d] by s)"
  by (induction s) auto

lemma clean_name_chars: "CHR ''$'' \<notin> set (clean_name n)" "CHR '':'' \<notin> set (clean_name n)"
proof -
  have "CHR ''$'' \<notin> set (str_replace ''$'' '''' n)" by (rule str_replace_char_gone) simp
  then show "CHR ''$'' \<notin> set (clean_name n)"
    unfolding clean_name_def Let_def by (auto dest!: str_replace_chars)
  show "CHR '':'' \<notin> set (clean_name n)"
    unfolding clean_name_def Let_def by (rule str_replace_char_gone) simp
qed

section \<open>The operations of the handle\<close>

lemma inv_publish_topic: "keeps client_inv (client_publish_topic E n ty props)"
proof -
  have add: "client_inv c \<Longrightarrow> pd_pubuid p = k \<Longrightarrow> pd_name p = clean_name n \<Longrightarrow>
      client_inv (c\<lparr>nc_client_published_topics := hm_insert k p (nc_client_published_topics c)\<rparr>)" for c k p
    by (auto simp: client_inv_def published_ok_def subs_ok_def refs_ok_def clean_name_chars distinct_update)
  have "keeps client_inv (new_topic_id :: ('t, 'm, u32) client_act)"
    by (rule tripleI) (rule inv_new_topic_id)
  then show ?thesis
    unfolding client_publish_topic_def Let_def
    by (auto intro!: keeps_intros client.keeps_send_json add)
qed

lemma inv_unpublish: "keeps client_inv (client_unpublish E topic)"
  unfolding client_unpublish_def by (rule client.keeps_send_json)

lemma inv_add_subscription:
  assumes "client_inv c" and "0 < sint k"
  shows "client_inv (c\<lparr>nc_next_ref := nc_next_ref c + 1,
      nc_arcs := (nc_arcs c)(nc_next_ref c :=
        \<lparr>arc_strong = 1, arc_data = \<lparr>sn_subuid = k, sn_topics = ns, sn_options = opts\<rparr>\<rparr>),
      nc_chans := (nc_chans c)(nc_next_ref c := \<lparr>sc_queue = [], sc_rx_open = True\<rparr>),
      nc_subscriptions :=
        hm_insert k \<lparr>is_data = nc_next_ref c, is_sender = nc_next_ref c\<rparr> (nc_subscriptions c)\<rparr>)"
proof -
  note old = subs_okD [OF assms(1)]
  have "map_of (nc_subscriptions c) j = Some sub \<Longrightarrow> is_data sub \<noteq> nc_next_ref c" for j sub
    using old(2) by fastforce
  with assms old show ?thesis
    by (auto simp: client_inv_def subs_ok_def refs_ok_def distinct_update less_SucI SUB_CAPACITY_def)
qed

lemma inv_subscribe:
  fixes E :: "('v, 't, 'm, frc_type) ext"
  shows "keeps client_inv (subscribe_w_options E ns opts)"
proof (rule tripleI)
  fix c :: "('t, 'm) client"
  assume "client_inv c"
  then obtain k where k: "new_sub_id c = (Ok k, c\<lparr>nc_sub_counter := k\<rparr>)" "0 < sint k"
    and inv: "client_inv (c\<lparr>nc_sub_counter := k\<rparr>)"
    using new_sub_id_run by blast
  let ?send = "send_json E [Subscribe \<lparr>sb_subuid = k, sb_topics = set ns, sb_options = opts\<rparr>]"
  obtain r d where run: "?send (c\<lparr>nc_sub_counter := k\<rparr>) = (r, d)" by fastforce
  with keepsD [OF client.keeps_send_json inv] have "client_inv d" by (metis snd_conv)
  with k run inv_add_subscription [OF this k(2)] show "client_inv (snd (subscribe_w_options E ns opts c))"
    by (cases r) (simp_all add: subscribe_w_options_def try_bind_def Let_def)
qed

lemma inv_drop_stream:
  assumes "client_inv c" and "ss_data st = ss_receiver st"
  shows "client_inv (drop_stream st c)"
proof -
  have "subs_ok (drop_stream st c)"
    unfolding subs_ok_def
  proof (intro allI impI)
    fix k sub
    assume "map_of (nc_subscriptions (drop_stream st c)) k = Some sub"
    with subs_okD [OF assms(1), of k sub] show "0 < sint k \<and> is_sender sub = is_data sub \<and>
        is_data sub < nc_next_ref (drop_stream st c) \<and>
        sn_subuid (arc_data (nc_arcs (drop_stream st c) (is_data sub))) = k"
      by (auto simp: drop_stream_def)
  qed
  moreover have "refs_ok (drop_stream st c)"
    using assms by (fastforce simp: drop_stream_def client_inv_def refs_ok_def)
  ultimately show ?thesis using assms(1) by (simp add: client_inv_def drop_stream_def)
qed

lemma inv_unsubscribe:
  assumes "client_inv c" and "ss_data st = ss_receiver st"
  shows "client_inv (snd (client_unsubscribe E st c))"
proof -
  let ?data = "arc_data (nc_arcs c (ss_data st))"
  let ?act = "try_bind (send_json E [as_unsubscribe ?data]) (\<lambda>_.
      modify (\<lambda>c. c\<lparr>nc_subscriptions := hm_remove (sn_subuid ?data) (nc_subscriptions c)\<rparr>))"
  have "keeps client_inv (modify (\<lambda>c. c\<lparr>nc_subscriptions := hm_remove k (nc_subscriptions c)\<rparr>))" for k
    by (rule keeps_modify) (auto intro!: client.fewer simp: AList.delete_eq)
  then have "keeps client_inv ?act" by (rule keeps_try_bind [OF client.keeps_send_json])
  from keepsD [OF this assms(1)] inv_drop_stream [OF _ assms(2)] show ?thesis
    by (simp add: client_unsubscribe_def Let_def split_beta)
qed

lemma inv_try_next:
  assumes "client_inv c"
  shows "client_inv (snd (try_next st c))"
proof (cases "sc_queue (nc_chans c (ss_receiver st))")
  case (Cons m rest)
  from assms have "length (sc_queue (nc_chans c (ss_receiver st))) \<le> SUB_CAPACITY"
    by (simp add: client_inv_def refs_ok_def)
  with assms Cons show ?thesis
    by (auto simp: try_next_def client_inv_def subs_ok_def refs_ok_def)
qed (use assms in \<open>simp add: try_next_def\<close>)

section \<open>Reachable states\<close>

text \<open>
  What can happen to a client: a call of the user, the timer that asks for the time, a turn of
  the socket task, while it runs, or the drop of a stream. A call of the user may name any topic
  and any stream of its own.
\<close>

inductive client_step ::
    "('v, 't, 'm, frc_type) ext \<Rightarrow> ('t, 'm) client \<Rightarrow> ('t, 'm) client \<Rightarrow> bool"
  for E
where
  cs_publish: "client_step E c (snd (client_publish_topic E name ty props c))"
| cs_unpublish: "client_step E c (snd (client_unpublish E topic c))"
| cs_subscribe: "client_step E c (snd (subscribe_w_options E names opts c))"
| cs_unsubscribe: "ss_data st = ss_receiver st \<Longrightarrow> client_step E c (snd (client_unsubscribe E st c))"
| cs_drop: "ss_data st = ss_receiver st \<Longrightarrow> client_step E c (drop_stream st c)"
| cs_next: "client_step E c (snd (try_next st c))"
| cs_value_at: "client_step E c (snd (handle_publish_value_w_timestamp E topic ts v c))"
| cs_value: "client_step E c (snd (handle_publish_value E topic v c))"
| cs_server_time: "client_step E c (snd (server_time c))"
| cs_real_time: "client_step E c (snd (real_world_server_time c))"
| cs_timer: "client_step E c (snd (update_time E c))"
| cs_socket: "nc_socket_open c \<Longrightarrow> socket_turn E attempts ev c = Some d \<Longrightarrow> client_step E c d"

inductive client_reachable :: "('v, 't, 'm, frc_type) ext \<Rightarrow> ('t, 'm) client \<Rightarrow> bool" for E where
  cr_start: "client_reachable E (snd (start_client E attempt addr config identity now epoch_now clock))"
| cr_step: "client_reachable E c \<Longrightarrow> client_step E c d \<Longrightarrow> client_reachable E d"

inductive_cases client_stepE: "client_step E c d"

lemma inner_client_inv: "client_inv (inner_client addr config identity now epoch_now clock)"
  by (simp add: inner_client_def client_inv_def published_ok_def subs_ok_def refs_ok_def)

lemma client_step_inv:
  assumes "client_step E c d" and "client_inv c"
  shows "client_inv d"
  using assms(1)
proof (cases rule: client_step.cases)
  case cs_real_time
  have "keeps client_inv real_world_server_time"
    unfolding real_world_server_time_def
    by (intro keeps_intros client.keeps_basics client.keeps_server_time)
  from keepsD [OF this assms(2)] cs_real_time show ?thesis by simp
qed (use assms(2) in \<open>auto intro: client.turned inv_try_next inv_drop_stream inv_unsubscribe
    keepsD [OF inv_publish_topic] keepsD [OF inv_unpublish] keepsD [OF inv_subscribe]
    keepsD [OF client.keeps_server_time] keepsD [OF client.keeps_update_time]
    keepsD [OF client.keeps_publish_value] keepsD [OF client.keeps_publish_value_w_timestamp]
    simp: handle_publish_value_w_timestamp_def handle_publish_value_def\<close>)

lemma client_reachable_inv: "client_reachable E c \<Longrightarrow> client_inv c"
proof (induction rule: client_reachable.induct)
  case (cr_start attempt addr config identity now epoch_now clock)
  have "client_inv (snd (on_open E (inner_client addr config identity now epoch_now clock)))"
    by (rule keepsD [OF client.keeps_on_open inner_client_inv])
  then show ?case
    by (cases attempt) (simp_all add: start_client_def inner_client_inv client.ended Let_def)
qed (rule client_step_inv)

end
