(* ===== verification/Client_Connection.thy ===== *)
theory Client_Connection
  imports Msgpack Client_Runs
begin

text \<open>
  The client while its socket task runs, and after that task has ended: what the calls that
  send leave in the channel to the task, what the opening of a connection restores, and what
  is left of an error.
\<close>

section \<open>While the task runs\<close>

definition alive :: "('t, 'm) client \<Rightarrow> bool" where
  "alive c \<longleftrightarrow> nc_socket_open c \<and> nc_socket_panic c = None"

definition push :: "'t ws_message list \<Rightarrow> ('t, 'm) client \<Rightarrow> ('t, 'm) client" where
  "push ms c = c\<lparr>nc_socket_queue := nc_socket_queue c @ ms\<rparr>"

lemma alive_frames [simp]:
  "alive (push ms c) = alive c" "alive (c\<lparr>nc_clock := k\<rparr>) = alive c"
  "alive (c\<lparr>nc_announced_topics := a\<rparr>) = alive c" "alive (c\<lparr>nc_subscriptions := s\<rparr>) = alive c"
  "alive (c\<lparr>nc_server_time_offset := off\<rparr>) = alive c" "alive (c\<lparr>nc_start_instant := i\<rparr>) = alive c"
  "alive (c\<lparr>nc_callbacks := cbs\<rparr>) = alive c" "alive (c\<lparr>nc_topic_counter := n\<rparr>) = alive c"
  "alive (c\<lparr>nc_sub_counter := m\<rparr>) = alive c" "alive (c\<lparr>nc_client_published_topics := p\<rparr>) = alive c"
  "alive (c\<lparr>nc_socket_queue := q\<rparr>) = alive c"
  by (simp_all add: alive_def push_def)

lemma check_alive: "alive c \<Longrightarrow> check_task_panic c = (Ok (), c)"
  by (simp add: alive_def check_task_panic_def)

lemma send_alive: "alive c \<Longrightarrow> send_message m c = (Ok (), push [m] c)"
  by (simp add: send_message_def try_bind_def check_alive) (simp add: alive_def push_def)

lemma send_json_alive:
  "alive c \<Longrightarrow> json_laws E \<Longrightarrow>
    \<exists>t. send_json E ms c = (Ok (), push [WsText t] c) \<and> json_write_list E ms = Some t \<and> json_read_list E t = Some ms"
  by (auto simp: send_json_def send_alive json_laws_def split: option.splits) (metis option.sel option.simps(3))

text \<open>The bytes of a value the client sends.\<close>

definition value_bytes :: "('v, 't, 'm, frc_type) ext \<Rightarrow> unsigned_int_or_negative_one \<Rightarrow> frc_type \<Rightarrow> u32 \<Rightarrow> 'm \<Rightarrow> u8 list" where
  "value_bytes E uid ty ts v =
    the (rmp_array_len E 4) @ the (write_to_buf E uid) @ the (rmp_uint E (ucast ts)) @
    the (rmp_u8 E (as_u8 ty)) @ the (rmpv_write E v)"

lemma publish_value_alive:
  assumes "alive c" and "rmp_total E"
  shows "publish_value_w_timestamp E uid ty ts v c = (Ok (), push [WsBinary (value_bytes E uid ty ts v)] c)"
proof -
  from assms(2) have "rmp_array_len E 4 \<noteq> None" unfolding rmp_total_def by blast
  moreover from assms(2) have "write_to_buf E uid \<noteq> None"
    unfolding rmp_total_def by (cases uid) (simp_all only: write_to_buf.simps, blast+)
  ultimately obtain a u where a: "rmp_array_len E 4 = Some a" and u: "write_to_buf E uid = Some u"
    by auto
  from assms(2) have "None \<notin> set [rmp_uint E (ucast ts), rmp_u8 E (as_u8 ty), rmpv_write E v]"
    unfolding rmp_total_def by (auto, metis+)
  from write_all_total [OF this] a u assms(1) show ?thesis
    by (simp add: publish_value_w_timestamp_def try_bind_def check_alive send_alive value_bytes_def)
qed

lemma client_time_run:
  "client_time c = (Ok (micros_since (shd (nc_clock c)) (nc_start_instant c)), c\<lparr>nc_clock := stl (nc_clock c)\<rparr>)"
  by (simp add: client_time_def instant_now_def try_bind_def)

text \<open>The request for the time: its bytes carry the time of the client.\<close>

definition time_request :: "('v, 't, 'm, frc_type) ext \<Rightarrow> frc_type \<Rightarrow> u64 \<Rightarrow> u8 list" where
  "time_request E ty t = value_bytes E NegativeOne ty 0 (rmpv_of_u64 E t)"

lemma update_time_alive:
  assumes "alive c" and "rmp_total E" and "map_of (nc_announced_topics c) (-1) = Some tt"
  shows "update_time E c =
    (Ok (), push [WsBinary (time_request E (t_type tt) (micros_since (shd (nc_clock c)) (nc_start_instant c)))]
       (c\<lparr>nc_clock := stl (nc_clock c)\<rparr>))"
  using assms(3)
  by (simp add: update_time_def try_bind_Ok [OF client_time_run] publish_value_alive assms(1,2) time_request_def)

section \<open>The opening of a connection\<close>

definition reopened :: "('v, 't, 'm, frc_type) ext \<Rightarrow> ('t, 'm) client \<Rightarrow> ('t, 'm) client" where
  "reopened E c =
    c\<lparr>nc_announced_topics := [(-1, time_topic)],
      nc_subscriptions := filter (\<lambda>(_, sub). is_valid c sub) (nc_subscriptions c),
      nc_server_time_offset := 0, nc_start_instant := shd (nc_clock c),
      nc_clock := stl (stl (nc_clock c))\<rparr>"

definition opening_time :: "('t, 'm) client \<Rightarrow> u64" where
  "opening_time c = micros_since (shd (stl (nc_clock c))) (shd (nc_clock c))"

text \<open>The messages only name subscriptions whose data is still there.\<close>

definition restored :: "('t, 'm) client \<Rightarrow> frc_type nt_message list" where
  "restored c =
    map (\<lambda>(_, topic). publish_again topic) (nc_client_published_topics c) @
    map (\<lambda>(_, sub). subscribe_again (arc_data (nc_arcs c (is_data sub))))
      (filter (\<lambda>(_, sub). is_valid c sub) (nc_subscriptions c))"

lemma opening_messages_restored:
  "opening_messages (c\<lparr>nc_announced_topics := a,
      nc_subscriptions := filter (\<lambda>(_, sub). is_valid c sub) (nc_subscriptions c)\<rparr>) = restored c"
proof -
  have "map subscribe_again (List.map_filter (\<lambda>(_, sub). upgrade c sub) (filter (\<lambda>(_, sub). is_valid c sub) subs)) =
      map (\<lambda>(_, sub). subscribe_again (arc_data (nc_arcs c (is_data sub)))) (filter (\<lambda>(_, sub). is_valid c sub) subs)"
    for subs :: "(i32, internal_sub) hmap"
    by (induction subs) (auto simp: List.map_filter_def upgrade_def)
  then show ?thesis
    by (simp add: opening_messages_def restored_def upgrade_def is_valid_def cong: if_cong)
qed

lemma on_open_alive:
  fixes c :: "('t, 'm) client"
  assumes "alive c" and "rmp_total E" and "json_write_list E (restored c) = Some t"
  shows "on_open E c =
    (Ok (), push [WsBinary (time_request E FrcInt (opening_time c)), WsText t] (reopened E c))"
proof -
  have reset: "reset_time d = (Ok (), d\<lparr>nc_server_time_offset := 0, nc_start_instant := shd (nc_clock d),
      nc_clock := stl (nc_clock d)\<rparr>)" for d :: "('t, 'm) client"
    by (simp add: reset_time_def try_bind_def instant_now_def act_simps)
  have ask: "try_bind (ignore_err (update_time E)) f d =
      f () (push [WsBinary (time_request E FrcInt (micros_since (shd (nc_clock d)) (nc_start_instant d)))]
        (d\<lparr>nc_clock := stl (nc_clock d)\<rparr>))"
    if "alive d" "map_of (nc_announced_topics d) (-1) = Some time_topic" for d f
    by (rule try_bind_Ok) (simp add: ignore_err_def update_time_alive [OF that(1) assms(2) that(2)] time_topic_def)
  show ?thesis
    using assms(1,3)
    by (simp add: on_open_def opening_messages_restored try_bind_Ok [OF reset] ask ignore_err_def
        send_alive reopened_def push_def opening_time_def)
qed

section \<open>The end of a connection\<close>

lemma reconnect_loop_run:
  "reconnect_loop E attempts =
    (if True \<in> set attempts then Some (try_bind (on_open E) (\<lambda>_. call_back OnReconnect)) else None)"
  by (induction E attempts rule: reconnect_loop.induct) auto

text \<open>What is left of a client after its connection was lost and a new one was made.\<close>

definition reconnected :: "('v, 't, 'm, frc_type) ext \<Rightarrow> 't \<Rightarrow> ('t, 'm) client \<Rightarrow> ('t, 'm) client" where
  "reconnected E t c =
    (push [WsBinary (time_request E FrcInt (opening_time c)), WsText t] (reopened E c))
      \<lparr>nc_callbacks := nc_callbacks c @ [OnDisconnect, OnReconnect]\<rparr>"

lemma handle_disconnect_run:
  fixes c :: "('t, 'm) client"
  assumes "alive c" and "rmp_total E" and "json_write_list E (restored c) = Some t"
    and "cf_should_reconnect (nc_config c) err"
  shows "handle_disconnect E attempts (Some err) c =
    (if True \<in> set attempts then Some (Ok (), reconnected E t c) else None)"
proof -
  let ?c = "c\<lparr>nc_callbacks := nc_callbacks c @ [OnDisconnect]\<rparr>"
  have "restored ?c = restored c"
    by (simp add: restored_def is_valid_def cong: if_cong)
  with on_open_alive [of ?c E t] assms
  have "try_bind (on_open E) (\<lambda>_. call_back OnReconnect) ?c = (Ok (), reconnected E t c)"
    by (simp add: try_bind_Ok call_back_def act_simps reconnected_def push_def reopened_def
        opening_time_def is_valid_def)
  then show ?thesis
    using assms(4)
    by (simp add: handle_disconnect_def reconnect_loop_run call_back_def)
qed

section \<open>After the task has ended\<close>

lemma send_closed:
  "\<not> nc_socket_open c \<Longrightarrow> nc_socket_panic c = None \<Longrightarrow>
    send_message m c = (Panic ''called `Result::unwrap()` on an `Err` value'', c)"
  by (simp add: send_message_def try_bind_def check_task_panic_def)

lemma send_after_error:
  "nc_socket_panic c = Some err \<Longrightarrow> send_message m c = (Err err, c\<lparr>nc_socket_panic := None\<rparr>)"
  by (simp add: send_message_def try_bind_def check_task_panic_def)

lemma update_time_after_error:
  assumes "nc_socket_panic c = Some err" and "map_of (nc_announced_topics c) (-1) = Some tt"
  shows "ignore_err (update_time E) c =
    (Ok (), c\<lparr>nc_clock := stl (nc_clock c), nc_socket_panic := None\<rparr>)"
  using assms
  by (simp add: ignore_err_def update_time_def try_bind_Ok [OF client_time_run]
      publish_value_w_timestamp_def try_bind_def check_task_panic_def)

end
