(* ===== verification/Server_Ids.thy ===== *)
theory Server_Ids
  imports Server_Handles
begin

text \<open>
  The second invariant: the indices in use come from the counters, and the client of the server
  itself is always there. What it gives: a new client or subscription never takes the place of
  one that exists.
\<close>

section \<open>The invariant\<close>

definition ids_inv :: "('v, 't) server \<Rightarrow> bool" where
  "ids_inv s \<longleftrightarrow>
    (\<exists>cl. map_of (clients s) SERVER_CLIENT_IDX = Some cl \<and> cc_sub_ouput cl = None) \<and>
    (\<forall>ci \<in> hm_keys (clients s). ci < c_client_idx (counters s)) \<and>
    (\<forall>ident ci. map_of (client_map s) ident = Some ci \<longrightarrow> ci \<noteq> SERVER_CLIENT_IDX) \<and>
    (\<forall>j \<in> hm_keys (subscriptions s). j < c_sub_idx (counters s))"

lemma ids_invD:
  assumes "ids_inv s"
  shows ids_server: "\<exists>cl. map_of (clients s) SERVER_CLIENT_IDX = Some cl \<and> cc_sub_ouput cl = None"
    and ids_client: "ci \<in> hm_keys (clients s) \<Longrightarrow> ci < c_client_idx (counters s)"
    and ids_mapped: "map_of (client_map s) ident = Some ci \<Longrightarrow> ci \<noteq> SERVER_CLIENT_IDX"
    and ids_sub: "j \<in> hm_keys (subscriptions s) \<Longrightarrow> j < c_sub_idx (counters s)"
  using assms unfolding ids_inv_def by blast+

text \<open>It reads the clients, their map, the subscriptions and two of the counters.\<close>

definition id_fields ::
    "('v, 't) server \<Rightarrow> (client_idx, connected_client) hmap \<times> (client_identity, client_idx) hmap \<times>
      (sub_idx, subscription \<times> client_idx) hmap \<times> client_idx \<times> sub_idx"
where
  "id_fields s =
    (clients s, client_map s, subscriptions s, c_client_idx (counters s), c_sub_idx (counters s))"

lemma id_fields_frames [simp]:
  "id_fields (s\<lparr>pub_count := a\<rparr>) = id_fields s"
  "id_fields (s\<lparr>metatopic_value_map := b\<rparr>) = id_fields s"
  "id_fields (s\<lparr>topic_value_map := c\<rparr>) = id_fields s"
  "id_fields (s\<lparr>client_metatopic_map := d\<rparr>) = id_fields s"
  "id_fields (s\<lparr>callbacks := e\<rparr>) = id_fields s"
  "id_fields (s\<lparr>channels := f\<rparr>) = id_fields s"
  "id_fields (s\<lparr>topics := g\<rparr>) = id_fields s"
  "id_fields (s\<lparr>sub_values := h\<rparr>) = id_fields s"
  "id_fields (s\<lparr>sub_send_timestamps := k\<rparr>) = id_fields s"
  "id_fields (s\<lparr>topic_sub_map := l\<rparr>) = id_fields s"
  "id_fields (s\<lparr>topic_map := m\<rparr>) = id_fields s"
  "id_fields (s\<lparr>kill_cells := n\<rparr>) = id_fields s"
  by (simp_all add: id_fields_def)

lemma ids_inv_cong: "id_fields s = id_fields t \<Longrightarrow> ids_inv s = ids_inv t"
  by (simp add: ids_inv_def id_fields_def)

lemma ids_frame: "ids_inv s \<Longrightarrow> id_fields t = id_fields s \<Longrightarrow> ids_inv t"
  using ids_inv_cong by blast

lemma ids_upd_client:
  assumes "ids_inv s" and "map_of (clients s) ci = Some old" and "cc_sub_ouput cl = cc_sub_ouput old"
  shows "ids_inv (s\<lparr>clients := hm_insert ci cl (clients s)\<rparr>)"
  using assms by (auto simp: ids_inv_def)

interpretation ids: client_insensitive ids_inv
  by unfold_locales (auto intro: ids_upd_client ids_frame simp: id_fields_def)

lemma keeps_ids_frame: "(\<And>s. id_fields (snd (m s)) = id_fields s) \<Longrightarrow> keeps ids_inv m"
  by (rule tripleI) (rule ids_frame)

section \<open>Topics\<close>

lemma next_topic_fields [simp]: "id_fields (snd (on_counters next_topic_idx s)) = id_fields s"
  by (simp add: on_counters_def zoom_def next_topic_idx_def id_fields_def split: option.split)

interpretation ids: registry_insensitive ids_inv
proof unfold_locales
  fix s :: "('v, 't) server" and r s'
  assume "ids_inv s" and "on_counters next_topic_idx s = (r, s')"
  then show "ids_inv s'" using ids_frame [OF _ next_topic_fields] by (metis snd_conv)
next
  fix s s' :: "('v, 't) server" and t :: "string topic" and i
  assume "ids_inv s" and "on_counters next_topic_idx s = (Ok i, s')"
  then have "ids_inv s'" using ids_frame [OF _ next_topic_fields] by (metis snd_conv)
  then show "ids_inv (register_topic i t s')"
    by (rule ids_frame) (simp add: id_fields_def register_topic_def)
qed

lemma remove_topic_fields: "id_fields (snd (remove_topic i s)) = id_fields s"
  by (auto simp: remove_topic_def Let_def id_fields_def split: option.splits)

lemma keeps_ids_remove_topic: "keeps ids_inv (remove_topic i)"
  by (rule keeps_ids_frame) (rule remove_topic_fields)

section \<open>Clients\<close>

lemma drop_publisher_fields: "id_fields (snd (drop_publisher i s)) = id_fields s"
  by (auto simp: drop_publisher_def Let_def remove_topic_fields split: option.splits)

lemma ids_drop_client:
  assumes "ids_inv s" and "idx \<noteq> SERVER_CLIENT_IDX"
  shows "ids_inv (drop_client idx client s)"
  using assms unfolding ids_inv_def drop_client_def by (auto split: option.splits)

lemma ids_disconnect_client:
  fixes s :: "('v, 't) server"
  assumes s: "ids_inv s"
  shows "ids_inv (snd (disconnect_client ident s))"
proof (cases "map_of (client_map s) ident")
  case None
  with s show ?thesis by (simp add: disconnect_client_def)
next
  case (Some idx)
  let ?s1 = "s\<lparr>client_map := hm_remove ident (client_map s)\<rparr>"
  have s1: "ids_inv ?s1" using s by (simp add: ids_inv_def)
  show ?thesis
  proof (cases "map_of (clients s) idx")
    case None
    with Some s1 show ?thesis by (simp add: disconnect_client_def)
  next
    case client: (Some client)
    let ?rest = "\<lambda>_ (s2 :: ('v, 't) server). let s3 = s2\<lparr>client_metatopic_map := hm_remove idx (client_metatopic_map s2)\<rparr>
        in case map_of (client_metatopic_map s2) idx of None \<Rightarrow> (Ok (), s3)
           | Some (p, q) \<Rightarrow> try_bind (remove_topic p) (\<lambda>_. remove_topic q) s3"
    have metas: "keeps ids_inv (try_bind (remove_topic p) (\<lambda>_. remove_topic q))" for p q
      by (intro keeps_intros keeps_ids_remove_topic)
    have s3: "ids_inv s2 \<Longrightarrow> ids_inv (s2\<lparr>client_metatopic_map := hm_remove idx (client_metatopic_map s2)\<rparr>)"
      for s2 :: "('v, 't) server"
      by (erule ids_frame) simp
    have "keeps ids_inv (?rest x)" for x :: unit
      by (rule tripleI) (auto simp: Let_def s3 split: option.splits
          intro: metas [unfolded triple_def, rule_format])
    moreover have "keeps ids_inv (for_each drop_publisher xs)" for xs
      by (intro keeps_intros keeps_ids_frame drop_publisher_fields)
    ultimately have "keeps ids_inv (try_bind (for_each drop_publisher
        (map snd (bm_iter_lr (cc_pubuid_to_topicidx client)))) ?rest)"
      by (intro keeps_try_bind)
    from keepsD [OF this ids_drop_client [OF s1 ids_mapped [OF s Some]]] show ?thesis
      unfolding disconnect_client_def Let_def by (simp add: Some client)
  qed
qed

text \<open>Both counters grow, so what was below them stays below.\<close>

lemma next_client_idx_ids:
  assumes "ids_inv s" and "on_counters next_client_idx s = (Ok ci, t)"
  shows "ids_inv t \<and> ci \<notin> hm_keys (clients s) \<and> ci < c_client_idx (counters t) \<and>
    clients t = clients s"
proof -
  from assms(2) obtain n where n: "checked_add (c_client_idx (counters s)) 1 = Some n"
    and ci: "ci = c_client_idx (counters s)" and t: "t = s\<lparr>counters := (counters s)\<lparr>c_client_idx := n\<rparr>\<rparr>"
    by (auto simp: on_counters_def zoom_def next_idx_cases split: prod.splits)
  note less = checked_add_less [OF n]
  from assms(1) less have "ids_inv t"
    unfolding ids_inv_def t by (auto intro: less_trans)
  with t ci less ids_client [OF assms(1)] show ?thesis by auto
qed

lemma next_client_idx_fails:
  "on_counters next_client_idx s = (r, t) \<Longrightarrow> (\<And>i. r \<noteq> Ok i) \<Longrightarrow> t = s"
  by (auto simp: on_counters_def zoom_def next_client_idx_def split: option.splits)

lemma ids_admit_client:
  assumes "ids_inv s" and "ci \<notin> hm_keys (clients s)" and "ci < c_client_idx (counters s)"
  shows "ids_inv (admit_client ident ci s)"
  using assms unfolding ids_inv_def admit_client_def by (auto simp: Let_def)

lemma keeps_ids_next_client:
  fixes s :: "('v, 't) server"
  assumes "ids_inv s" and "\<And>ci. keeps ids_inv (rest ci)"
  shows "ids_inv (snd (try_bind (on_counters next_client_idx)
    (\<lambda>ci. try_bind (modify (admit_client ident ci)) (\<lambda>_. rest ci)) s))"
proof -
  obtain r t where run: "on_counters next_client_idx s = (r, t)" by fastforce
  show ?thesis
  proof (cases r)
    case (Ok ci)
    from next_client_idx_ids [OF assms(1) run [unfolded Ok]]
    have t: "ids_inv t" "ci \<notin> hm_keys (clients t)" "ci < c_client_idx (counters t)"
      by simp_all
    from keepsD [OF assms(2) ids_admit_client [OF t]] run Ok show ?thesis
      by (simp add: try_bind_def act_simps)
  next
    case (Err e)
    then have "t = s" using next_client_idx_fails [OF run] by simp
    with run Err assms(1) show ?thesis by (simp add: try_bind_Err)
  next
    case (Panic p)
    then have "t = s" using next_client_idx_fails [OF run] by simp
    with run Panic assms(1) show ?thesis by (simp add: try_bind_Panic)
  qed
qed

lemma ids_connect_client:
  fixes E :: "('v, 't, 'm, string) ext"
  assumes "ids_inv s"
  shows "ids_inv (snd (connect_client E ident s))"
proof (cases "is_client_connected ident s")
  case False
  have s0: "ids_inv (s\<lparr>callbacks := callbacks s @ [OnClientConnect]\<rparr>)"
    using assms by (rule ids_frame) (simp add: id_fields_def)
  have meta: "ids_inv s2 \<Longrightarrow> ids_inv (s2\<lparr>client_metatopic_map := hm_insert idx p (client_metatopic_map s2)\<rparr>)"
    for s2 :: "('v, 't) server" and idx p
    by (erule ids_frame) (simp add: id_fields_def)
  show ?thesis
    unfolding connect_client_def if_not_P [OF False] Let_def
    by (rule keeps_ids_next_client [OF s0]) (intro keeps_intros ids.keeps_adding_topic meta)
qed (simp add: connect_client_def assms)

section \<open>Requests\<close>

lemma keeps_ids_publish: "keeps ids_inv (inner_publish_topic E p ci)"
proof -
  have bind: "keeps ids_inv (bind_pubuid ci u i)" for u i
    by (rule tripleI) (auto simp: bind_pubuid_def ids_upd_client split: option.splits)
  have "keeps ids_inv (record_publisher ci m)" for m
    by (rule keeps_ids_frame) (auto simp: record_publisher_def split: option.splits)
  with bind show ?thesis
    unfolding inner_publish_topic_def Let_def
    by (intro keeps_intros ids.keeps_adding_topic ids.keeps_announce_topic)
qed

lemma release_publisher_fields: "id_fields (snd (release_publisher i s)) = id_fields s"
proof -
  have "id_fields (snd (try_bind (remove_topic i)
      (\<lambda>_. modify (\<lambda>s. s\<lparr>pub_count := hm_remove i (pub_count s)\<rparr>)) t)) = id_fields t" for t :: "('a, 'b) server"
    using remove_topic_fields [of i t]
    by (auto simp: try_bind_def act_simps split: prod.splits outcome.splits)
  then show ?thesis
    by (auto simp: release_publisher_def Let_def split: option.splits)
qed

lemma keeps_ids_unpublish: "keeps ids_inv (inner_unpublish_topic p ci)"
proof -
  have unbind: "keeps ids_inv (unbind_pubuid ci u)" for u
    by (rule tripleI) (auto simp: unbind_pubuid_def ids_upd_client split: option.splits prod.splits)
  have "keeps ids_inv (erase_publisher ci m)" for m
    by (rule keeps_ids_frame) (auto simp: erase_publisher_def split: option.splits)
  with unbind keeps_ids_frame [of "release_publisher i" for i, OF release_publisher_fields] show ?thesis
    unfolding inner_unpublish_topic_def by (intro keeps_intros)
qed

lemma subscribe_topics_fields:
  "id_fields (snd (subscribe_topics E j ts ms vs s)) = id_fields s \<and>
    counters (snd (subscribe_topics E j ts ms vs s)) = counters s"
proof (induction ts arbitrary: ms vs s)
  case (Cons p ts)
  then show ?case by (cases p) (auto simp: Let_def split: option.splits)
qed simp

lemma next_sub_idx_ids:
  assumes "ids_inv s" and "on_counters next_sub_idx s = (Ok j, t)"
  shows "ids_inv t \<and> j \<notin> hm_keys (subscriptions s) \<and> j < c_sub_idx (counters t) \<and>
    clients t = clients s \<and> subscriptions t = subscriptions s"
proof -
  from assms(2) obtain n where n: "checked_add (c_sub_idx (counters s)) 1 = Some n"
    and j: "j = c_sub_idx (counters s)" and t: "t = s\<lparr>counters := (counters s)\<lparr>c_sub_idx := n\<rparr>\<rparr>"
    by (auto simp: on_counters_def zoom_def next_idx_cases split: prod.splits)
  note less = checked_add_less [OF n]
  from assms(1) less have "ids_inv t"
    unfolding ids_inv_def t by (auto intro: less_trans)
  with t j less ids_sub [OF assms(1)] show ?thesis by auto
qed

lemma next_sub_idx_fails: "on_counters next_sub_idx s = (r, t) \<Longrightarrow> (\<And>j. r \<noteq> Ok j) \<Longrightarrow> t = s"
  by (auto simp: on_counters_def zoom_def next_sub_idx_def split: option.splits)

lemma ids_store_subscription:
  assumes "ids_inv s" and "map_of (clients s) ci = Some cl" and "j < c_sub_idx (counters s)"
  shows "ids_inv (store_subscription now j sub ci cl s)"
  using assms unfolding ids_inv_def store_subscription_def by auto

lemma ids_subscribe:
  fixes E :: "('v, 't, 'm, string) ext"
  assumes s: "ids_inv s"
  shows "ids_inv (snd (subscribe E now sub ci s))"
proof (cases "map_of (clients s) ci")
  case None
  with s show ?thesis by (simp add: subscribe_def)
next
  case (Some cl)
  let ?sub = "\<lparr>sn_subuid = sb_subuid sub, sn_topics = sb_topics sub, sn_options = sb_options sub\<rparr>"
  obtain r t where nxt: "on_counters next_sub_idx s = (r, t)" by fastforce
  show ?thesis
  proof (cases r)
    case (Ok j)
    note t = next_sub_idx_ids [OF s nxt [unfolded Ok]]
    obtain q u where loop: "subscribe_topics E j (interested_topics ?sub s) [] [] t = (q, u)" by fastforce
    with subscribe_topics_fields [of E j "interested_topics ?sub s" "[]" "[]" t]
    have u: "id_fields u = id_fields t" "counters u = counters t" by simp_all
    with t have "ids_inv u" using ids_frame by blast
    moreover from u t Some have "map_of (clients u) ci = Some cl" by (simp add: id_fields_def)
    ultimately have stored: "ids_inv (store_subscription now j ?sub ci cl u)"
      using t u by (intro ids_store_subscription) simp_all
    have "keeps ids_inv (try_bind (send_nt_messages E cl ms) (\<lambda>_. send_binary cl vs))" for ms vs
      by (intro keeps_intros ids.keeps_sends)
    from keepsD [OF this stored] \<open>ids_inv u\<close> show ?thesis
      by (cases q) (simp_all add: subscribe_def Some try_bind_def act_simps nxt Ok loop split: prod.split)
  next
    case (Err e)
    then have "t = s" using next_sub_idx_fails [OF nxt] by simp
    with s show ?thesis by (simp add: subscribe_def Some try_bind_def nxt Err)
  next
    case (Panic p)
    then have "t = s" using next_sub_idx_fails [OF nxt] by simp
    with s show ?thesis by (simp add: subscribe_def Some try_bind_def nxt Panic)
  qed
qed

lemma ids_unsubscribe: "ids_inv s \<Longrightarrow> ids_inv (snd (unsubscribe u ci s))"
  unfolding ids_inv_def unsubscribe_def forget_subscription_def
  by (auto split: option.splits prod.splits)

lemma set_properties_fields: "id_fields (snd (set_properties m s)) = id_fields s"
  by (auto simp: set_properties_def split: option.splits)

lemma push_values_fields: "id_fields (snd (push_values i v js s)) = id_fields s"
  by (induction js arbitrary: s) (auto split: option.splits)

lemma store_value_fields: "id_fields (store_value i v s) = id_fields s"
  by (auto simp: store_value_def split: option.splits)

lemma set_value_fields: "id_fields (snd (set_value v i s)) = id_fields s"
proof -
  have "id_fields (snd (try_bind (push_values i v subs) (\<lambda>_. modify (store_value i v)) s)) = id_fields s" for subs
    using push_values_fields [of i v subs s]
    by (auto simp: try_bind_def act_simps store_value_fields split: prod.splits outcome.splits)
  then show ?thesis by (auto simp: set_value_def split: option.splits)
qed

end
