(* ===== verification/Server_Runs.thy ===== *)
theory Server_Runs
  imports Server_Ids
begin

text \<open>
  The server as a state machine: what its tasks and the program that owns it can do, one call
  at a time, and that \<open>server_inv\<close> holds in every state that a new server can reach.
\<close>

section \<open>The tasks keep an invariant\<close>

text \<open>
  What the tasks rely on: each request keeps the invariant. Then so does whatever a client sends
  and whatever the owner of the server calls.
\<close>

locale request_invariant = client_insensitive I
  for I :: "('v, 't) server \<Rightarrow> bool" +
  fixes E :: "('v, 't, 'm, string) ext"
  assumes on_publish: "I s \<Longrightarrow> I (snd (inner_publish_topic E p ci s))"
    and on_unpublish: "I s \<Longrightarrow> I (snd (inner_unpublish_topic u ci s))"
    and on_set_properties: "I s \<Longrightarrow> I (snd (set_properties q s))"
    and on_subscribe: "I s \<Longrightarrow> I (snd (subscribe E now sub ci s))"
    and on_unsubscribe: "I s \<Longrightarrow> I (snd (unsubscribe unsub ci s))"
    and on_disconnect: "I s \<Longrightarrow> I (snd (disconnect_client ident s))"
    and on_set_value: "I s \<Longrightarrow> I (snd (set_value v i s))"
    and on_sent: "I s \<Longrightarrow> map_of (sub_send_timestamps s) j = Some old \<Longrightarrow>
      I (s\<lparr>sub_send_timestamps := hm_insert j clk (sub_send_timestamps s)\<rparr>)"
    and on_taken: "I s \<Longrightarrow> map_of (sub_values s) j = Some st \<Longrightarrow>
      I (s\<lparr>sub_values := hm_insert j (snd (take_values st)) (sub_values s)\<rparr>)"
begin

lemma keeps_requests:
  "keeps I (inner_publish_topic E p ci)" "keeps I (inner_unpublish_topic u ci)"
  "keeps I (set_properties q)" "keeps I (subscribe E now sub ci)" "keeps I (unsubscribe unsub ci)"
  "keeps I (disconnect_client ident)" "keeps I (set_value v i)"
  by (rule tripleI, erule on_publish on_unpublish on_set_properties on_subscribe on_unsubscribe
        on_disconnect on_set_value)+

lemma keeps_dispatch: "keeps I (dispatch E now ci msg)"
  by (cases msg) (auto intro!: keeps_intros keeps_requests)

lemma keeps_parse_text: "keeps I (parse_text E now ci text)"
  unfolding parse_text_def by (auto intro!: keeps_intros keeps_dispatch split: option.splits)

lemma keeps_apply_update: "keeps I (apply_update ci p v)"
proof (rule tripleI)
  fix s
  assume "I s"
  then show "I (snd (apply_update ci p v s))"
    using keepsD [OF keeps_ignore_err [OF keeps_requests(7)]]
    by (simp add: apply_update_def split: option.splits)
qed

lemma keeps_parse_value: "keeps I (parse_value E ci data)"
  unfolding parse_value_def
  by (auto intro!: keeps_intros keeps_apply_update split: option.splits outcome.splits)

lemma keeps_parse_in: "parse_in E now ci msg = Some m \<Longrightarrow> keeps I m"
  by (auto simp: parse_in_def parse_binary_def split: ws_message.splits
      intro!: keeps_parse_text keeps_intros keeps_parse_value)

lemma keeps_send_topic_values: "keeps I (send_topic_values E now cl entry)"
  unfolding send_topic_values_def
  by (auto intro!: keeps_intros keeps_sends split: outcome.splits)

lemma keeps_push:
  "keeps I rest \<Longrightarrow> keeps I (try_bind (for_each (send_topic_values E now cl) vs) (\<lambda>_. rest))"
  by (intro keeps_intros keeps_send_topic_values)

lemma on_send_pass: "I s \<Longrightarrow> I (snd (send_pass E clk now entries off s))"
proof (induction entries arbitrary: off s)
  case (Cons e entries)
  obtain j sub ci where e: "e = (j, sub, ci)" by (cases e) auto
  let ?s1 = "s\<lparr>sub_send_timestamps := hm_insert j clk (sub_send_timestamps s)\<rparr>"
  show ?case
  proof (cases "map_of (sub_send_timestamps s) j")
    case (Some t)
    have s1: "I ?s1" by (rule on_sent [OF Cons.prems Some])
    have rest: "keeps I (send_pass E clk now entries off)" for off
      by (rule tripleI) (rule Cons.IH)
    have push: "I (snd (try_bind (for_each (send_topic_values E now cl) vs)
        (\<lambda>_. send_pass E clk now entries off)
        (s\<lparr>sub_send_timestamps := hm_insert j clk (sub_send_timestamps s),
           sub_values := hm_insert j (snd (take_values st)) (sub_values s)\<rparr>)))"
      if "map_of (sub_values s) j = Some st" for cl vs st
      using keepsD [OF keeps_push [OF rest] on_taken [OF s1]] that by simp
    show ?thesis
      using Cons.IH [OF Cons.prems] Cons.IH [OF s1] s1 push Some
      by (simp add: e Let_def case_prod_beta split: option.split)
  qed (use Cons in \<open>simp add: e Let_def\<close>)
qed simp

lemma on_send_out_turn:
  assumes "I s"
  shows "I (snd (send_out_turn E clk now off s))"
proof -
  have "keeps I (try_bind (send_pass E clk now (subscriptions s) off)
      (\<lambda>off. ret (max 0 (min (1 / 10) (off - 5 / 10000)), off)))"
    by (intro keeps_intros tripleI on_send_pass)
  from keepsD [OF this assms] assms show ?thesis
    by (simp add: send_out_turn_def)
qed

lemma keeps_owner_publish:
  "keeps (\<lambda>p. I (snd p)) (publish_topic_w_props E tt now n v props)"
  unfolding publish_topic_w_props_def
  by (intro keeps_intros keeps_with_seed keeps_with_server keeps_requests)

lemma keeps_owner_props: "keeps I (set_topic_props n props)"
  unfolding set_topic_props_def by (rule keeps_requests)

end

lemma stored_keys_take [simp]: "stored_keys (snd (take_values st)) = []"
  by (cases st) simp_all

lemma timestamps_inv:
  assumes "server_inv s" and "map_of (sub_send_timestamps s) j = Some old"
  shows "server_inv (s\<lparr>sub_send_timestamps := hm_insert j clk (sub_send_timestamps s)\<rparr>)"
  using assms by (auto simp: inv_defs distinct_update)

lemma emptied_store_inv:
  assumes "server_inv s" and "map_of (sub_values s) j = Some st"
  shows "server_inv (s\<lparr>sub_values := hm_insert j (snd (take_values st)) (sub_values s)\<rparr>)"
  by (rule stores_grow_inv [OF assms(1) stores_grow_insert [OF assms(2)]]) simp

interpretation inv: request_invariant server_inv E for E
  by unfold_locales
    (simp_all add: keepsD [OF keeps_inner_publish_topic] keepsD [OF keeps_inner_unpublish_topic]
      set_properties_inv subscribe_inv unsubscribe_inv keepsD [OF keeps_disconnect_client]
      set_value_cases timestamps_inv emptied_store_inv)

interpretation ids: request_invariant ids_inv E for E
  by unfold_locales
    (simp_all add: keepsD [OF keeps_ids_publish] keepsD [OF keeps_ids_unpublish]
      ids_frame [OF _ set_properties_fields] ids_subscribe ids_unsubscribe ids_disconnect_client
      ids_frame [OF _ set_value_fields] ids_frame [OF _ id_fields_frames(8)]
      ids_frame [OF _ id_fields_frames(9)])

section \<open>A pass does not panic\<close>

text \<open>
  Sending the values of one store only touches the channels, and under the laws of the writers
  it always returns.
\<close>

lemma send_topic_values_run:
  assumes "rmp_total E" and "unat (fst entry) < 2 ^ 31"
  shows "fst (send_topic_values E now cl entry s) = Ok () \<and>
    same_but_channels s (snd (send_topic_values E now cl entry s))"
proof -
  from encode_values_total [OF assms] obtain b where b: "encode_values E now (fst entry) (snd entry) = Ok b"
    by blast
  obtain r t where run: "send_binary cl b s = (r, t)" by fastforce
  with send_binary_frame [of s cl b] sends_no_panic(3) [of cl b s] b show ?thesis
    by (cases r) (simp_all add: send_topic_values_def ignore_err_def)
qed

lemma send_all_values_run:
  assumes "rmp_total E" and "\<forall>e \<in> set vs. unat (fst e) < 2 ^ 31"
  shows "fst (for_each (send_topic_values E now cl) vs s) = Ok () \<and>
    same_but_channels s (snd (for_each (send_topic_values E now cl) vs s))"
  using assms(2)
proof (induction vs arbitrary: s)
  case (Cons e vs)
  from send_topic_values_run [OF assms(1), of e now cl s] Cons.prems obtain t
    where run: "send_topic_values E now cl e s = (Ok (), t)" and frame: "same_but_channels s t"
    by (cases "send_topic_values E now cl e s") auto
  from Cons.IH [of t] Cons.prems frame show ?case
    by (auto simp: try_bind_Ok [where m = "send_topic_values E now cl e", OF run]
        intro: same_but_channels_trans)
qed (simp add: act_simps)

lemma taken_keys: "set (map fst (fst (take_values st))) \<subseteq> set (stored_keys st)"
proof (cases st)
  case (StoreOne m)
  have "set (map fst (foldl (\<lambda>nm (t, v). hm_insert t [v] nm) acc m)) \<subseteq> set (map fst acc) \<union> set (map fst m)"
    for acc :: "(topic_idx, 'a server_sendable_value list) hmap"
  proof (induction m arbitrary: acc)
    case (Cons p m)
    from Cons [of "hm_insert (fst p) [snd p] acc"] show ?case
      by (simp add: case_prod_beta dom_update)
  qed simp
  from this [of "[]"] StoreOne show ?thesis by simp
qed simp

lemma send_pass_ok:
  fixes s :: "('v, 't) server"
  assumes "server_inv s" and "rmp_total E" and "unat (c_topic_idx (counters s)) \<le> 2 ^ 31"
    and "\<forall>e \<in> set entries. fst e \<in> hm_keys (sub_values s)"
  shows "\<exists>off' t. send_pass E clk now entries off s = (Ok off', t)"
  using assms
proof (induction entries arbitrary: off s)
  case (Cons e entries)
  obtain j sub ci where e: "e = (j, sub, ci)" by (cases e) auto
  let ?s1 = "s\<lparr>sub_send_timestamps := hm_insert j clk (sub_send_timestamps s)\<rparr>"
  from Cons.prems(4) e obtain st where st: "map_of (sub_values s) j = Some st" by auto
  let ?s2 = "?s1\<lparr>sub_values := hm_insert j (snd (take_values st)) (sub_values s)\<rparr>"
  from st inv_subs_timed [OF Cons.prems(1), of j] obtain t where t: "map_of (sub_send_timestamps s) j = Some t"
    by auto
  have s1: "server_inv ?s1" by (rule timestamps_inv [OF Cons.prems(1) t])
  have s2: "server_inv ?s2" using emptied_store_inv [OF s1] st by simp
  have keys: "unat i < 2 ^ 31" if "i \<in> set (stored_keys st)" for i
  proof -
    from inv_stores [OF Cons.prems(1)] st that have "i < c_topic_idx (counters s)"
      unfolding stores_ok_def by blast
    with Cons.prems(3) show ?thesis by (simp add: word_less_nat_alt)
  qed
  have skip: "\<exists>off' u. send_pass E clk now entries off1 s = (Ok off', u)" for off1
    by (rule Cons.IH) (use Cons.prems in auto)
  have skip1: "\<exists>off' u. send_pass E clk now entries off1 ?s1 = (Ok off', u)" for off1
    by (rule Cons.IH) (use Cons.prems s1 in auto)
  have push: "\<exists>off' u. try_bind (for_each (send_topic_values E now cl) (fst (take_values st)))
      (\<lambda>_. send_pass E clk now entries off) ?s2 = (Ok off', u)" for cl
  proof -
    have "\<forall>e \<in> set (fst (take_values st)). unat (fst e) < 2 ^ 31"
      using keys taken_keys [of st] by force
    from send_all_values_run [OF Cons.prems(2) this, of now cl ?s2] obtain c
      where run: "for_each (send_topic_values E now cl) (fst (take_values st)) ?s2 = (Ok (), ?s2\<lparr>channels := c\<rparr>)"
      unfolding same_but_channels_def by (metis prod.collapse)
    have "\<exists>off' u. send_pass E clk now entries off (?s2\<lparr>channels := c\<rparr>) = (Ok off', u)"
      by (rule Cons.IH) (use Cons.prems s2 in \<open>auto simp: frame_simps\<close>)
    then show ?thesis using run by (simp add: try_bind_def)
  qed
  from skip skip1 push st t show ?case
    by (simp add: e Let_def case_prod_beta split: option.split)
qed simp

section \<open>Steps\<close>

text \<open>
  Another order of the same entries: what a \<open>HashMap\<close> may do when it grows.
\<close>

definition reordered :: "('k, 'v) hmap \<Rightarrow> ('k, 'v) hmap \<Rightarrow> bool" where
  "reordered m m' \<longleftrightarrow> set m' = set m \<and> distinct (map fst m')"

text \<open>
  One step of the running server: a connection is accepted, the parser takes a message of any
  client, the sender makes a turn, the owner of the server calls a method, the task of a
  connection takes a message from its channel, ends, or sees its kill switch set, a map changes
  its order. Each call is one step: the interleavings of calls that hold different locks are
  not split further.
\<close>

inductive server_step ::
    "('v, 't, 'm, string) ext \<Rightarrow> ('v, 't) server \<Rightarrow> ('v, 't) server \<Rightarrow> bool" for E
where
  connects: "server_step E s (snd (connect_client E ident s))"
| receives: "parse_in E now ci msg = Some m \<Longrightarrow> server_step E s (snd (m s))"
| sends: "server_step E s (snd (send_out_turn E clk now off s))"
| owner_publishes: "server_step E s (snd (snd (publish_topic_w_props E tt now n v props (seed, s))))"
| owner_sets: "server_step E s (snd (set_topic_value_w_timestamp n v ts s))"
| owner_sets_props: "server_step E s (snd (set_topic_props n props s))"
| flushes_all: "server_step E s (snd (flush_all s))"
| flushes_one: "server_step E s (snd (flush_client ci s))"
| channel_moves: "server_step E s (s\<lparr>channels := ch\<rparr>)"
| killed: "server_step E s (s\<lparr>kill_cells := kc\<rparr>)"
| rehashes: "reordered (topic_map s) tm \<Longrightarrow> reordered (subscriptions s) sn \<Longrightarrow> reordered (clients s) cl \<Longrightarrow>
    server_step E s (s\<lparr>topic_map := tm, clients := cl, subscriptions := sn\<rparr>)"

inductive server_reachable ::
    "('v, 't, 'm, string) ext \<Rightarrow> socket_addr \<Rightarrow> ('v, 't) server \<Rightarrow> bool" for E addr
where
  starts: "server_reachable E addr (snd (try_new E addr))"
| steps: "server_reachable E addr s \<Longrightarrow> server_step E s t \<Longrightarrow> server_reachable E addr t"

inductive_cases server_stepE: "server_step E s t"

section \<open>An invariant of the requests holds in every reachable state\<close>

text \<open>
  What is left to show of a predicate that every request keeps: connecting, a kill switch that is
  set, and a map that changes its order.
\<close>

locale server_invariant = request_invariant I E
  for I :: "('v, 't) server \<Rightarrow> bool" and E :: "('v, 't, 'm, string) ext" +
  assumes on_connect: "I s \<Longrightarrow> I (snd (connect_client E ident s))"
    and on_killed: "I s \<Longrightarrow> I (s\<lparr>kill_cells := kc\<rparr>)"
    and on_rehash: "I s \<Longrightarrow> reordered (topic_map s) tm \<Longrightarrow> reordered (subscriptions s) sn \<Longrightarrow>
      reordered (clients s) cl \<Longrightarrow> I (s\<lparr>topic_map := tm, clients := cl, subscriptions := sn\<rparr>)"
begin

lemma on_step:
  assumes "server_step E s t" and "I s"
  shows "I t"
  using assms(1)
proof cases
  case (receives now ci msg m)
  with assms(2) show ?thesis by (simp add: keepsD [OF keeps_parse_in])
next
  case (owner_publishes tt now n v props seed)
  with assms(2) show ?thesis
    using keepsD [OF keeps_owner_publish, of "(seed, s)" tt now n v props] by simp
qed (use assms(2) in \<open>simp_all add: on_connect on_killed on_rehash on_send_out_turn upd_channels
      keepsD [OF keeps_set_topic_value] keepsD [OF keeps_owner_props] keepsD [OF keeps_flush_all]
      keepsD [OF keeps_flush_client]\<close>)

lemma in_every_run: "server_reachable E addr s \<Longrightarrow> I (snd (try_new E addr)) \<Longrightarrow> I s"
  by (induction rule: server_reachable.induct) (auto dest: on_step)

end

section \<open>Both invariants\<close>

lemma reordered_lookup:
  assumes "reordered m m'" and "distinct (map fst m)"
  shows "map_of m' = map_of m"
  using assms map_of_inject_set [of m' m] by (simp add: reordered_def)

lemma server_inv_reordered:
  assumes "server_inv s" and "reordered (topic_map s) tm" and "reordered (subscriptions s) sn"
    and "reordered (clients s) cl"
  shows "server_inv (s\<lparr>topic_map := tm, clients := cl, subscriptions := sn\<rparr>)"
proof -
  from assms(1) have "distinct (map fst (topic_map s))" "distinct (map fst (subscriptions s))"
    by (simp_all add: inv_defs)
  then have "map_of tm = map_of (topic_map s)" "map_of sn = map_of (subscriptions s)"
    using assms(2,3) by (simp_all add: reordered_lookup)
  with assms show ?thesis by (simp add: inv_defs reordered_def)
qed

lemma ids_inv_reordered:
  assumes "server_inv s" and "ids_inv s" and "reordered (topic_map s) tm"
    and "reordered (subscriptions s) sn" and "reordered (clients s) cl"
  shows "ids_inv (s\<lparr>topic_map := tm, clients := cl, subscriptions := sn\<rparr>)"
proof -
  from assms(1) have "distinct (map fst (clients s))" "distinct (map fst (subscriptions s))"
    by (simp_all add: inv_defs)
  then have "map_of cl = map_of (clients s)" "map_of sn = map_of (subscriptions s)"
    using assms(4,5) by (simp_all add: reordered_lookup)
  with assms(2) show ?thesis by (simp add: ids_inv_def)
qed

lemma server_inv_empty: "server_inv (empty_server addr)"
  by (simp add: inv_defs empty_server_def stores_ok_def)

lemma next_client_first:
  "on_counters next_client_idx (empty_server addr) =
    (Ok 0, (empty_server addr)\<lparr>counters := counter_default\<lparr>c_client_idx := 1\<rparr>\<rparr>)"
  by (simp add: on_counters_def zoom_def next_client_idx_def empty_server_def counter_default_def
      checked_add_def)

definition with_server_client :: "socket_addr \<Rightarrow> ('v, 't) server" where
  "with_server_client addr =
    (empty_server addr)\<lparr>counters := counter_default\<lparr>c_client_idx := 1\<rparr>,
      clients := [(SERVER_CLIENT_IDX, server_client)]\<rparr>"

lemma try_new_run:
  "try_new E addr =
    try_bind (add_topic E (new_meta ''$clients'')) (\<lambda>_.
    try_bind (add_topic E (new_meta ''$serversub'')) (\<lambda>_.
    try_bind (add_topic E (new_meta ''$serverpub'')) (\<lambda>_. ret ()))) (with_server_client addr)"
  unfolding try_new_def
  by (simp add: try_bind_def [of "on_counters next_client_idx"] next_client_first)
    (simp add: with_server_client_def empty_server_def SERVER_CLIENT_IDX_def)

lemma with_server_client_inv:
  "server_inv (with_server_client addr) \<and> ids_inv (with_server_client addr)"
  by (simp add: inv_defs ids_inv_def with_server_client_def empty_server_def stores_ok_def
      server_client_def SERVER_CLIENT_IDX_def)

lemma try_new_inv: "server_inv (snd (try_new E addr)) \<and> ids_inv (snd (try_new E addr))"
proof
  have "keeps server_inv (try_bind (add_topic E (new_meta ''$clients'')) (\<lambda>_.
      try_bind (add_topic E (new_meta ''$serversub'')) (\<lambda>_.
      try_bind (add_topic E (new_meta ''$serverpub'')) (\<lambda>_. ret ()))))"
    by (intro keeps_intros inv.keeps_adding_topic)
  from keepsD [OF this] show "server_inv (snd (try_new E addr))"
    by (simp add: try_new_run with_server_client_inv)
  have "keeps ids_inv (try_bind (add_topic E (new_meta ''$clients'')) (\<lambda>_.
      try_bind (add_topic E (new_meta ''$serversub'')) (\<lambda>_.
      try_bind (add_topic E (new_meta ''$serverpub'')) (\<lambda>_. ret ()))))"
    by (intro keeps_intros ids.keeps_adding_topic)
  from keepsD [OF this] show "ids_inv (snd (try_new E addr))"
    by (simp add: try_new_run with_server_client_inv)
qed

interpretation both: server_invariant "\<lambda>s. server_inv s \<and> ids_inv s" E for E
proof unfold_locales
  fix s :: "('v, 't) server" and tm sn cl
  assume "server_inv s \<and> ids_inv s" "reordered (topic_map s) tm" "reordered (subscriptions s) sn"
    "reordered (clients s) cl"
  then show "server_inv (s\<lparr>topic_map := tm, clients := cl, subscriptions := sn\<rparr>) \<and>
      ids_inv (s\<lparr>topic_map := tm, clients := cl, subscriptions := sn\<rparr>)"
    by (simp add: server_inv_reordered ids_inv_reordered)
qed (simp_all add: inv.upd_client ids.upd_client inv.upd_channels ids.upd_channels inv.on_publish
    ids.on_publish inv.on_unpublish ids.on_unpublish inv.on_set_properties ids.on_set_properties
    inv.on_subscribe ids.on_subscribe inv.on_unsubscribe ids.on_unsubscribe inv.on_disconnect
    ids.on_disconnect inv.on_set_value ids.on_set_value inv.on_sent ids.on_sent inv.on_taken
    ids.on_taken keepsD [OF keeps_connect_client] ids_connect_client frame_simps
    ids_frame [OF _ id_fields_frames(12)])

lemma reachable_invs: "server_reachable E addr s \<Longrightarrow> server_inv s \<and> ids_inv s"
  using both.in_every_run try_new_inv by blast

end
