(* ===== verification/Server_Registry.thy ===== *)
theory Server_Registry
  imports Server_Runs
begin

text \<open>
  What the topic registry promises: how names, topics and subscription lists change when a
  topic is added or removed.
\<close>

section \<open>One registration\<close>

definition registers :: "('v, 't) server \<Rightarrow> topic_idx \<Rightarrow> string topic \<Rightarrow> ('v, 't) server \<Rightarrow> bool" where
  "registers s i t u \<longleftrightarrow>
    (\<exists>c. u = register_topic i t (s\<lparr>counters := c\<rparr>) \<and> i = c_topic_idx (counters s) \<and> i < c_topic_idx c)"

lemma registers_maps:
  assumes "registers s i t u"
  shows "map_of (topic_map u) = (map_of (topic_map s))(t_name t \<mapsto> i)"
    "map_of (topics u) = (map_of (topics s))(i \<mapsto> t)"
    "map_of (topic_sub_map u) = (map_of (topic_sub_map s))(i \<mapsto> [])"
    "map_of (pub_count u) = (map_of (pub_count s))(i \<mapsto> if has_implicit_publisher t then 2 else 1)"
    "topic_value_map u = topic_value_map s" "metatopic_value_map u = metatopic_value_map s"
    "subscriptions u = subscriptions s" "sub_values u = sub_values s" "clients u = clients s"
    "channels u = channels s"
  using assms by (auto simp: registers_def register_topic_def)

lemma registers_fresh:
  assumes "server_inv s" and "registers s i t u"
  shows "i \<notin> hm_keys (topic_sub_map s)" "i \<notin> hm_keys (pub_count s)" "i \<notin> hm_keys (topics s)"
    "map_of (topic_map s) n \<noteq> Some i"
proof -
  have i: "i = c_topic_idx (counters s)" using assms(2) by (auto simp: registers_def)
  show listed: "i \<notin> hm_keys (topic_sub_map s)"
    unfolding i using inv_listed_bound [OF assms(1)] by blast
  show "i \<notin> hm_keys (pub_count s)"
    unfolding i using inv_count_bound [OF assms(1)] by blast
  show "i \<notin> hm_keys (topics s)"
    using inv_topic_listed [OF assms(1)] listed by blast
  show "map_of (topic_map s) n \<noteq> Some i"
    using inv_name_listed [OF assms(1)] listed by blast
qed

lemma new_topic_run:
  assumes "try_bind (on_counters next_topic_idx) (\<lambda>i. try_bind (modify (register_topic i t)) (\<lambda>_. rest i)) s
      = (Ok k, u)"
  shows "\<exists>i s1. registers s i t s1 \<and> rest i s1 = (Ok k, u)"
proof -
  from assms obtain i s0 where nxt: "on_counters next_topic_idx s = (Ok i, s0)"
    and rest: "rest i (register_topic i t s0) = (Ok k, u)"
    by (auto simp: try_bind_eq_Ok)
  from nxt obtain n where "checked_add (c_topic_idx (counters s)) 1 = Some n"
    and "i = c_topic_idx (counters s)" and "s0 = s\<lparr>counters := (counters s)\<lparr>c_topic_idx := n\<rparr>\<rparr>"
    by (auto simp: on_counters_def zoom_def next_idx_cases split: prod.splits)
  then have "registers s i t (register_topic i t s0)"
    unfolding registers_def
    by (intro exI [of _ "(counters s)\<lparr>c_topic_idx := n\<rparr>"]) (simp add: checked_add_less)
  with rest show ?thesis by blast
qed

lemma add_meta_run:
  assumes "CHR ''$'' \<in> set (t_name t)" and "add_topic E t s = (Ok k, u)"
  shows "registers s k t u \<or> u = s \<and> map_of (topic_map s) (t_name t) = Some k"
proof (cases "map_of (topic_map s) (t_name t)")
  case None
  with assms have "try_bind (on_counters next_topic_idx) (\<lambda>i.
      try_bind (modify (register_topic i t)) (\<lambda>_. ret i)) s = (Ok k, u)"
    using add_topic.simps [of E t s] by simp
  from new_topic_run [OF this] show ?thesis by (auto simp: act_simps)
qed (use assms(2) in \<open>simp add: add_topic_known\<close>)

text \<open>A new normal topic: itself, then each metatopic, each followed by its announcement.\<close>

lemma add_normal_run:
  assumes "CHR ''$'' \<notin> set (t_name t)" and "map_of (topic_map s) (t_name t) = None"
    and "add_topic E t s = (Ok k, u)"
  shows "\<exists>mp ms s1 s2 s2' s3.
    registers s k t s1 \<and> add_topic E (new_meta (''$pub$'' @ t_name t)) s1 = (Ok mp, s2) \<and>
    announce_topic E mp None s2 = (Ok (), s2') \<and>
    add_topic E (new_meta (''$sub$'' @ t_name t)) s2' = (Ok ms, s3) \<and>
    announce_topic E ms None s3 = (Ok (), u)"
proof -
  from assms have "try_bind (on_counters next_topic_idx) (\<lambda>i.
      try_bind (modify (register_topic i t)) (\<lambda>_.
        try_bind (add_topic E (new_meta (''$pub$'' @ t_name t))) (\<lambda>meta_pub.
        try_bind (announce_topic E meta_pub None) (\<lambda>_.
        try_bind (add_topic E (new_meta (''$sub$'' @ t_name t))) (\<lambda>meta_sub.
        try_bind (announce_topic E meta_sub None) (\<lambda>_. ret i)))))) s = (Ok k, u)"
    using add_topic.simps [of E t s] by simp
  from new_topic_run [OF this] show ?thesis
    by (auto simp: try_bind_eq_Ok act_simps) blast
qed

lemma announce_fields:
  assumes "announce_topic E i r s = (q, u)"
  shows "topics u = topics s" "topic_map u = topic_map s" "topic_sub_map u = topic_sub_map s"
    "pub_count u = pub_count s" "topic_value_map u = topic_value_map s"
    "metatopic_value_map u = metatopic_value_map s" "subscriptions u = subscriptions s"
    "sub_values u = sub_values s" "counters u = counters s"
  using core_fields [OF announce_topic_core [of E i r s]] assms by simp_all

lemma announce_inv: "announce_topic E i r s = (q, u) \<Longrightarrow> server_inv s \<Longrightarrow> server_inv u"
  using keepsD [OF inv.keeps_announce_topic, of s E i r] by simp

section \<open>Adding\<close>

text \<open>The names that come with a topic.\<close>

definition entailed_names :: "string \<Rightarrow> string set" where
  "entailed_names n = (if CHR ''$'' \<in> set n then {n} else {n, ''$pub$'' @ n, ''$sub$'' @ n})"

text \<open>
  \<open>extends s u ns\<close>: \<open>u\<close> has the names \<open>ns\<close> as well; whatever a name, an index or a list meant in
  \<open>s\<close>, it means in \<open>u\<close>, and no value, store or subscription has changed.
\<close>

definition extends :: "('v, 't) server \<Rightarrow> ('v, 't) server \<Rightarrow> string set \<Rightarrow> bool" where
  "extends s u ns \<longleftrightarrow>
    hm_keys (topic_map u) = hm_keys (topic_map s) \<union> ns \<and>
    map_of (topic_map s) \<subseteq>\<^sub>m map_of (topic_map u) \<and> map_of (topics s) \<subseteq>\<^sub>m map_of (topics u) \<and>
    map_of (topic_sub_map s) \<subseteq>\<^sub>m map_of (topic_sub_map u) \<and>
    map_of (pub_count s) \<subseteq>\<^sub>m map_of (pub_count u) \<and>
    topic_value_map u = topic_value_map s \<and> metatopic_value_map u = metatopic_value_map s \<and>
    subscriptions u = subscriptions s \<and> sub_values u = sub_values s"

lemma extends_trans: "extends s u ns \<Longrightarrow> extends u w ms \<Longrightarrow> extends s w (ns \<union> ms)"
  unfolding extends_def by (auto intro: map_le_trans)

lemma extends_refl: "extends s s {}"
  by (simp add: extends_def)

lemma map_le_upd_new: "k \<notin> dom f \<Longrightarrow> f \<subseteq>\<^sub>m f(k \<mapsto> v)"
  by (auto simp: map_le_def)

lemma extends_registers:
  assumes "server_inv s" and "registers s i t u" and "map_of (topic_map s) (t_name t) = None"
  shows "extends s u {t_name t}"
  unfolding extends_def registers_maps [OF assms(2)]
  using registers_fresh [OF assms(1,2)] assms(3) by (auto intro!: map_le_upd_new)

lemma extends_announce:
  assumes "announce_topic E i r s = (q, u)"
  shows "extends s u {}"
  by (simp add: extends_def announce_fields [OF assms])

lemma extends_add_meta:
  assumes "CHR ''$'' \<in> set (t_name t)" and "server_inv s" and "add_topic E t s = (Ok k, u)"
  shows "extends s u {t_name t} \<and> map_of (topic_map u) (t_name t) = Some k"
proof (cases "map_of (topic_map s) (t_name t)")
  case None
  with add_meta_run [OF assms(1,3)] have "registers s k t u" by simp
  with extends_registers [OF assms(2) this None] registers_maps(1) [OF this] show ?thesis by simp
next
  case (Some i)
  with assms(3) have "k = i" "u = s" by (simp_all add: add_topic_known)
  with Some show ?thesis by (auto simp: extends_def)
qed

lemma add_topic_inv: "add_topic E t s = (q, u) \<Longrightarrow> server_inv s \<Longrightarrow> server_inv u"
  using keepsD [OF inv.keeps_adding_topic, of s E t] by simp

lemma register_inv: "server_inv s \<Longrightarrow> registers s i t u \<Longrightarrow> map_of (topic_map s) (t_name t) = None \<Longrightarrow> server_inv u"
proof -
  assume s: "server_inv s" and "registers s i t u" and new: "map_of (topic_map s) (t_name t) = None"
  then obtain c where u: "u = register_topic i t (s\<lparr>counters := c\<rparr>)" and i: "i = c_topic_idx (counters s)"
    and less: "i < c_topic_idx c"
    by (auto simp: registers_def)
  from s i less have "server_inv (s\<lparr>counters := c\<rparr>)" by (intro server_inv_counters) simp_all
  moreover from inv_listed_bound [OF s] i less new have "fresh_topic i (t_name t) (s\<lparr>counters := c\<rparr>)"
    by (auto simp: fresh_topic_def)
  ultimately show ?thesis unfolding u by (rule register_topic_inv)
qed

lemma add_new_topic:
  assumes s: "server_inv s" and new: "map_of (topic_map s) (t_name t) = None"
    and run: "add_topic E t s = (Ok k, u)"
  shows "extends s u (entailed_names (t_name t)) \<and> map_of (topic_map u) (t_name t) = Some k \<and>
    map_of (topics u) k = Some t \<and> map_of (topic_sub_map u) k = Some [] \<and> k \<notin> hm_keys (topic_sub_map s)"
proof (cases "CHR ''$'' \<in> set (t_name t)")
  case True
  from add_meta_run [OF True run] new have reg: "registers s k t u" by simp
  from extends_registers [OF s reg new] registers_maps [OF reg] registers_fresh [OF s reg] True show ?thesis
    by (simp add: entailed_names_def)
next
  case False
  from add_normal_run [OF False new run] obtain mp ms s1 s2 s2' s3 where
    reg: "registers s k t s1"
    and pub: "add_topic E (new_meta (''$pub$'' @ t_name t)) s1 = (Ok mp, s2)"
      "announce_topic E mp None s2 = (Ok (), s2')"
    and sub: "add_topic E (new_meta (''$sub$'' @ t_name t)) s2' = (Ok ms, s3)"
      "announce_topic E ms None s3 = (Ok (), u)"
    by blast
  have s1: "server_inv s1" by (rule register_inv [OF s reg new])
  have s2': "server_inv s2'" by (rule announce_inv [OF pub(2) add_topic_inv [OF pub(1) s1]])
  have meta: "CHR ''$'' \<in> set (t_name (new_meta (''$pub$'' @ n)))"
    "CHR ''$'' \<in> set (t_name (new_meta (''$sub$'' @ n)))" for n
    by simp_all
  have rest: "extends s1 u {''$pub$'' @ t_name t, ''$sub$'' @ t_name t}"
    using extends_trans [OF extends_trans [OF conjunct1 [OF extends_add_meta [OF meta(1) s1 pub(1)]]
        extends_announce [OF pub(2)]] extends_trans [OF conjunct1 [OF extends_add_meta [OF meta(2) s2' sub(1)]]
        extends_announce [OF sub(2)]]]
    by (simp add: insert_commute)
  have "extends s u (entailed_names (t_name t))"
    using extends_trans [OF extends_registers [OF s reg new] rest] False
      by (simp add: entailed_names_def insert_commute)
  moreover have "map_of (topic_map u) (t_name t) = Some k" "map_of (topics u) k = Some t"
    "map_of (topic_sub_map u) k = Some []"
    using rest registers_maps(1-3) [OF reg] unfolding extends_def map_le_def
    by (metis domI fun_upd_same)+
  ultimately show ?thesis using registers_fresh(1) [OF s reg] by blast
qed

section \<open>Adding and removing again\<close>

lemma add_topic_maps:
  assumes s: "server_inv s" and new: "\<forall>n \<in> entailed_names (t_name t). map_of (topic_map s) n = None"
    and normal: "CHR ''$'' \<notin> set (t_name t)" and run: "add_topic E t s = (Ok k, u)"
  shows "\<exists>mp ms. distinct [k, mp, ms] \<and> {k, mp, ms} \<inter> hm_keys (topic_sub_map s) = {} \<and>
    map_of (topic_map u) = (map_of (topic_map s))
      (t_name t \<mapsto> k, ''$pub$'' @ t_name t \<mapsto> mp, ''$sub$'' @ t_name t \<mapsto> ms) \<and>
    map_of (topics u) = (map_of (topics s))
      (k \<mapsto> t, mp \<mapsto> new_meta (''$pub$'' @ t_name t), ms \<mapsto> new_meta (''$sub$'' @ t_name t)) \<and>
    map_of (topic_sub_map u) = (map_of (topic_sub_map s))(k \<mapsto> [], mp \<mapsto> [], ms \<mapsto> []) \<and>
    topic_value_map u = topic_value_map s \<and> metatopic_value_map u = metatopic_value_map s"
proof -
  let ?p = "''$pub$'' @ t_name t" and ?q = "''$sub$'' @ t_name t"
  from new normal have unknown: "map_of (topic_map s) (t_name t) = None" "map_of (topic_map s) ?p = None"
    "map_of (topic_map s) ?q = None"
    by (simp_all add: entailed_names_def)
  have names: "t_name t \<noteq> ?p" "t_name t \<noteq> ?q" "?p \<noteq> ?q"
    using normal by (auto simp: fun_eq_iff)
  from add_normal_run [OF normal unknown(1) run] obtain mp ms s1 s2 s2' s3 where
    reg: "registers s k t s1"
    and pub: "add_topic E (new_meta ?p) s1 = (Ok mp, s2)" "announce_topic E mp None s2 = (Ok (), s2')"
    and sub: "add_topic E (new_meta ?q) s2' = (Ok ms, s3)" "announce_topic E ms None s3 = (Ok (), u)"
    by blast
  note m1 = registers_maps [OF reg]
  from add_meta_run [OF _ pub(1)] names unknown m1(1) have reg2: "registers s1 mp (new_meta ?p) s2" by simp
  note m2 = registers_maps [OF reg2] and a2 = announce_fields [OF pub(2)]
  from add_meta_run [OF _ sub(1)] names unknown m1(1) m2(1) a2(2)
  have reg3: "registers s2' ms (new_meta ?q) s3" by simp
  note m3 = registers_maps [OF reg3] and a3 = announce_fields [OF sub(2)]
  have s1: "server_inv s1" by (rule register_inv [OF s reg unknown(1)])
  have s2': "server_inv s2'" by (rule announce_inv [OF pub(2) add_topic_inv [OF pub(1) s1]])
  have fresh: "k \<notin> hm_keys (topic_sub_map s)" "mp \<notin> hm_keys (topic_sub_map s1)" "ms \<notin> hm_keys (topic_sub_map s2)"
    using registers_fresh(1) [OF s reg] registers_fresh(1) [OF s1 reg2] registers_fresh(1) [OF s2' reg3] a2(3)
    by simp_all
  then have "distinct [k, mp, ms] \<and> {k, mp, ms} \<inter> hm_keys (topic_sub_map s) = {}"
    using m1(3) m2(3) by auto
  then show ?thesis
    using m1 m2 m3 a2 a3 by (intro exI [of _ mp] exI [of _ ms]) simp
qed

lemma add_remove_topic:
  assumes s: "server_inv s" and new: "\<forall>n \<in> entailed_names (t_name t). map_of (topic_map s) n = None"
    and normal: "CHR ''$'' \<notin> set (t_name t)" and run: "add_topic E t s = (Ok k, u)"
  shows "fst (remove_topic k u) = Ok () \<and>
    map_of (topic_map (snd (remove_topic k u))) = map_of (topic_map s) \<and>
    map_of (topics (snd (remove_topic k u))) = map_of (topics s) \<and>
    map_of (topic_sub_map (snd (remove_topic k u))) = map_of (topic_sub_map s)"
proof -
  let ?p = "''$pub$'' @ t_name t" and ?q = "''$sub$'' @ t_name t"
  from add_topic_maps [OF assms] obtain mp ms where
    fresh: "distinct [k, mp, ms]" "{k, mp, ms} \<inter> hm_keys (topic_sub_map s) = {}"
    and names: "map_of (topic_map u) = (map_of (topic_map s))(t_name t \<mapsto> k, ?p \<mapsto> mp, ?q \<mapsto> ms)"
    and tops: "map_of (topics u) = (map_of (topics s))(k \<mapsto> t, mp \<mapsto> new_meta ?p, ms \<mapsto> new_meta ?q)"
    and lists: "map_of (topic_sub_map u) = (map_of (topic_sub_map s))(k \<mapsto> [], mp \<mapsto> [], ms \<mapsto> [])"
    by blast
  have gone: "map_of (topics s) i = None \<and> map_of (topic_sub_map s) i = None" if "i \<in> {k, mp, ms}" for i
  proof -
    from that fresh(2) have "i \<notin> hm_keys (topic_sub_map s)" by blast
    with inv_topic_listed [OF s, of i] show ?thesis
      by (cases "map_of (topics s) i") (simp_all add: domIff)
  qed
  from new normal have unknown: "map_of (topic_map s) (t_name t) = None" "map_of (topic_map s) ?p = None"
    "map_of (topic_map s) ?q = None"
    by (simp_all add: entailed_names_def)
  have ne: "t_name t \<noteq> ?p" "t_name t \<noteq> ?q" "?p \<noteq> ?q"
    using normal by (auto simp: fun_eq_iff)
  from fresh(1) gone unknown ne show ?thesis
    by (auto simp: remove_topic_def Let_def names tops lists)
qed
end
