(* ===== verification/Server_Announce.thy ===== *)
theory Server_Announce
  imports Server_Registry
begin

text \<open>
  What an announcement does: which clients it reaches and what it puts on their channels, as a
  function of the subscriptions.
\<close>

section \<open>Interested clients\<close>

definition interested :: "('v, 't) server \<Rightarrow> string \<Rightarrow> client_idx \<Rightarrow> bool" where
  "interested s n ci \<longleftrightarrow> (\<exists>e \<in> set (subscriptions s). cares_about (fst (snd e)) n \<and> snd (snd e) = ci)"

lemma set_clients_to_notify: "set (clients_to_notify s n) = {ci. interested s n ci}"
  by (force simp: clients_to_notify_def interested_def)

lemma distinct_clients_to_notify: "distinct (clients_to_notify s n)"
  by (simp add: clients_to_notify_def)

text \<open>The channel of a client, and a state in which no message to a client can be lost.\<close>

definition output_of :: "('v, 't) server \<Rightarrow> client_idx \<Rightarrow> nat option" where
  "output_of s ci = (case map_of (clients s) ci of None \<Rightarrow> None | Some cl \<Rightarrow> cc_sub_ouput cl)"

definition listening :: "('v, 't) server \<Rightarrow> client_idx \<Rightarrow> bool" where
  "listening s ci \<longleftrightarrow> (\<forall>c. output_of s ci = Some c \<longrightarrow> ch_rx_open (channels s c))"

definition mark :: "topic_idx \<Rightarrow> connected_client \<Rightarrow> connected_client" where
  "mark i cl = cl\<lparr>cc_announced_topics := insert i (cc_announced_topics cl)\<rparr>"

lemma mark_simps [simp]: "cc_sub_ouput (mark i cl) = cc_sub_ouput cl" "mark i (mark i cl) = mark i cl"
  by (simp_all add: mark_def)

section \<open>One client\<close>

lemma announce_to_run:
  fixes E :: "('v, 't, 'm, string) ext"
  assumes "json_write_list E ms = Some json" and "listening s ci"
  shows "\<exists>u. announce_to E i ms ci s = (Ok (), u) \<and>
    map_of (clients u) = (\<lambda>k. if k = ci then map_option (mark i) (map_of (clients s) k) else map_of (clients s) k) \<and>
    (\<forall>c. ch_queue (channels u c) =
       ch_queue (channels s c) @ (if output_of s ci = Some c then [WsText json] else [])) \<and>
    (\<forall>c. ch_rx_open (channels u c) = ch_rx_open (channels s c))"
proof (cases "map_of (clients s) ci")
  case None
  then show ?thesis by (auto simp: announce_to_def output_of_def fun_eq_iff)
next
  case (Some cl)
  show ?thesis
  proof (cases "cc_sub_ouput cl")
    case None
    with Some show ?thesis
      by (auto simp: announce_to_def send_nt_messages_def output_of_def fun_eq_iff mark_def)
  next
    case out: (Some c)
    with Some assms have "ch_rx_open (channels s c)" by (simp add: listening_def output_of_def)
    with Some out assms(1) show ?thesis
      by (auto simp: announce_to_def send_nt_messages_def chan_send_def output_of_def fun_eq_iff mark_def)
  qed
qed

section \<open>All of them\<close>

lemma announce_all_run:
  fixes E :: "('v, 't, 'm, string) ext"
  assumes "json_write_list E ms = Some json" and "\<forall>ci \<in> set ks. listening s ci"
  shows "\<exists>u. for_each (announce_to E i ms) ks s = (Ok (), u) \<and>
    map_of (clients u) =
      (\<lambda>k. if k \<in> set ks then map_option (mark i) (map_of (clients s) k) else map_of (clients s) k) \<and>
    (\<forall>c. ch_queue (channels u c) = ch_queue (channels s c) @
       replicate (length (filter (\<lambda>ci. output_of s ci = Some c) ks)) (WsText json)) \<and>
    (\<forall>c. ch_rx_open (channels u c) = ch_rx_open (channels s c))"
  using assms(2)
proof (induction ks arbitrary: s)
  case (Cons ci ks)
  from announce_to_run [OF assms(1), of s ci i] Cons.prems obtain t where
    run: "announce_to E i ms ci s = (Ok (), t)" and
    cl: "map_of (clients t) = (\<lambda>k. if k = ci then map_option (mark i) (map_of (clients s) k) else map_of (clients s) k)" and
    q: "\<forall>c. ch_queue (channels t c) = ch_queue (channels s c) @ (if output_of s ci = Some c then [WsText json] else [])" and
    rx: "\<forall>c. ch_rx_open (channels t c) = ch_rx_open (channels s c)"
    by auto
  have out: "output_of t = output_of s"
    by (auto simp: output_of_def cl fun_eq_iff split: option.split)
  with rx Cons.prems have "\<forall>k \<in> set ks. listening t k" by (simp add: listening_def)
  from Cons.IH [OF this] obtain u where
    run': "for_each (announce_to E i ms) ks t = (Ok (), u)" and
    cl': "map_of (clients u) = (\<lambda>k. if k \<in> set ks then map_option (mark i) (map_of (clients t) k) else map_of (clients t) k)" and
    q': "\<forall>c. ch_queue (channels u c) = ch_queue (channels t c) @
       replicate (length (filter (\<lambda>ci. output_of t ci = Some c) ks)) (WsText json)" and
    rx': "\<forall>c. ch_rx_open (channels u c) = ch_rx_open (channels t c)"
    by blast
  from run run' have "for_each (announce_to E i ms) (ci # ks) s = (Ok (), u)"
    by (simp add: try_bind_def)
  moreover have "map_of (clients u) =
      (\<lambda>k. if k \<in> set (ci # ks) then map_option (mark i) (map_of (clients s) k) else map_of (clients s) k)"
    by (auto simp: cl cl' fun_eq_iff option.map_comp comp_def)
  ultimately show ?case using q q' rx rx' by (intro exI [of _ u]) (auto simp: out)
qed (simp add: act_simps)

text \<open>The announcement of a topic nobody has to be answered for.\<close>

lemma announce_topic_run:
  fixes E :: "('v, 't, 'm, string) ext"
  assumes "map_of (topics s) i = Some t" and "json_laws E"
    and "\<forall>ci. interested s (t_name t) ci \<longrightarrow> listening s ci"
  shows "\<exists>json u. announce_topic E i None s = (Ok (), u) \<and>
    json_read_list E json = Some [Announce \<lparr>an_name = t_name t, an_id = i, an_type = t_type t,
      an_pubuid = None, an_properties = unwrap_or publish_properties_default (t_properties t)\<rparr>] \<and>
    map_of (clients u) = (\<lambda>k. if interested s (t_name t) k then map_option (mark i) (map_of (clients s) k)
      else map_of (clients s) k) \<and>
    (\<forall>c. ch_queue (channels u c) = ch_queue (channels s c) @
       replicate (length (filter (\<lambda>ci. output_of s ci = Some c) (clients_to_notify s (t_name t)))) (WsText json))"
proof -
  let ?ms = "[Announce \<lparr>an_name = t_name t, an_id = i, an_type = t_type t, an_pubuid = None,
      an_properties = unwrap_or publish_properties_default (t_properties t)\<rparr>]"
  from assms(2) obtain json where json: "json_write_list E ?ms = Some json" "json_read_list E json = Some ?ms"
    unfolding json_laws_def by blast
  from assms(3) have "\<forall>ci \<in> set (clients_to_notify s (t_name t)). listening s ci"
    by (simp add: set_clients_to_notify)
  from announce_all_run [OF json(1) this, of i] obtain u where
    "for_each (announce_to E i ?ms) (clients_to_notify s (t_name t)) s = (Ok (), u)"
    "map_of (clients u) = (\<lambda>k. if interested s (t_name t) k then map_option (mark i) (map_of (clients s) k)
      else map_of (clients s) k)"
    "\<forall>c. ch_queue (channels u c) = ch_queue (channels s c) @
       replicate (length (filter (\<lambda>ci. output_of s ci = Some c) (clients_to_notify s (t_name t)))) (WsText json)"
    by (auto simp: set_clients_to_notify)
  then show ?thesis
    by (intro exI [of _ json] exI [of _ u]) (simp add: announce_topic_def assms(1) json(2) Let_def)
qed

end
