(* ===== verification/Server_Publishing.thy ===== *)
theory Server_Publishing
  imports Server_Announce
begin

text \<open>
  What publishing, taking a publication back and setting a value do to the registry, the counts
  and the stores.
\<close>

section \<open>Values\<close>

text \<open>The value a topic keeps: the one with the greater timestamp, the older one of two equal.\<close>

definition newest :: "'v timestamped_value option \<Rightarrow> 'v timestamped_value \<Rightarrow> 'v timestamped_value" where
  "newest old v =
    (case old of None \<Rightarrow> v | Some w \<Rightarrow> if tv_timestamp w < tv_timestamp v then v else w)"

lemma store_value_eq:
  "map_of (topic_value_map (store_value i v s)) =
    (map_of (topic_value_map s))(i \<mapsto> newest (map_of (topic_value_map s) i) v)"
  "topics (store_value i v s) = topics s" "topic_map (store_value i v s) = topic_map s"
  "sub_values (store_value i v s) = sub_values s" "topic_sub_map (store_value i v s) = topic_sub_map s"
  by (auto simp: store_value_def newest_def split: option.split)

lemma push_values_stores:
  assumes "set js \<subseteq> hm_keys (sub_values s)"
  shows "\<exists>sv. push_values i v js s = (Ok (), s\<lparr>sub_values := sv\<rparr>) \<and>
    (\<forall>j. map_of sv j =
      map_option ((add_value i (NormalValue v)) ^^ (count_list js j)) (map_of (sub_values s) j))"
  using assms
proof (induction js arbitrary: s)
  case Nil
  show ?case by (rule exI [of _ "sub_values s"]) (simp add: option.map_id0 [unfolded id_def])
next
  case (Cons j js)
  then obtain st where st: "map_of (sub_values s) j = Some st" by auto
  let ?s = "s\<lparr>sub_values := hm_insert j (add_value i (NormalValue v) st) (sub_values s)\<rparr>"
  have "set js \<subseteq> hm_keys (sub_values ?s)" using Cons.prems by auto
  from Cons.IH [OF this] obtain sv where run: "push_values i v js ?s = (Ok (), ?s\<lparr>sub_values := sv\<rparr>)"
    and sv: "\<forall>k. map_of sv k =
      map_option ((add_value i (NormalValue v)) ^^ (count_list js k)) (map_of (sub_values ?s) k)"
    by blast
  have "map_of sv k = map_option ((add_value i (NormalValue v)) ^^ (count_list (j # js) k)) (map_of (sub_values s) k)" for k
    using sv st by (simp add: funpow_swap1)
  with run st show ?case by (intro exI [of _ sv]) simp
qed

lemma pending_added_times:
  "pending ((add_value t v ^^ n) st) u =
    (if u \<noteq> t \<or> n = 0 then pending st u else if keeps_all st then pending st u @ replicate n v else [v])"
proof (induction n)
  case (Suc n)
  have "keeps_all ((add_value t v ^^ n) st) = keeps_all st" by (induction n) simp_all
  with Suc show ?case
    by (cases "n = 0") (auto simp: pending_add_value replicate_append_same)
qed simp

lemma set_value_effect:
  assumes s: "server_inv s" and t: "map_of (topics s) i = Some t" and normal: "CHR ''$'' \<notin> set (t_name t)"
  shows "\<exists>u subs. set_value v i s = (Ok (), u) \<and> map_of (topic_sub_map s) i = Some subs \<and>
    topics u = topics s \<and> topic_map u = topic_map s \<and> topic_sub_map u = topic_sub_map s \<and>
    map_of (topic_value_map u) = (map_of (topic_value_map s))(i \<mapsto> newest (map_of (topic_value_map s) i) v) \<and>
    (\<forall>j. map_of (sub_values u) j =
      map_option ((add_value i (NormalValue v)) ^^ (count_list subs j)) (map_of (sub_values s) j))"
proof -
  from inv_topic_listed [OF s t] obtain subs where subs: "map_of (topic_sub_map s) i = Some subs" by auto
  have "set subs \<subseteq> hm_keys (sub_values s)" using inv_sub_stored [OF s subs] by blast
  from push_values_stores [OF this, of i v] obtain sv where
    run: "push_values i v subs s = (Ok (), s\<lparr>sub_values := sv\<rparr>)"
    and sv: "\<forall>j. map_of sv j =
      map_option ((add_value i (NormalValue v)) ^^ (count_list subs j)) (map_of (sub_values s) j)"
    by blast
  have "set_value v i s = (Ok (), store_value i v (s\<lparr>sub_values := sv\<rparr>))"
    using t subs normal run by (simp add: set_value_def try_bind_def act_simps)
  with sv subs show ?thesis
    by (intro exI [of _ "store_value i v (s\<lparr>sub_values := sv\<rparr>)"] exI [of _ subs])
      (simp add: store_value_eq)
qed

text \<open>A run of values for one topic: the last word has the greatest timestamp.\<close>

lemma set_values_run:
  assumes "server_inv s" and "map_of (topics s) i = Some t" and "CHR ''$'' \<notin> set (t_name t)"
  shows "\<exists>u. for_each (\<lambda>v. set_value v i) vs s = (Ok (), u) \<and> server_inv u \<and> topics u = topics s \<and>
    map_of (topic_value_map u) i = foldl (\<lambda>old v. Some (newest old v)) (map_of (topic_value_map s) i) vs"
  using assms
proof (induction vs arbitrary: s)
  case (Cons v vs)
  from set_value_effect [OF Cons.prems, of v] obtain u where
    u: "set_value v i s = (Ok (), u)" "topics u = topics s"
      "map_of (topic_value_map u) i = Some (newest (map_of (topic_value_map s) i) v)"
    by auto
  have inv: "server_inv u" using set_value_cases [OF Cons.prems(1), of v i] u(1) by simp
  have "map_of (topics u) i = Some t" using Cons.prems(2) u(2) by simp
  from Cons.IH [OF inv this Cons.prems(3)] u show ?case
    by (simp add: try_bind_def)
qed (simp add: act_simps)

lemma foldl_newest:
  "foldl (\<lambda>old v. Some (newest old v)) old vs = w \<Longrightarrow>
    (case w of
       None \<Rightarrow> old = None \<and> vs = []
     | Some x \<Rightarrow> x \<in> set_option old \<union> set vs \<and>
         (\<forall>y \<in> set_option old \<union> set vs. tv_timestamp y \<le> tv_timestamp x))"
proof (induction vs arbitrary: old)
  case (Cons v vs)
  then have "foldl (\<lambda>old v. Some (newest old v)) (Some (newest old v)) vs = w" by simp
  from Cons.IH [OF this] show ?case
    by (auto simp: newest_def split: option.splits if_splits intro: order.trans less_imp_le)
qed (auto split: option.split)

section \<open>Publishing\<close>

lemma bind_pubuid_Ok:
  "bind_pubuid ci p i s = (Ok (), u) \<Longrightarrow>
    \<exists>cl. map_of (clients s) ci = Some cl \<and>
      u = s\<lparr>clients := hm_insert ci (cl\<lparr>cc_pubuid_to_topicidx := snd (bm_insert p i (cc_pubuid_to_topicidx cl))\<rparr>)
        (clients s)\<rparr>"
  by (auto simp: bind_pubuid_def split: option.splits)

lemma record_publisher_Ok:
  "record_publisher ci m s = (Ok (), u) \<Longrightarrow>
    \<exists>x. u = s\<lparr>metatopic_value_map := x\<rparr>"
  by (auto simp: record_publisher_def split: if_splits option.splits)

text \<open>
  A publication that returns: the name leads to the topic, the id of the publisher is bound to
  it, and a topic that was known keeps its properties and its count.
\<close>

lemma publish_effect:
  assumes s: "server_inv s" and run: "inner_publish_topic E p ci s = (Ok i, u)"
  shows "map_of (topic_map u) (pt_name p) = Some i \<and>
    (\<exists>cl. map_of (clients u) ci = Some cl \<and>
      bm_get_by_left (cc_pubuid_to_topicidx cl) (pt_pubuid p) = Some i) \<and>
    (case map_of (topic_map s) (pt_name p) of
       Some k \<Rightarrow> i = k \<and> topics u = topics s \<and> pub_count u = pub_count s \<and> topic_map u = topic_map s
     | None \<Rightarrow> map_of (topics u) i = Some (from_publish_topic p) \<and>
         hm_keys (topic_map u) = hm_keys (topic_map s) \<union> entailed_names (pt_name p))"
proof -
  from run obtain s1 s2 s3 where
    add: "add_topic E (from_publish_topic p) s = (Ok i, s1)" and
    ann: "announce_topic E i (Some (pt_pubuid p, ci)) s1 = (Ok (), s2)" and
    bind: "bind_pubuid ci (pt_pubuid p) i s2 = (Ok (), s3)" and
    rec: "record_publisher ci \<lparr>cp_topic = pt_name p, cp_uid = pt_pubuid p\<rparr> s3 = (Ok (), u)"
    by (auto simp: inner_publish_topic_def Let_def try_bind_eq_Ok act_simps)
  from bind_pubuid_Ok [OF bind] record_publisher_Ok [OF rec] announce_fields [OF ann]
  have same: "topics u = topics s1" "topic_map u = topic_map s1" "pub_count u = pub_count s1"
    by auto
  from bind_pubuid_Ok [OF bind] record_publisher_Ok [OF rec]
  have "\<exists>cl. map_of (clients u) ci = Some cl \<and>
      bm_get_by_left (cc_pubuid_to_topicidx cl) (pt_pubuid p) = Some i"
    by auto
  moreover have "map_of (topic_map u) (pt_name p) = Some i \<and>
    (case map_of (topic_map s) (pt_name p) of
       Some k \<Rightarrow> i = k \<and> topics u = topics s \<and> pub_count u = pub_count s \<and> topic_map u = topic_map s
     | None \<Rightarrow> map_of (topics u) i = Some (from_publish_topic p) \<and>
         hm_keys (topic_map u) = hm_keys (topic_map s) \<union> entailed_names (pt_name p))"
  proof (cases "map_of (topic_map s) (pt_name p)")
    case None
    with add_new_topic [OF s _ add] same show ?thesis by (simp add: extends_def)
  next
    case (Some k)
    with add add_topic_known [of s "from_publish_topic p" k E] same show ?thesis by simp
  qed
  ultimately show ?thesis by blast
qed

section \<open>Taking a publication back\<close>

lemma erase_publisher_run:
  assumes "ci = SERVER_CLIENT_IDX \<or> ci \<in> hm_keys (client_metatopic_map s)"
  shows "\<exists>x. erase_publisher ci m s = (Ok (), s\<lparr>metatopic_value_map := x\<rparr>)"
  using assms by (auto simp: erase_publisher_def split: option.splits)

lemma remove_topic_keeps:
  "client_metatopic_map (snd (remove_topic i s)) = client_metatopic_map s"
  "pub_count (snd (remove_topic i s)) = pub_count s"
  by (auto simp: remove_topic_def Let_def split: option.splits)

definition unbound :: "('v, 't) server \<Rightarrow> client_idx \<Rightarrow> connected_client \<Rightarrow> pub_uid \<Rightarrow> ('v, 't) server" where
  "unbound s ci cl p = s\<lparr>clients := hm_insert ci
     (cl\<lparr>cc_pubuid_to_topicidx := snd (bm_remove_by_left p (cc_pubuid_to_topicidx cl))\<rparr>) (clients s)\<rparr>"

lemma unbound_simps [simp]:
  "topics (unbound s ci cl p) = topics s" "topic_map (unbound s ci cl p) = topic_map s"
  "pub_count (unbound s ci cl p) = pub_count s"
  "client_metatopic_map (unbound s ci cl p) = client_metatopic_map s"
  "topic_value_map (unbound s ci cl p) = topic_value_map s"
  by (simp_all add: unbound_def)

lemma unpublish_start:
  assumes "map_of (clients s) ci = Some cl"
    and "bm_get_by_left (cc_pubuid_to_topicidx cl) (up_pubuid p) = Some i"
  shows "inner_unpublish_topic p ci s =
    try_bind (release_publisher i) (\<lambda>_. erase_publisher ci
      \<lparr>cp_topic = unwrap_or '''' (map_option t_name (map_of (topics s) i)), cp_uid = up_pubuid p\<rparr>)
      (unbound s ci cl (up_pubuid p))"
proof -
  have "unbind_pubuid ci (up_pubuid p) s = (Ok i, unbound s ci cl (up_pubuid p))"
    using assms by (simp add: unbind_pubuid_def unbound_def bm_remove_by_left_def bm_get_by_left_def)
  then show ?thesis
    by (simp add: inner_unpublish_topic_def try_bind_def [of "unbind_pubuid _ _"])
qed

lemma checked_sub_one: "checked_sub n 1 = (if n = 0 then None else Some (n - 1))" for n :: u16
  by (auto simp: checked_sub_def word_le_nat_alt unat_eq_zero Suc_le_eq unat_gt_0)

lemma unpublish_effect:
  assumes cl: "map_of (clients s) ci = Some cl"
    and bound: "bm_get_by_left (cc_pubuid_to_topicidx cl) (up_pubuid p) = Some i"
    and count: "map_of (pub_count s) i = Some n"
    and meta: "ci = SERVER_CLIENT_IDX \<or> ci \<in> hm_keys (client_metatopic_map s)"
  shows "(n = 0 \<longrightarrow> is_panic (fst (inner_unpublish_topic p ci s))) \<and>
    (1 < n \<longrightarrow> (\<exists>u. inner_unpublish_topic p ci s = (Ok (), u) \<and> topics u = topics s \<and>
       topic_map u = topic_map s \<and> topic_value_map u = topic_value_map s \<and>
       map_of (pub_count u) = (map_of (pub_count s))(i \<mapsto> n - 1))) \<and>
    (n = 1 \<and> fst (remove_topic i s) = Ok () \<longrightarrow> (\<exists>u. inner_unpublish_topic p ci s = (Ok (), u) \<and>
       topics u = topics (snd (remove_topic i s)) \<and> topic_map u = topic_map (snd (remove_topic i s)) \<and>
       topic_value_map u = topic_value_map (snd (remove_topic i s)) \<and>
       map_of (pub_count u) = (map_of (pub_count s))(i := None)))"
proof -
  let ?s = "unbound s ci cl (up_pubuid p)"
  let ?m = "\<lparr>cp_topic = unwrap_or '''' (map_option t_name (map_of (topics s) i)), cp_uid = up_pubuid p\<rparr>"
  let ?t = "?s\<lparr>pub_count := hm_insert i (n - 1) (pub_count s)\<rparr>"
  note start = unpublish_start [OF cl bound]
  have "is_panic (fst (inner_unpublish_topic p ci s))" if "n = 0"
    using that count by (simp add: start try_bind_def release_publisher_def checked_sub_one)
  moreover have "\<exists>u. inner_unpublish_topic p ci s = (Ok (), u) \<and> topics u = topics s \<and>
      topic_map u = topic_map s \<and> topic_value_map u = topic_value_map s \<and>
      map_of (pub_count u) = (map_of (pub_count s))(i \<mapsto> n - 1)" if n: "1 < n"
  proof -
    from n have "n \<noteq> 0" "n - 1 \<noteq> 0" by auto
    with count have "release_publisher i ?s = (Ok (), ?t)"
      by (simp add: release_publisher_def checked_sub_one Let_def)
    moreover obtain x where "erase_publisher ci ?m ?t = (Ok (), ?t\<lparr>metatopic_value_map := x\<rparr>)"
      using erase_publisher_run [of ci ?t] meta by auto
    ultimately show ?thesis
      by (simp add: start try_bind_def [of "release_publisher _"])
  qed
  moreover have "\<exists>u. inner_unpublish_topic p ci s = (Ok (), u) \<and>
       topics u = topics (snd (remove_topic i s)) \<and> topic_map u = topic_map (snd (remove_topic i s)) \<and>
       topic_value_map u = topic_value_map (snd (remove_topic i s)) \<and>
       map_of (pub_count u) = (map_of (pub_count s))(i := None)"
    if n: "n = 1" and ok: "fst (remove_topic i s) = Ok ()"
  proof -
    have same: "fst (remove_topic i ?t) = Ok ()" "topics (snd (remove_topic i ?t)) = topics (snd (remove_topic i s))"
      "topic_map (snd (remove_topic i ?t)) = topic_map (snd (remove_topic i s))"
      "topic_value_map (snd (remove_topic i ?t)) = topic_value_map (snd (remove_topic i s))"
      using ok by (auto simp: remove_topic_def Let_def split: option.splits)
    let ?v = "snd (remove_topic i ?t)\<lparr>pub_count := hm_remove i (pub_count ?t)\<rparr>"
    have "release_publisher i ?s = (Ok (), ?v)"
      using count n same(1) remove_topic_keeps(2) [of i ?t]
      by (cases "remove_topic i ?t") (simp add: release_publisher_def checked_sub_one Let_def try_bind_def act_simps)
    moreover obtain x where "erase_publisher ci ?m ?v = (Ok (), ?v\<lparr>metatopic_value_map := x\<rparr>)"
      using erase_publisher_run [of ci ?v] meta remove_topic_keeps(1) [of i ?t] by auto
    ultimately show ?thesis
      using same by (simp add: start try_bind_def [of "release_publisher _"])
  qed
  ultimately show ?thesis by blast
qed

end
