(* ===== verification/Wire.thy ===== *)
theory Wire
  imports Client_Connection Server_Publishing
begin

text \<open>
  The two ends of a connection together: the request for the time and its answer, and a topic
  that is published and then set by a client.
\<close>

section \<open>The time\<close>

text \<open>The answer of the server, as \<open>incoming\<close> writes it.\<close>

definition reply_bytes :: "('v, 't, 'm, 'ty) ext \<Rightarrow> u64 \<Rightarrow> u64 \<Rightarrow> u8 list" where
  "reply_bytes E sn t =
    the (rmp_array_len E 4) @ the (rmp_i32 E (-1)) @ the (rmp_uint E sn) @
    the (rmp_u8 E (as_u8 FrcInt)) @ the (rmp_uint E t)"

lemma reads_as_all: "reads_as E b v \<Longrightarrow> rmpv_read E b = Some (v, [])"
  unfolding reads_as_def by (metis append_Nil2)

lemma server_answers:
  assumes laws: "msgpack_laws E"
  shows "incoming E sn (WsBinary (time_request E ty t)) = Ok (TimeReply (reply_bytes E sn t))"
proof -
  obtain b1 v1 where id: "rmp_i32 E (-1) = Some (210 # b1)" "reads_as E (210 # b1) v1"
    using msgpack_i32 [OF laws] by metis
  obtain b2 v2 where time: "rmp_uint E 0 = Some b2" "reads_as E b2 v2"
    using msgpack_uint [OF laws] by metis
  obtain b3 v3 where code: "rmp_u8 E (as_u8 ty) = Some b3" "reads_as E b3 v3"
    using msgpack_u8 [OF laws] by metis
  obtain b4 where vl: "rmpv_write E (rmpv_of_u64 E t) = Some b4" "reads_as E b4 (rmpv_of_u64 E t)"
    "rmpv_is_integer E (rmpv_of_u64 E t)" "rmpv_as_u64 E (rmpv_of_u64 E t) = Some t"
    using msgpack_of_u64 [OF laws] by metis
  obtain a where a: "reads_as E (148 # (210 # b1) @ b2 @ b3 @ b4) a"
    "rmpv_as_array E a = Some [v1, v2, v3, rmpv_of_u64 E t]"
    using msgpack_array [OF laws id(2) time(2) code(2) vl(2)] by metis
  have bytes: "time_request E ty t = 148 # (210 # b1) @ b2 @ b3 @ b4"
    using msgpack_array_len [OF laws] id time code vl by (simp add: time_request_def value_bytes_def)
  from msgpack_total [OF laws] have "None \<notin> set
      [rmp_array_len E 4, rmp_i32 E (-1), rmp_uint E sn, rmp_u8 E (as_u8 FrcInt), rmp_uint E t]"
    unfolding rmp_total_def by (auto, metis+)
  from write_all_total [OF this] reads_as_all [OF a(1)] a(2) vl(3,4) show ?thesis
    by (simp add: incoming_def bytes time_sync_def reply_bytes_def)
qed

text \<open>The answer arrives: one value, an array, whose first element is the id of the time.\<close>

lemma client_takes_answer:
  assumes laws: "msgpack_laws E"
  shows "handle_message E (WsBinary (reply_bytes E sn t)) =
    Some (try_bind (try_bind (handle_new_timestamp sn (if unat t < 2 ^ 63 then Some t else None)) (\<lambda>done.
            case done of
              Some _ \<Rightarrow> ret ()
            | None \<Rightarrow>
                try_bind instant_now (\<lambda>now.
                try_bind (modify (\<lambda>c. c\<lparr>nc_start_instant := now\<rparr>)) (\<lambda>_.
                try_bind (ignore_err (update_time E)) (\<lambda>_.
                try_bind (handle_new_timestamp sn (if unat t < 2 ^ 63 then Some t else None)) (\<lambda>_.
                ret ()))))))
      (\<lambda>_. ret ()))"
proof -
  obtain b1 v1 where id: "rmp_i32 E (-1) = Some (210 # b1)" "reads_as E (210 # b1) v1"
    "rmpv_as_i64 E v1 = Some (scast (-1 :: i32))"
    using msgpack_i32 [OF laws] by metis
  obtain b2 v2 where time: "rmp_uint E sn = Some b2" "reads_as E b2 v2" "rmpv_as_u64 E v2 = Some sn"
    using msgpack_uint [OF laws] by metis
  obtain b3 v3 where code: "rmp_u8 E (as_u8 FrcInt) = Some b3" "reads_as E b3 v3"
    using msgpack_u8 [OF laws] by metis
  obtain b4 v4 where vl: "rmp_uint E t = Some b4" "reads_as E b4 v4"
    "rmpv_as_i64 E v4 = (if unat t < 2 ^ 63 then Some t else None)"
    using msgpack_uint [OF laws] by metis
  obtain a where a: "reads_as E (148 # (210 # b1) @ b2 @ b3 @ b4) a"
    "rmpv_as_array E a = Some [v1, v2, v3, v4]"
    using msgpack_array [OF laws id(2) time(2) code(2) vl(2)] by metis
  have bytes: "reply_bytes E sn t = 148 # (210 # b1) @ b2 @ b3 @ b4"
    using msgpack_array_len [OF laws] id time code vl by (simp add: reply_bytes_def)
  have "decode_values E (Suc (length (reply_bytes E sn t))) (reply_bytes E sn t) = Some [a]"
    using reads_as_all [OF a(1)] msgpack_array_len [OF laws] unfolding bytes by simp
  moreover have "(ucast (scast (-1 :: i32) :: i64) :: i32) = -1"
    by (simp add: bit_eq_iff bit_simps)
  ultimately show ?thesis
    using a(2) id(3) time(3) vl(3)
    by (simp add: handle_message_def handle_value_def del: decode_values.simps)
qed

lemma new_timestamp_run:
  assumes "client_timestamp \<le> recv" and "recv = micros_since (shd (nc_clock c)) (nc_start_instant c)"
    and "(recv - client_timestamp) div 2 \<le> sn" and "recv \<le> sn - (recv - client_timestamp) div 2"
  shows "handle_new_timestamp sn (Some client_timestamp) c =
    (Ok (Some ()), c\<lparr>nc_clock := stl (nc_clock c),
       nc_server_time_offset := sn - (recv - client_timestamp) div 2 - recv\<rparr>)"
  using assms
  by (simp add: handle_new_timestamp_def try_bind_Ok [OF client_time_run] checked_sub_def act_simps)

section \<open>Both ends of the texts\<close>

text \<open>The same message with its types written another way.\<close>

fun retype :: "('a \<Rightarrow> 'b) \<Rightarrow> 'a nt_message \<Rightarrow> 'b nt_message" where
  "retype f (Publish p) =
     Publish \<lparr>pt_name = pt_name p, pt_pubuid = pt_pubuid p, pt_type = f (pt_type p), pt_properties = pt_properties p\<rparr>"
| "retype f (Announce a) =
     Announce \<lparr>an_name = an_name a, an_id = an_id a, an_type = f (an_type a), an_pubuid = an_pubuid a,
               an_properties = an_properties a\<rparr>"
| "retype f (Unpublish p) = Unpublish p"
| "retype f (Subscribe p) = Subscribe p"
| "retype f (Unsubscribe p) = Unsubscribe p"
| "retype f (SetProperties p) = SetProperties p"
| "retype f (UnAnnounce p) = UnAnnounce p"
| "retype f (Properties p) = Properties p"
| "retype f (Close p) = Close p"

text \<open>
  Client and server use the same crates: the server reads the messages the client wrote, with
  the types by their names, and the same values in the same bytes.
\<close>

definition speaks :: "(frc_type \<Rightarrow> string) \<Rightarrow> ('v, 't, 'm, frc_type) ext \<Rightarrow> ('v, 't, 'm, string) ext \<Rightarrow> bool" where
  "speaks type_name Ec Es \<longleftrightarrow>
    (\<forall>ms. \<exists>t. json_write_list Ec ms = Some t \<and> json_read_list Es t = Some (map (retype type_name) ms)) \<and>
    rmpv_read Es = rmpv_read Ec \<and> rmpv_as_u64 Es = rmpv_as_u64 Ec \<and>
    rmpv_as_array Es = rmpv_as_array Ec \<and> frc_of_rmpv Es = frc_of_rmpv Ec"

lemma client_publish_run:
  assumes "alive c" and "speaks type_name Ec Es" and "client_publish_topic Ec name ty None c = (r, c1)"
  shows "\<exists>t n. r = Ok \<lparr>pd_name = clean_name name, pd_pubuid = n, pd_type = ty, pd_properties = None\<rparr> \<and>
    nc_socket_queue c1 = nc_socket_queue c @ [WsText t] \<and> alive c1 \<and>
    json_read_list Es t = Some [Publish \<lparr>pt_name = clean_name name, pt_pubuid = n,
      pt_type = type_name ty, pt_properties = None\<rparr>]"
proof -
  let ?n = "unwrap_or 1 (checked_add (nc_topic_counter c) 1)"
  let ?m = "Publish \<lparr>pt_name = clean_name name, pt_pubuid = ?n, pt_type = ty, pt_properties = None\<rparr>"
  from assms(2) obtain t where w: "json_write_list Ec [?m] = Some t"
    and "json_read_list Es t = Some (map (retype type_name) [?m])"
    unfolding speaks_def by blast
  moreover have "new_topic_id c = (Ok ?n, c\<lparr>nc_topic_counter := ?n\<rparr>)"
    by (simp add: new_topic_id_def Let_def)
  moreover from assms(1) w have "send_json Ec [?m] (c\<lparr>nc_topic_counter := ?n\<rparr>) =
      (Ok (), push [WsText t] (c\<lparr>nc_topic_counter := ?n\<rparr>))"
    by (simp add: send_json_def send_alive)
  ultimately show ?thesis
    using assms(1,3) by (auto simp: client_publish_topic_def try_bind_Ok Let_def act_simps push_def)
qed

lemma client_value_bytes:
  assumes laws: "msgpack_laws E" and vb: "rmpv_write E v = Some vb" "reads_as E vb v"
  shows "\<exists>b a v1 v2 v3. value_bytes E (UnsignedInt n) ty ts v = 148 # 206 # b \<and>
    reads_as E (148 # 206 # b) a \<and> rmpv_as_array E a = Some [v1, v2, v3, v] \<and>
    rmpv_as_u64 E v1 = Some (ucast n) \<and> rmpv_as_u64 E v2 = Some (ucast ts)"
proof -
  obtain b1 v1 where id: "rmp_u32 E n = Some (206 # b1)" "reads_as E (206 # b1) v1"
    "rmpv_as_u64 E v1 = Some (ucast n)"
    using msgpack_u32 [OF laws] by metis
  obtain b2 v2 where time: "rmp_uint E (ucast ts) = Some b2" "reads_as E b2 v2"
    "rmpv_as_u64 E v2 = Some (ucast ts)"
    using msgpack_uint [OF laws] by metis
  obtain b3 v3 where code: "rmp_u8 E (as_u8 ty) = Some b3" "reads_as E b3 v3"
    using msgpack_u8 [OF laws] by metis
  obtain a where "reads_as E (148 # (206 # b1) @ b2 @ b3 @ vb) a" "rmpv_as_array E a = Some [v1, v2, v3, v]"
    using msgpack_array [OF laws id(2) time(2) code(2) vb(2)] by metis
  moreover have "value_bytes E (UnsignedInt n) ty ts v = 148 # 206 # (b1 @ b2 @ b3 @ vb)"
    using msgpack_array_len [OF laws] id time code vb by (simp add: value_bytes_def)
  ultimately show ?thesis using id(3) time(3) by force
qed

lemma ucast_u32_u64:
  "unat (ucast (n :: u32) :: u64) < 2 ^ 32" "ucast (ucast (n :: u32) :: u64) = n"
proof -
  have "take_bit 64 (unat n) = unat n"
    by (rule take_bit_nat_eq_self) (use unsigned_less [of n, where ?'a = nat] in simp)
  then have eq: "unat (ucast n :: u64) = unat n" by (simp add: unsigned_ucast_eq)
  then show "unat (ucast n :: u64) < 2 ^ 32" using unsigned_less [of n, where ?'a = nat] by simp
  show "ucast (ucast n :: u64) = n" by (rule bit_word_eqI) (simp add: bit_simps)
qed

text \<open>The server takes a value for a topic its client publishes.\<close>

lemma server_takes_value:
  assumes laws: "msgpack_laws Ec" and "speaks type_name Ec Es"
    and "rmpv_write Ec v = Some vb" "reads_as Ec vb v" "frc_of_rmpv Ec v = Some w"
    and "map_of (clients s) ci = Some cl" "bm_get_by_left (cc_pubuid_to_topicidx cl) n = Some k"
    and "set_value \<lparr>tv_timestamp = ucast ts, tv_value = w\<rparr> k s = (Ok (), u)"
  shows "incoming Es sn (WsBinary (value_bytes Ec (UnsignedInt n) ty ts v)) =
      Ok (Forwarded (WsBinary (value_bytes Ec (UnsignedInt n) ty ts v)))"
    and "\<exists>m. parse_in Es now ci (WsBinary (value_bytes Ec (UnsignedInt n) ty ts v)) = Some m \<and> m s = (Ok (), u)"
proof -
  from client_value_bytes [OF laws assms(3,4), of n ty ts] obtain b a v1 v2 v3 where
    bytes: "value_bytes Ec (UnsignedInt n) ty ts v = 148 # 206 # b"
    and a: "reads_as Ec (148 # 206 # b) a" "rmpv_as_array Ec a = Some [v1, v2, v3, v]"
      "rmpv_as_u64 Ec v1 = Some (ucast n)" "rmpv_as_u64 Ec v2 = Some (ucast ts)"
    by blast
  note same = assms(2) [unfolded speaks_def]
  show "incoming Es sn (WsBinary (value_bytes Ec (UnsignedInt n) ty ts v)) =
      Ok (Forwarded (WsBinary (value_bytes Ec (UnsignedInt n) ty ts v)))"
    by (simp add: incoming_def bytes)
  have dec: "decode_values Es (Suc (length (148 # 206 # b))) (148 # 206 # b) = Some [a]"
    using reads_as_all [OF a(1)] msgpack_array_len [OF laws] same by simp
  have upd: "decode_update Es [v1, v2, v3, v] = Ok (n, \<lparr>tv_timestamp = ucast ts, tv_value = w\<rparr>)"
    using a(3,4) assms(5) same ucast_u32_u64 [of n] by (simp add: decode_update_def)
  have applied: "apply_update ci n \<lparr>tv_timestamp = ucast ts, tv_value = w\<rparr> s = (Ok (), u)"
    by (simp only: apply_update_def assms(6,7) option.case ignore_err_def assms(8) prod.case outcome.case)
  have "rmpv_as_array Es a = Some [v1, v2, v3, v]" using a(2) same by simp
  then have "parse_value Es ci a s = (Ok (), u)"
    by (simp only: parse_value_def option.case upd outcome.case prod.case) (rule applied)
  then show "\<exists>m. parse_in Es now ci (WsBinary (value_bytes Ec (UnsignedInt n) ty ts v)) = Some m \<and>
      m s = (Ok (), u)"
    by (simp only: parse_in_def ws_message.case parse_binary_def bytes dec option.map option.inject ex_simps
        simp_thms for_each.simps) (simp add: try_bind_Ok act_simps)
qed

text \<open>A publication that succeeds leaves a topic, under the name that was asked for.\<close>

lemma published_topic_there:
  assumes s: "server_inv s" and u: "server_inv u" and run: "inner_publish_topic E p ci s = (Ok i, u)"
  shows "\<exists>t. map_of (topics u) i = Some t \<and> t_name t = pt_name p"
proof -
  from run obtain s1 s2 s3 where
    add: "add_topic E (from_publish_topic p) s = (Ok i, s1)" and
    ann: "announce_topic E i (Some (pt_pubuid p, ci)) s1 = (Ok (), s2)" and
    bind: "bind_pubuid ci (pt_pubuid p) i s2 = (Ok (), s3)" and
    rec: "record_publisher ci \<lparr>cp_topic = pt_name p, cp_uid = pt_pubuid p\<rparr> s3 = (Ok (), u)"
    by (auto simp: inner_publish_topic_def Let_def try_bind_eq_Ok act_simps)
  from ann obtain t where "map_of (topics s1) i = Some t"
    by (auto simp: announce_topic_def split: option.splits)
  with bind_pubuid_Ok [OF bind] record_publisher_Ok [OF rec] announce_fields [OF ann]
  have t: "map_of (topics u) i = Some t" by auto
  moreover from publish_effect [OF s run] have "map_of (topic_map u) (pt_name p) = Some i" by blast
  moreover have "\<forall>n i t. map_of (topic_map u) n = Some i \<longrightarrow> map_of (topics u) i = Some t \<longrightarrow> t_name t = n"
    using u unfolding server_inv_def registry_inv_def by (elim conjE)
  ultimately show ?thesis by blast
qed

section \<open>Announcements\<close>

text \<open>The client reads what the server reads, with the types by their names.\<close>

definition understands :: "(string \<Rightarrow> frc_type) \<Rightarrow> ('v, 't, 'm, string) ext \<Rightarrow> ('v, 't, 'm, frc_type) ext \<Rightarrow> bool" where
  "understands read_type Es Ec \<longleftrightarrow>
    (\<forall>t ms. json_read_list Es t = Some ms \<longrightarrow> json_read_list Ec t = Some (map (retype read_type) ms))"

lemma announced_run:
  assumes "map_of (nc_announced_topics c) (an_id a) = None"
  shows "handle_announce a c = (Ok (), c\<lparr>
    nc_announced_topics := hm_insert (an_id a)
      \<lparr>t_name = an_name a, t_type = an_type a, t_properties = Some (an_properties a)\<rparr> (nc_announced_topics c),
    nc_callbacks := nc_callbacks c @
      [OnAnnounce \<lparr>t_name = an_name a, t_type = an_type a, t_properties = Some (an_properties a)\<rparr>]\<rparr>)"
  using assms by (simp add: handle_announce_def try_bind_def call_back_def domIff act_simps)

end
