(* ===== verification/Sample_Runs.thy ===== *)
theory Sample_Runs
  imports Server_Registry Sample
begin

text \<open>
  Runs of the server on concrete requests, with the sample instance of the third-party
  functions: \<open>simp add: run_simps\<close> computes the outcome and any field of the state.
\<close>

lemmas [run_simps] = try_bind_def on_counters_def zoom_def act_simps Let_def
  next_topic_idx_def next_sub_idx_def next_client_idx_def checked_add_def checked_sub_def
  counter_default_def SERVER_CLIENT_IDX_def CLIENT_METATOPIC_def SERVER_PUB_METATOPIC_def
  add_topic.simps register_topic_def has_implicit_publisher_def remove_topic_def
  announce_topic_def clients_to_notify_def announce_reply_def announce_to_def
  send_nt_messages_def send_binary_def chan_send_def
  inner_publish_topic_def bind_pubuid_def record_publisher_def entry_merge_def entry_reduce_def
  inner_unpublish_topic_def unbind_pubuid_def release_publisher_def erase_publisher_def
  bm_new_def bm_insert_def bm_remove_by_left_def bm_get_by_left_def bm_iter_lr_def
  connect_client_def is_client_connected_def dedup_identity_def instances_of_ident_def
  admit_client_def new_client_def to_mte_def update_name_def
  disconnect_client_def drop_client_def drop_publisher_def
  subscribe_def interested_topics_def store_subscription_def cares_about_def get_options_def
  announced_type_def announce_msg_for_def current_value_bytes_def new_all_def new_one_def
  unsubscribe_def forget_subscription_def hm_map_values_def
  set_value_def store_value_def ignore_err_def parse_text_def server_client_def server_identity_def
  from_publish_topic_def subscription_options_default_def publish_properties_default_def

lemma str_contains_code [run_simps]:
  "str_contains [] (x # xs) = False" "str_contains ys [] = True"
  "str_contains (y # ys) (x # xs) = (prefix (x # xs) (y # ys) \<or> str_contains ys (x # xs))"
  by (simp_all add: str_contains_def sublist_Cons_right)

section \<open>A new server\<close>

lemma try_new_ok: "fst (try_new E addr) = Ok ()"
  by (simp add: try_new_run with_server_client_def empty_server_def server_client_def run_simps)

text \<open>The state a new server is in, whatever the third-party code does.\<close>

lemma new_server [run_simps]:
  "snd (try_new E addr) =
    \<lparr>server_addr = addr, callbacks = [],
     topics = [(0, new_meta ''$clients''), (1, new_meta ''$serversub''), (2, new_meta ''$serverpub'')],
     topic_map = [(''$clients'', 0), (''$serversub'', 1), (''$serverpub'', 2)],
     pub_count = [(0, 1), (1, 1), (2, 1)],
     topic_value_map = [], metatopic_value_map = [], client_map = [],
     clients = [(0, server_client)], client_metatopic_map = [], subscriptions = [],
     topic_sub_map = [(0, []), (1, []), (2, [])], sub_send_timestamps = [], sub_values = [],
     counters = \<lparr>c_topic_idx = 3, c_sub_idx = 0, c_client_idx = 1\<rparr>,
     kill_cells = (\<lambda>_. False),
     channels = (\<lambda>_. \<lparr>ch_queue = [], ch_rx_open = False, ch_tx_open = False\<rparr>), next_ref = 1\<rparr>"
  by (simp add: try_new_run with_server_client_def empty_server_def server_client_def run_simps)

section \<open>Clients, topics and values\<close>

abbreviation sample_addr :: socket_addr where
  "sample_addr \<equiv> V4 127 0 0 1 5810"

definition alice :: client_identity where
  "alice = ClientIdentity (V4 10 0 0 2 4000) ''alice''"

definition bob :: client_identity where
  "bob = ClientIdentity (V4 10 0 0 3 4000) ''bob''"

definition pub_speed :: "u32 \<Rightarrow> string publish_topic_msg" where
  "pub_speed uid = \<lparr>pt_name = ''speed'', pt_pubuid = uid, pt_type = ''int'', pt_properties = None\<rparr>"

definition sub_speed :: "subscribe_msg" where
  "sub_speed = \<lparr>sb_subuid = 5, sb_topics = {''speed''}, sb_options = None\<rparr>"

type_synonym sample_server = "(u64, string json) server"

text \<open>Two clients connect, the first publishes a topic, the second subscribes to it.\<close>

definition srv0 :: sample_server where
  "srv0 = snd (try_new sample sample_addr)"

definition srv1 :: sample_server where
  "srv1 = snd (connect_client sample alice srv0)"

definition srv2 :: sample_server where
  "srv2 = snd (connect_client sample bob srv1)"

definition srv3 :: sample_server where
  "srv3 = snd (parse_text sample 0 1 (Inl [Publish (pub_speed 21)]) srv2)"

definition srv4 :: sample_server where
  "srv4 = snd (parse_text sample 0 2 (Inl [Subscribe sub_speed]) srv3)"

lemmas [run_simps] = alice_def bob_def pub_speed_def sub_speed_def

text \<open>The states with both clients, and with the topic and the subscription.\<close>

lemma srv2_eq:
  "srv2 =
    \<lparr>server_addr = sample_addr, callbacks = [OnClientConnect, OnClientConnect], topics = [(0,
      new_meta ''$clients''), (1, new_meta ''$serversub''), (2, new_meta ''$serverpub''), (3,
      new_meta ''$clientpub$alice''), (4, new_meta ''$clientsub$alice''), (5,
      new_meta ''$clientpub$bob''), (6, new_meta ''$clientsub$bob'')], topic_map = [(''$clients'', 0),
      (''$serversub'', 1), (''$serverpub'', 2), (''$clientpub$alice'', 3), (''$clientsub$alice'', 4),
      (''$clientpub$bob'', 5), (''$clientsub$bob'', 6)], pub_count = [(0, 1), (1, 1), (2, 1), (3, 1),
      (4, 1), (5, 1), (6, 1)], topic_value_map = [], metatopic_value_map = [(0,
      MClient [\<lparr>cm_id = ''alice'',
      cm_conn = show_socket_addr (V4 10 0 0 2 4000)\<rparr>,
      \<lparr>cm_id = ''bob'',
      cm_conn = show_socket_addr (V4 10 0 0 3 4000)\<rparr>])],
      client_map = [(ClientIdentity (V4 10 0 0 2 4000) ''alice'', 1),
      (ClientIdentity (V4 10 0 0 3 4000) ''bob'', 2)], clients = [(0,
      \<lparr>cc_identity = ClientIdentity (V4 0 0 0 0 0) [], cc_kill_bool = 0,
      cc_pubuid_to_topicidx = \<lparr>bm_map = [], bm_rev_map = []\<rparr>,
      cc_subuid_to_subidx = \<lparr>bm_map = [], bm_rev_map = []\<rparr>, cc_subs = [],
      cc_sub_ouput = None, cc_announced_topics = {}\<rparr>), (1,
      \<lparr>cc_identity = ClientIdentity (V4 10 0 0 2 4000) ''alice'', cc_kill_bool = Suc 0,
      cc_pubuid_to_topicidx = \<lparr>bm_map = [], bm_rev_map = []\<rparr>,
      cc_subuid_to_subidx = \<lparr>bm_map = [], bm_rev_map = []\<rparr>, cc_subs = [],
      cc_sub_ouput = Some (Suc 0), cc_announced_topics = {}\<rparr>), (2,
      \<lparr>cc_identity = ClientIdentity (V4 10 0 0 3 4000) ''bob'', cc_kill_bool = Suc (Suc 0),
      cc_pubuid_to_topicidx = \<lparr>bm_map = [], bm_rev_map = []\<rparr>,
      cc_subuid_to_subidx = \<lparr>bm_map = [], bm_rev_map = []\<rparr>, cc_subs = [],
      cc_sub_ouput = Some (Suc (Suc 0)), cc_announced_topics = {}\<rparr>)],
      client_metatopic_map = [(1, 3, 4), (2, 5, 6)], subscriptions = [], topic_sub_map = [(0, []), (1,
      []), (2, []), (3, []), (4, []), (5, []), (6, [])], sub_send_timestamps = [], sub_values = [],
      counters = \<lparr>c_topic_idx = 7, c_sub_idx = 0, c_client_idx = 3\<rparr>,
      kill_cells = (\<lambda>_. False)(Suc 0 := False, Suc (Suc 0) := False),
      channels = (\<lambda>_. \<lparr>ch_queue = [], ch_rx_open = False,
      ch_tx_open = False\<rparr>) (Suc 0 := \<lparr>ch_queue = [], ch_rx_open = True,
      ch_tx_open = True\<rparr>, Suc (Suc 0) := \<lparr>ch_queue = [], ch_rx_open = True,
      ch_tx_open = True\<rparr>), next_ref = Suc (Suc (Suc 0))\<rparr>"
  unfolding srv2_def srv1_def srv0_def by (simp add: run_simps)

lemma srv4_eq:
  "srv4 =
    \<lparr>server_addr = sample_addr, callbacks = [OnClientConnect, OnClientConnect], topics = [(0,
      new_meta ''$clients''), (1, new_meta ''$serversub''), (2, new_meta ''$serverpub''), (3,
      new_meta ''$clientpub$alice''), (4, new_meta ''$clientsub$alice''), (5,
      new_meta ''$clientpub$bob''), (6, new_meta ''$clientsub$bob''), (7, \<lparr>t_name = ''speed'',
      t_type = ''int'', t_properties = None\<rparr>), (8, new_meta ''$pub$speed''), (9,
      new_meta ''$sub$speed'')], topic_map = [(''$clients'', 0), (''$serversub'', 1), (''$serverpub'',
      2), (''$clientpub$alice'', 3), (''$clientsub$alice'', 4), (''$clientpub$bob'', 5),
      (''$clientsub$bob'', 6), (''speed'', 7), (''$pub$speed'', 8), (''$sub$speed'', 9)],
      pub_count = [(0, 1), (1, 1), (2, 1), (3, 1), (4, 1), (5, 1), (6, 1), (7, 1), (8, 1), (9, 1)],
      topic_value_map = [], metatopic_value_map = [(0, MClient [\<lparr>cm_id = ''alice'',
      cm_conn = show_socket_addr (V4 10 0 0 2 4000)\<rparr>,
      \<lparr>cm_id = ''bob'',
      cm_conn = show_socket_addr (V4 10 0 0 3 4000)\<rparr>]),
      (3, MClientPublisher [\<lparr>cp_topic = ''speed'', cp_uid = 21\<rparr>])],
      client_map = [(ClientIdentity (V4 10 0 0 2 4000) ''alice'', 1),
      (ClientIdentity (V4 10 0 0 3 4000) ''bob'', 2)], clients = [(0,
      \<lparr>cc_identity = ClientIdentity (V4 0 0 0 0 0) [], cc_kill_bool = 0,
      cc_pubuid_to_topicidx = \<lparr>bm_map = [], bm_rev_map = []\<rparr>,
      cc_subuid_to_subidx = \<lparr>bm_map = [], bm_rev_map = []\<rparr>, cc_subs = [],
      cc_sub_ouput = None, cc_announced_topics = {}\<rparr>), (1,
      \<lparr>cc_identity = ClientIdentity (V4 10 0 0 2 4000) ''alice'', cc_kill_bool = Suc 0,
      cc_pubuid_to_topicidx = \<lparr>bm_map = [(21, 7)], bm_rev_map = [(7, 21)]\<rparr>,
      cc_subuid_to_subidx = \<lparr>bm_map = [], bm_rev_map = []\<rparr>, cc_subs = [],
      cc_sub_ouput = Some (Suc 0), cc_announced_topics = {7}\<rparr>), (2,
      \<lparr>cc_identity = ClientIdentity (V4 10 0 0 3 4000) ''bob'', cc_kill_bool = Suc (Suc 0),
      cc_pubuid_to_topicidx = \<lparr>bm_map = [], bm_rev_map = []\<rparr>,
      cc_subuid_to_subidx = \<lparr>bm_map = [(5, 0)], bm_rev_map = [(0, 5)]\<rparr>, cc_subs = [],
      cc_sub_ouput = Some (Suc (Suc 0)), cc_announced_topics = {}\<rparr>)],
      client_metatopic_map = [(1, 3, 4), (2, 5, 6)], subscriptions = [(0, \<lparr>sn_subuid = 5,
      sn_topics = {''speed''}, sn_options = None\<rparr>, 2)], topic_sub_map = [(0, []), (1, []), (2,
      []), (3, []), (4, []), (5, []), (6, []), (7, [0]), (8, []), (9, [])], sub_send_timestamps = [(0,
      0)], sub_values = [(0, StoreOne [])], counters = \<lparr>c_topic_idx = 10, c_sub_idx = 1,
      c_client_idx = 3\<rparr>, kill_cells = (\<lambda>_. False)(Suc 0 := False, Suc (Suc 0) := False),
      channels = (\<lambda>_. \<lparr>ch_queue = [], ch_rx_open = False,
      ch_tx_open = False\<rparr>) (Suc 0 := \<lparr>ch_queue = [WsText (Inl [Announce \<lparr>an_name = ''speed'',
      an_id = 7, an_type = ''int'', an_pubuid = Some 21, an_properties = \<lparr>pp_persistent = None,
      pp_retained = None\<rparr>\<rparr>])], ch_rx_open = True, ch_tx_open = True\<rparr>,
      Suc (Suc 0) := \<lparr>ch_queue = [WsText (Inl [Announce \<lparr>an_name = ''speed'', an_id = 7,
      an_type = ''int'', an_pubuid = None, an_properties = \<lparr>pp_persistent = None,
      pp_retained = None\<rparr>\<rparr>]), WsBinary []], ch_rx_open = True,
      ch_tx_open = True\<rparr>), next_ref = Suc (Suc (Suc 0))\<rparr>"
  unfolding srv4_def srv3_def srv2_def srv1_def srv0_def by (simp add: run_simps)

lemma srv0_reachable: "server_reachable sample sample_addr srv0"
  unfolding srv0_def by (rule starts)

lemma srv1_reachable: "server_reachable sample sample_addr srv1"
  unfolding srv1_def by (rule steps [OF srv0_reachable connects])

lemma srv2_reachable: "server_reachable sample sample_addr srv2"
  unfolding srv2_def by (rule steps [OF srv1_reachable connects])

lemma parse_text_step:
  "server_reachable E addr s \<Longrightarrow> server_reachable E addr (snd (parse_text E now ci t s))"
  by (rule steps, assumption, rule receives [where msg = "WsText t"]) (simp add: parse_in_def)

lemma srv3_reachable: "server_reachable sample sample_addr srv3"
  unfolding srv3_def by (rule parse_text_step [OF srv2_reachable])

lemma srv4_reachable: "server_reachable sample sample_addr srv4"
  unfolding srv4_def by (rule parse_text_step [OF srv3_reachable])

end
