(* ===== verification/Client_Sample.thy ===== *)
theory Client_Sample
  imports Client_Connection Sample_Runs
begin

text \<open>
  A client on the sample instance of the third-party functions: it connects, publishes a topic,
  subscribes to it and is told of it by the server.
\<close>

type_synonym sample_client = "(frc_type json, mp) client"

abbreviation sample_C :: "(u64, frc_type json, mp, frc_type) ext" where
  "sample_C \<equiv> sample"

definition ticks :: "instant stream" where
  "ticks = 1000000 ## 2000000 ## 7000000 ## 9000000 ## sconst 10000000"

definition cl0 :: sample_client where
  "cl0 = snd (start_client sample_C None sample_addr client_config_default ''bob'' 0 1700000000000000000 ticks)"

definition cl1 :: sample_client where
  "cl1 = snd (client_publish_topic sample_C ''a$speed'' FrcInt None cl0)"

definition cl2 :: sample_client where
  "cl2 = snd (subscribe_w_options sample_C [''aspeed''] None cl1)"

definition told_speed :: "frc_type nt_message" where
  "told_speed = Announce \<lparr>an_name = ''aspeed'', an_id = 7, an_type = FrcInt, an_pubuid = Some 1,
     an_properties = publish_properties_default\<rparr>"

definition cl3 :: sample_client where
  "cl3 = the (socket_turn sample_C [] (FromServer (WsText (Inl [told_speed]))) cl2)"

lemma cl0_eq:
  "cl0 = push [WsBinary (time_request sample_C FrcInt 1000), WsText (Inl [])]
    ((inner_client sample_addr client_config_default ''bob'' 0 1700000000000000000 ticks)
      \<lparr>nc_announced_topics := [(-1, time_topic)], nc_start_instant := 1000000,
       nc_clock := 7000000 ## 9000000 ## sconst 10000000\<rparr>)"
proof -
  let ?c = "inner_client sample_addr client_config_default ''bob'' 0 1700000000000000000 ticks :: sample_client"
  have "alive ?c" by (simp add: alive_def inner_client_def)
  moreover have "restored ?c = []" by (simp add: restored_def inner_client_def)
  ultimately show ?thesis
    using on_open_alive [of ?c sample_C "Inl []"]
    by (simp add: cl0_def start_client_def sample_rmp_total reopened_def opening_time_def
        inner_client_def ticks_def micros_since_def)
qed

lemma clean_aspeed: "clean_name ''a$speed'' = ''aspeed''"
  by (simp add: clean_name_def)

definition speed_topic :: "frc_type published_topic" where
  "speed_topic = \<lparr>pd_name = ''aspeed'', pd_pubuid = 1, pd_type = FrcInt, pd_properties = None\<rparr>"

lemma alive_cl0: "alive cl0"
  by (simp add: cl0_eq alive_def push_def inner_client_def)

lemma cl1_run:
  "client_publish_topic sample_C ''a$speed'' FrcInt None cl0 = (Ok speed_topic, cl1)"
  "cl1 = push [WsText (Inl [publish_again speed_topic])]
    (cl0\<lparr>nc_topic_counter := 1, nc_client_published_topics := [(1, speed_topic)]\<rparr>)"
proof -
  have "nc_topic_counter cl0 = 0" "nc_client_published_topics cl0 = []"
    by (simp_all add: cl0_eq push_def inner_client_def)
  then have "client_publish_topic sample_C ''a$speed'' FrcInt None cl0 = (Ok speed_topic,
      push [WsText (Inl [publish_again speed_topic])]
        (cl0\<lparr>nc_topic_counter := 1, nc_client_published_topics := [(1, speed_topic)]\<rparr>))"
    by (simp add: client_publish_topic_def new_topic_id_def Let_def try_bind_def checked_add_def
        clean_aspeed send_json_def send_alive alive_cl0 act_simps speed_topic_def publish_again_def push_def)
  then show "client_publish_topic sample_C ''a$speed'' FrcInt None cl0 = (Ok speed_topic, cl1)"
    "cl1 = push [WsText (Inl [publish_again speed_topic])]
      (cl0\<lparr>nc_topic_counter := 1, nc_client_published_topics := [(1, speed_topic)]\<rparr>)"
    by (simp_all add: cl1_def)
qed

lemma cl0_reachable: "client_reachable sample_C cl0"
  unfolding cl0_def by (rule cr_start)

lemma cl1_reachable: "client_reachable sample_C cl1"
  unfolding cl1_def by (rule cr_step [OF cl0_reachable cs_publish])

lemma cl2_reachable: "client_reachable sample_C cl2"
  unfolding cl2_def by (rule cr_step [OF cl1_reachable cs_subscribe])

text \<open>The fields of the last two states that the examples read.\<close>

definition sub_aspeed :: subscription where
  "sub_aspeed = \<lparr>sn_subuid = 1, sn_topics = {''aspeed''}, sn_options = None\<rparr>"

lemma cl2_eq:
  "cl2 = push [WsText (Inl [subscribe_again sub_aspeed])]
    (cl1\<lparr>nc_sub_counter := 1, nc_next_ref := 1,
       nc_arcs := (nc_arcs cl1)(0 := \<lparr>arc_strong = 1, arc_data = sub_aspeed\<rparr>),
       nc_chans := (nc_chans cl1)(0 := \<lparr>sc_queue = [], sc_rx_open = True\<rparr>),
       nc_subscriptions := [(1, \<lparr>is_data = 0, is_sender = 0\<rparr>)]\<rparr>)"
proof -
  have "alive cl1" "nc_sub_counter cl1 = 0" "nc_next_ref cl1 = 0" "nc_subscriptions cl1 = []"
    by (simp_all add: cl1_run alive_cl0) (simp_all add: push_def cl0_eq inner_client_def)
  then show ?thesis
    by (simp add: cl2_def subscribe_w_options_def new_sub_id_def Let_def try_bind_def checked_add_i32_def
        send_json_def send_alive push_def sub_aspeed_def subscribe_again_def)
qed

lemma cl2_fields:
  "alive cl2" "nc_announced_topics cl2 = [(-1, time_topic)]"
  "nc_subscriptions cl2 = [(1, \<lparr>is_data = 0, is_sender = 0\<rparr>)]"
  "nc_client_published_topics cl2 = [(1, speed_topic)]"
  "nc_arcs cl2 0 = \<lparr>arc_strong = 1, arc_data = sub_aspeed\<rparr>"
  "nc_chans cl2 0 = \<lparr>sc_queue = [], sc_rx_open = True\<rparr>"
  "nc_config cl2 = client_config_default" "nc_start_instant cl2 = 1000000"
  "nc_clock cl2 = 7000000 ## 9000000 ## sconst 10000000"
  by (simp_all add: cl2_eq cl1_run alive_def push_def cl0_eq inner_client_def)

lemma cl3_eq:
  "cl3 = cl2\<lparr>nc_announced_topics :=
      [(-1, time_topic), (7, \<lparr>t_name = ''aspeed'', t_type = FrcInt, t_properties = Some publish_properties_default\<rparr>)],
    nc_callbacks := nc_callbacks cl2 @
      [OnAnnounce \<lparr>t_name = ''aspeed'', t_type = FrcInt, t_properties = Some publish_properties_default\<rparr>]\<rparr>"
  by (simp add: cl3_def socket_turn_def socket_select_def handle_message_def told_speed_def
      handle_announce_def cl2_fields act_simps call_back_def try_bind_def)

lemma cl3_reachable: "client_reachable sample_C cl3"
proof (rule cr_step [OF cl2_reachable])
  have "socket_turn sample_C [] (FromServer (WsText (Inl [told_speed]))) cl2 = Some cl3"
    by (simp add: cl3_def socket_turn_def socket_select_def handle_message_def)
  moreover have "nc_socket_open cl2" using cl2_fields(1) by (simp add: alive_def)
  ultimately show "client_step sample_C cl2 cl3" by (rule cs_socket [rotated])
qed

lemma cl3_fields:
  "alive cl3" "nc_subscriptions cl3 = [(1, \<lparr>is_data = 0, is_sender = 0\<rparr>)]"
  "nc_client_published_topics cl3 = [(1, speed_topic)]"
  "nc_arcs cl3 0 = \<lparr>arc_strong = 1, arc_data = sub_aspeed\<rparr>"
  "nc_chans cl3 0 = \<lparr>sc_queue = [], sc_rx_open = True\<rparr>" "nc_config cl3 = client_config_default"
  "map_of (nc_announced_topics cl3) 7 =
    Some \<lparr>t_name = ''aspeed'', t_type = FrcInt, t_properties = Some publish_properties_default\<rparr>"
  "map_of (nc_announced_topics cl3) (-1) = Some time_topic"
  "nc_start_instant cl3 = 1000000" "nc_clock cl3 = 7000000 ## 9000000 ## sconst 10000000"
  by (simp_all add: cl3_eq cl2_fields)

end
