(* ===== verification/Wire_Sample.thy ===== *)
theory Wire_Sample
  imports Wire Client_Sample
begin

text \<open>
  A client and a server that share the texts of the sample instance: the client writes its
  types by their names, which is what the server reads.
\<close>

definition type_names :: "(string \<times> frc_type) list" where
  "type_names = map (\<lambda>t. (stringify t, t))
    [FrcBoolean, FrcDouble, FrcInt, FrcFloat, FrcString, FrcRaw, FrcBooleanArray, FrcDoubleArray,
     FrcIntArray, FrcFloatArray, FrcStringArray]"

definition type_named :: "string \<Rightarrow> frc_type" where
  "type_named s = (case map_of type_names s of Some t \<Rightarrow> t | None \<Rightarrow> FrcStruct s)"

definition sample_peer :: "(u64, string json, mp, frc_type) ext" where
  "sample_peer =
    \<lparr>frc_get_type = (\<lambda>_. FrcInt),
     frc_of_rmpv = mp_as_u64,
     rmpv_of_frc = MpUint,
     json_write_list = (\<lambda>ms. Some (Inl (map (retype stringify) ms))),
     json_write_one = (\<lambda>m. Some (Inr (retype stringify m))),
     json_read_list = (\<lambda>t. case t of Inl ms \<Rightarrow> Some (map (retype type_named) ms) | Inr _ \<Rightarrow> None),
     rmp_array_len = (\<lambda>n. Some (sample_array_len n)),
     rmp_i32 = (\<lambda>i. Some (sample_i32 i)),
     rmp_u32 = (\<lambda>n. Some (206 # be_bytes 4 (unat n))),
     rmp_uint = (\<lambda>n. Some (sample_uint n)),
     rmp_u8 = (\<lambda>b. Some [204, b]),
     rmpv_write = (\<lambda>v. Some (sample_write v)),
     rmpv_read = (\<lambda>bs. sample_read (length bs) bs),
     rmpv_as_array = mp_as_array,
     rmpv_is_integer = mp_is_integer,
     rmpv_as_u64 = mp_as_u64,
     rmpv_as_i64 = mp_as_i64,
     rmpv_of_u64 = MpUint,
     mte_to_vec = (\<lambda>_. Some [128])\<rparr>"

lemma sample_peer_wire:
  "rmp_array_len sample_peer = rmp_array_len sample_C" "rmp_i32 sample_peer = rmp_i32 sample_C"
  "rmp_u32 sample_peer = rmp_u32 sample_C" "rmp_uint sample_peer = rmp_uint sample_C"
  "rmp_u8 sample_peer = rmp_u8 sample_C" "rmpv_write sample_peer = rmpv_write sample_C"
  "rmpv_read sample_peer = rmpv_read sample_C" "rmpv_as_array sample_peer = rmpv_as_array sample_C"
  "rmpv_is_integer sample_peer = rmpv_is_integer sample_C" "rmpv_as_u64 sample_peer = rmpv_as_u64 sample_C"
  "rmpv_as_i64 sample_peer = rmpv_as_i64 sample_C" "rmpv_of_u64 sample_peer = rmpv_of_u64 sample_C"
  "mte_to_vec sample_peer = mte_to_vec sample_C"
  by (simp_all add: sample_peer_def sample_def)

lemma reads_as_peer: "reads_as sample_peer b v = reads_as sample_C b v"
  by (simp add: reads_as_def sample_peer_wire)

lemma sample_peer_laws: "msgpack_laws sample_peer"
proof -
  have "reads_as sample_peer = reads_as sample_C"
    by (simp add: fun_eq_iff reads_as_peer)
  moreover have "msgpack_laws sample_C" by (rule sample_msgpack_laws)
  ultimately show ?thesis
    unfolding msgpack_laws_def rmp_total_def rmpv_consumes_def int_laws_def array_law_def sample_peer_wire
    by simp
qed

lemma sample_peer_speaks: "speaks stringify sample_peer sample"
  by (simp add: speaks_def sample_peer_def fun_eq_iff)

lemma sample_peer_understands: "understands type_named sample sample_peer"
  by (auto simp: understands_def sample_peer_def sample_def split: sum.splits)

definition cp0 :: "(string json, mp) client" where
  "cp0 = snd (start_client sample_peer None sample_addr client_config_default ''bob'' 0 1700000000000000000 ticks)"

lemma cp0_open:
  "\<exists>c. alive c \<and> cp0 = push [WsBinary (time_request sample_peer FrcInt (opening_time c)), WsText (Inl [])]
    (reopened sample_peer c)"
proof -
  let ?c = "inner_client sample_addr client_config_default ''bob'' 0 1700000000000000000 ticks :: (string json, mp) client"
  have alive: "alive ?c" by (simp add: alive_def inner_client_def)
  moreover have "json_write_list sample_peer (restored ?c) = Some (Inl [])"
    by (simp add: restored_def inner_client_def sample_peer_def)
  ultimately have "on_open sample_peer ?c = (Ok (), push [WsBinary (time_request sample_peer FrcInt (opening_time ?c)),
      WsText (Inl [])] (reopened sample_peer ?c))"
    by (rule on_open_alive [OF _ msgpack_total [OF sample_peer_laws]])
  with alive show ?thesis
    by (intro exI [of _ ?c]) (simp add: cp0_def start_client_def)
qed

lemma alive_cp0: "alive cp0"
proof -
  obtain c where "alive c" and cp0: "cp0 = push [WsBinary (time_request sample_peer FrcInt (opening_time c)),
      WsText (Inl [])] (reopened sample_peer c)" using cp0_open by blast
  then show ?thesis unfolding cp0 by (simp add: reopened_def)
qed

lemma cp0_announced: "nc_announced_topics cp0 = [(-1, time_topic)]"
proof -
  obtain c where cp0: "cp0 = push [WsBinary (time_request sample_peer FrcInt (opening_time c)),
      WsText (Inl [])] (reopened sample_peer c)" using cp0_open by blast
  show ?thesis unfolding cp0 by (simp add: reopened_def push_def)
qed

end
