(* ===== verification/Client_Delivery.thy ===== *)
theory Client_Delivery
  imports Client_Runs
begin

text \<open>
  What a value of the server does in the client: who gets it, and which subscriptions are given
  up on the way.
\<close>

section \<open>Who hears a topic\<close>

text \<open>The client and the server agree on the topics of a subscription.\<close>

lemma matches_cares:
  "matches_topic c sub topic \<longleftrightarrow>
    is_valid c sub \<and> cares_about (arc_data (nc_arcs c (is_data sub))) (t_name topic)"
  by (cases "sn_options (arc_data (nc_arcs c (is_data sub)))")
    (auto simp: matches_topic_def upgrade_def cares_about_def get_options_def subscription_options_default_def)

definition has_room :: "('t, 'm) client \<Rightarrow> internal_sub \<Rightarrow> bool" where
  "has_room c sub \<longleftrightarrow>
    sc_rx_open (nc_chans c (is_sender sub)) \<and> length (sc_queue (nc_chans c (is_sender sub))) < SUB_CAPACITY"

definition hears :: "('t, 'm) client \<Rightarrow> string \<Rightarrow> internal_sub \<Rightarrow> bool" where
  "hears c name sub \<longleftrightarrow> is_valid c sub \<and> cares_about (arc_data (nc_arcs c (is_data sub))) name"

definition stays :: "('t, 'm) client \<Rightarrow> string \<Rightarrow> internal_sub \<Rightarrow> bool" where
  "stays c name sub \<longleftrightarrow> is_valid c sub \<and> (hears c name sub \<longrightarrow> has_room c sub)"

definition deliver :: "'m message_data \<Rightarrow> nat set \<Rightarrow> ('t, 'm) client \<Rightarrow> ('t, 'm) client" where
  "deliver m rs c =
    c\<lparr>nc_chans := (\<lambda>r. if r \<in> rs then (nc_chans c r)\<lparr>sc_queue := sc_queue (nc_chans c r) @ [m]\<rparr>
                       else nc_chans c r)\<rparr>"

definition hearers :: "('t, 'm) client \<Rightarrow> string \<Rightarrow> (i32, internal_sub) hmap \<Rightarrow> nat set" where
  "hearers c name subs = is_sender ` {sub \<in> snd ` set subs. hears c name sub \<and> has_room c sub}"

lemma deliver_frame [simp]:
  "nc_arcs (deliver m rs c) = nc_arcs c" "nc_subscriptions (deliver m rs c) = nc_subscriptions c"
  "is_valid (deliver m rs c) sub = is_valid c sub" "hears (deliver m rs c) n sub = hears c n sub"
  by (simp_all add: deliver_def is_valid_def hears_def)

lemma deliver_room [simp]: "is_sender sub \<notin> rs \<Longrightarrow> has_room (deliver m rs c) sub = has_room c sub"
  by (simp add: deliver_def has_room_def)

lemma deliver_deliver: "rs \<inter> rs' = {} \<Longrightarrow> deliver m rs' (deliver m rs c) = deliver m (rs \<union> rs') c"
  by (rule client.equality) (auto simp: deliver_def fun_eq_iff)

lemma deliver_none [simp]: "deliver m {} c = c"
  by (simp add: deliver_def)

lemma offer_run:
  "offer topic m sub c =
    (stays c (t_name topic) sub, deliver m (hearers c (t_name topic) [(k, sub)]) c)"
  by (auto simp: offer_def stays_def hears_def hearers_def has_room_def try_send_def matches_cares
      deliver_def Let_def fun_upd_def intro!: client.equality)

lemma offer_all_run:
  assumes "distinct (map (is_sender \<circ> snd) subs)"
  shows "offer_all topic m subs c =
    (filter (\<lambda>(k, sub). stays c (t_name topic) sub) subs, deliver m (hearers c (t_name topic) subs) c)"
  using assms
proof (induction subs arbitrary: c)
  case (Cons e subs)
  obtain k sub where e: "e = (k, sub)" by fastforce
  let ?n = "t_name topic"
  let ?d = "deliver m (hearers c ?n [e]) c"
  have fresh: "sub' \<in> snd ` set subs \<Longrightarrow> is_sender sub' \<notin> hearers c ?n [e]" for sub'
    using Cons.prems e by (force simp: hearers_def)
  have room: "sub' \<in> snd ` set subs \<Longrightarrow> has_room ?d sub' = has_room c sub'" for sub'
    by (rule deliver_room) (rule fresh)
  have "filter (\<lambda>(k, sub). stays ?d ?n sub) subs = filter (\<lambda>(k, sub). stays c ?n sub) subs"
    by (rule filter_cong [OF refl]) (use room in \<open>force simp: stays_def\<close>)
  moreover have "hearers ?d ?n subs = hearers c ?n subs"
    unfolding hearers_def [of _ _ subs] using room by (intro image_cong) auto
  moreover have "hearers c ?n [e] \<inter> hearers c ?n subs = {}"
    using fresh unfolding hearers_def [of _ _ subs] by blast
  moreover have "hearers c ?n [e] \<union> hearers c ?n subs = hearers c ?n (e # subs)"
    by (auto simp: hearers_def)
  ultimately show ?case
    using Cons e offer_run [of topic m sub c k] by (simp add: deliver_deliver)
qed (simp add: hearers_def)

lemma senders_distinct:
  assumes "client_inv c"
  shows "distinct (map (is_sender \<circ> snd) (nc_subscriptions c))"
proof -
  from assms have d: "distinct (map fst (nc_subscriptions c))" by (simp add: client_inv_def)
  have "inj_on (is_sender \<circ> snd) (set (nc_subscriptions c))"
  proof (rule inj_onI)
    fix x y
    assume xy: "x \<in> set (nc_subscriptions c)" "y \<in> set (nc_subscriptions c)"
      and eq: "(is_sender \<circ> snd) x = (is_sender \<circ> snd) y"
    obtain k s j t where e: "x = (k, s)" "y = (j, t)" by fastforce
    with xy d have "map_of (nc_subscriptions c) k = Some s" "map_of (nc_subscriptions c) j = Some t"
      by simp_all
    moreover from this eq e have "k = j"
      using subs_refs_distinct [OF assms] subs_okD(1) [OF assms] by fastforce
    ultimately show "x = y" using e by simp
  qed
  with d show ?thesis by (simp add: distinct_map)
qed

lemma map_of_filter_values:
  "distinct (map fst m) \<Longrightarrow>
    map_of (filter (\<lambda>(k, v). P v) m) k =
      (case map_of m k of Some v \<Rightarrow> if P v then Some v else None | None \<Rightarrow> None)"
proof (induction m)
  case (Cons e m)
  obtain j w where "e = (j, w)" by fastforce
  with Cons show ?case by (auto split: option.splits simp: map_of_eq_None_iff)
qed simp

text \<open>The whole of \<open>send_value_to_subscriber\<close>, for a client that satisfies its invariant.\<close>

lemma send_value_run:
  assumes "client_inv c"
  defines "m \<equiv> \<lambda>topic ts ty v. \<lparr>md_topic_name = t_name topic, md_timestamp = ts, md_type = ty, md_data = v\<rparr>"
  shows "\<exists>u. send_value_to_subscriber topic ts ty v c = (Ok (), u) \<and>
    (\<forall>k. map_of (nc_subscriptions u) k =
      (case map_of (nc_subscriptions c) k of
         Some sub \<Rightarrow> if stays c (t_name topic) sub then Some sub else None
       | None \<Rightarrow> None)) \<and>
    (\<forall>r. nc_chans u r =
      (if r \<in> hearers c (t_name topic) (nc_subscriptions c)
       then (nc_chans c r)\<lparr>sc_queue := sc_queue (nc_chans c r) @ [m topic ts ty v]\<rparr>
       else nc_chans c r)) \<and>
    nc_arcs u = nc_arcs c \<and> nc_announced_topics u = nc_announced_topics c \<and>
    nc_client_published_topics u = nc_client_published_topics c \<and> nc_socket_queue u = nc_socket_queue c"
proof -
  from assms(1) have d: "distinct (map fst (nc_subscriptions c))" by (simp add: client_inv_def)
  have run: "send_value_to_subscriber topic ts ty v c =
      (Ok (), (deliver (m topic ts ty v) (hearers c (t_name topic) (nc_subscriptions c)) c)
        \<lparr>nc_subscriptions := filter (\<lambda>(k, sub). stays c (t_name topic) sub) (nc_subscriptions c)\<rparr>)"
    by (simp add: send_value_to_subscriber_def m_def Let_def offer_all_run [OF senders_distinct [OF assms(1)]])
  show ?thesis
    by (rule exI, rule conjI [OF run]) (simp add: map_of_filter_values [OF d] deliver_def)
qed

end
