(* ===== verification/Client_Ids.thy ===== *)
theory Client_Ids
  imports Client_Runs
begin

text \<open>
  The identifiers of topics and subscriptions: the client counts from one and starts again at
  one when the type has no greater number.
\<close>

text \<open>
  A source that counts up to a bound and then starts again at one, \<open>num\<close> being the number of an
  identifier and \<open>cur\<close> the last number handed out.
\<close>

locale wrapping_ids =
  fixes cur :: "'s \<Rightarrow> int"
    and num :: "'n \<Rightarrow> int"
    and bound :: int
    and nxt :: "('s, 'e, 'n) act"
  assumes bound_positive: "0 < bound"
    and nxt_run: "0 \<le> cur s \<Longrightarrow> cur s \<le> bound \<Longrightarrow>
      \<exists>i t. nxt s = (Ok i, t) \<and> num i = (if cur s < bound then cur s + 1 else 1) \<and> cur t = num i"
begin

lemma issued: "0 \<le> cur s \<Longrightarrow> cur s + int k \<le> bound \<Longrightarrow> map num (issue nxt k s) = map (\<lambda>n. cur s + 1 + int n) [0..<k]"
proof (induction k arbitrary: s)
  case (Suc k)
  with bound_positive nxt_run [of s] obtain i t where
    run: "nxt s = (Ok i, t)" "num i = cur s + 1" "cur t = cur s + 1" by auto
  with Suc.prems Suc.IH [of t]
  have "map num (issue nxt k t) = map (\<lambda>n. cur s + 1 + int (Suc n)) [0..<k]" by (simp add: algebra_simps)
  moreover have "map (\<lambda>n. cur s + 1 + int n) [0..<Suc k] =
      (cur s + 1) # map (\<lambda>n. cur s + 1 + int (Suc n)) [0..<k]"
    by (simp add: upt_conv_Cons map_Suc_upt [symmetric] comp_def del: upt_Suc map_Suc_upt)
  ultimately show ?case using run by simp
qed simp

lemma issued_from_start:
  assumes "cur s = 0" and "int k \<le> bound"
  shows "distinct (issue nxt k s) \<and> (\<forall>i \<in> set (issue nxt k s). 1 \<le> num i \<and> num i \<le> int k)"
proof -
  from assms issued [of s k] have m: "map num (issue nxt k s) = map (\<lambda>n. 1 + int n) [0..<k]" by simp
  have "distinct (map (\<lambda>n. 1 + int n) [0..<k])" by (simp add: distinct_map inj_on_def)
  with m have "distinct (issue nxt k s)" using distinct_map by metis
  moreover have "\<forall>i \<in> set (issue nxt k s). num i \<in> (\<lambda>n. 1 + int n) ` {0..<k}"
    using arg_cong [OF m, of set] by auto
  ultimately show ?thesis by fastforce
qed

lemma starts_again: "cur s = bound \<Longrightarrow> \<exists>i t. nxt s = (Ok i, t) \<and> num i = 1"
  using nxt_run [of s] bound_positive by auto

end

interpretation topic_uids: wrapping_ids "\<lambda>c. uint (nc_topic_counter c)" "uint :: u32 \<Rightarrow> int" "2 ^ 32 - 1" new_topic_id
proof unfold_locales
  fix c :: "('t, 'm) client"
  have "uint (nc_topic_counter c + 1) = uint (nc_topic_counter c) + 1" if "uint (nc_topic_counter c) < 2 ^ 32 - 1"
    using that by (simp add: uint_word_ariths take_bit_int_eq_self)
  moreover have "unat (nc_topic_counter c) + 1 < 2 ^ 32 \<longleftrightarrow> uint (nc_topic_counter c) < 2 ^ 32 - 1"
    unfolding uint_nat [of "nc_topic_counter c"]
    using of_nat_less_iff [of "unat (nc_topic_counter c)" "2 ^ 32 - 1", where 'a = int]
    by (simp del: of_nat_unat)
  ultimately show "\<exists>i t. new_topic_id c = (Ok i, t) \<and>
      uint i = (if uint (nc_topic_counter c) < 2 ^ 32 - 1 then uint (nc_topic_counter c) + 1 else 1) \<and>
      uint (nc_topic_counter t) = uint i"
    by (simp add: new_topic_id_def checked_add_def Let_def)
qed simp

interpretation sub_uids: wrapping_ids "\<lambda>c. sint (nc_sub_counter c)" "sint :: i32 \<Rightarrow> int" "2 ^ 31 - 1" new_sub_id
proof unfold_locales
  fix c :: "('t, 'm) client"
  assume "0 \<le> sint (nc_sub_counter c)"
  moreover from this have "sint (nc_sub_counter c + 1) = sint (nc_sub_counter c) + 1"
    if "sint (nc_sub_counter c) < 2 ^ 31 - 1"
    using that by (simp add: sint_word_ariths signed_take_bit_int_eq_self)
  ultimately show "\<exists>i t. new_sub_id c = (Ok i, t) \<and>
      sint i = (if sint (nc_sub_counter c) < 2 ^ 31 - 1 then sint (nc_sub_counter c) + 1 else 1) \<and>
      sint (nc_sub_counter t) = sint i"
    by (simp add: new_sub_id_def checked_add_i32_def Let_def)
qed simp

end
