(* ===== verification/Client_Properties.thy ===== *)
theory Client_Properties
  imports Client_Sample Client_Delivery Client_Ids
begin

text \<open>
  The properties of the client: its invariant, what a value of the server does, what survives
  the end of a connection, and the identifiers.
\<close>

text \<open>
  C3. In every state a client can reach, by any sequence of calls of its user, requests for the
  time, and turns of its socket task (messages of the server of any content, lost connections,
  failed sends): every published topic is kept under its own id, with a name free of \<open>$\<close> and
  \<open>:\<close>; every subscription is kept under its own positive id, with data and channel of its own;
  its receiver is there exactly as long as its data; and no channel holds more than 256 messages.
\<close>
theorem client_reachable_safe: "client_reachable E c \<Longrightarrow> client_inv c"
  by (rule client_reachable_inv)

lemma client_reachable_safe_witness:
  "client_inv cl3 \<and> map_of (nc_client_published_topics cl3) 1 = Some speed_topic \<and>
    map_of (nc_subscriptions cl3) 1 = Some \<lparr>is_data = 0, is_sender = 0\<rparr>"
  using client_reachable_safe [OF cl3_reachable] by (simp add: cl3_fields)

section \<open>Values\<close>





section \<open>The end of a connection\<close>


lemma reconnected_fields:
  "alive (reconnected E t c) = alive c"
  "nc_socket_queue (reconnected E t c) =
    nc_socket_queue c @ [WsBinary (time_request E FrcInt (opening_time c)), WsText t]"
  "nc_announced_topics (reconnected E t c) = [(-1, time_topic)]" "nc_server_time_offset (reconnected E t c) = 0"
  "nc_subscriptions (reconnected E t c) = filter (\<lambda>(_, sub). is_valid c sub) (nc_subscriptions c)"
  "nc_client_published_topics (reconnected E t c) = nc_client_published_topics c"
  by (simp_all add: reconnected_def reopened_def push_def)


lemma cl3_json: "json_laws sample_C" "rmp_total sample_C"
  by (rule sample_json_laws sample_rmp_total)+


text \<open>
  C32. A topic that was unpublished comes back: the client keeps it among the published ones, so
  after the next reconnection it is published again, although its user has given it up.
\<close>
theorem unpublished_topic_returns:
  assumes "client_reachable E c" and "alive c" and "rmp_total E" and "json_laws E"
    and "map_of (nc_client_published_topics c) k = Some topic"
    and "cf_should_reconnect (nc_config c) err" and "True \<in> set attempts"
  shows "\<exists>d t u b t' ms. client_unpublish E topic c = (Ok (), d) \<and>
    nc_socket_queue d = nc_socket_queue c @ [WsText t] \<and> json_read_list E t = Some [as_unpublish topic] \<and>
    socket_turn E attempts (SocketError err) d = Some u \<and>
    nc_socket_queue u = nc_socket_queue d @ [WsBinary b, WsText t'] \<and>
    json_read_list E t' = Some ms \<and> publish_again topic \<in> set ms"
proof -
  from send_json_alive [OF assms(2,4), of "[as_unpublish topic]"] obtain t where
    t: "client_unpublish E topic c = (Ok (), push [WsText t] c)" "json_read_list E t = Some [as_unpublish topic]"
    by (auto simp: client_unpublish_def)
  let ?d = "push [WsText t] c"
  from assms(4) obtain t' where w: "json_write_list E (restored ?d) = Some t'"
    and r: "json_read_list E t' = Some (restored ?d)"
    unfolding json_laws_def by blast
  have "handle_disconnect E attempts (Some err) ?d = Some (Ok (), reconnected E t' ?d)"
    using handle_disconnect_run [of ?d E t' err attempts] assms(2,3,6,7) w by (simp add: push_def)
  then have "socket_turn E attempts (SocketError err) ?d = Some (reconnected E t' ?d)"
    by (simp add: socket_turn_def socket_select_def)
  moreover have "publish_again topic \<in> set (restored ?d)"
    using map_of_SomeD [OF assms(5)] by (force simp: restored_def push_def)
  ultimately show ?thesis
    using t r
    by (intro exI [of _ ?d] exI [of _ t] exI [of _ "reconnected E t' ?d"]
          exI [of _ "time_request E FrcInt (opening_time ?d)"] exI [of _ t'] exI [of _ "restored ?d"])
      (simp add: reconnected_fields push_def)
qed

lemma unpublished_topic_returns_witness:
  "\<exists>d u t ms. client_unpublish sample_C speed_topic cl3 = (Ok (), d) \<and>
    socket_turn sample_C [True] (SocketError AlreadyClosed) d = Some u \<and>
    last (nc_socket_queue u) = WsText t \<and> json_read_list sample_C t = Some ms \<and>
    publish_again speed_topic \<in> set ms"
proof -
  have "cf_should_reconnect (nc_config cl3) AlreadyClosed" "map_of (nc_client_published_topics cl3) 1 = Some speed_topic"
    by (simp_all add: cl3_fields client_config_default_def)
  from unpublished_topic_returns [OF cl3_reachable cl3_fields(1) cl3_json(2,1) this(2,1), of "[True]"]
  obtain d t u b t' ms where "client_unpublish sample_C speed_topic cl3 = (Ok (), d)"
    "socket_turn sample_C [True] (SocketError AlreadyClosed) d = Some u"
    "nc_socket_queue u = nc_socket_queue d @ [WsBinary b, WsText t']"
    "json_read_list sample_C t' = Some ms" "publish_again speed_topic \<in> set ms"
    by auto
  then show ?thesis by (intro exI [of _ d] exI [of _ u] exI [of _ t'] exI [of _ ms]) simp
qed

text \<open>
  C33. When the task ends on an error, the next call that sends gets the error, once. Every later
  one panics; and the timer that asks for the time drops the error it gets, so that after its
  turn the first call of the user already panics.
\<close>
theorem dead_socket_panics:
  assumes "\<not> cf_should_reconnect (nc_config c) err"
  shows "\<exists>d. socket_turn E attempts (SocketError err) c = Some d \<and>
    (\<forall>m. fst (send_message m d) = Err (Tungstenite err)) \<and>
    (\<forall>m m'. is_panic (fst (send_message m (snd (send_message m' d))))) \<and>
    (map_of (nc_announced_topics c) (-1) = Some tt \<longrightarrow>
       fst (ignore_err (update_time E) d) = Ok () \<and>
       (\<forall>m. is_panic (fst (send_message m (snd (ignore_err (update_time E) d))))))"
proof -
  let ?d = "end_task (Some (Tungstenite err)) c"
  have closed: "\<not> nc_socket_open ?d" "nc_socket_panic ?d = Some (Tungstenite err)"
    "nc_announced_topics ?d = nc_announced_topics c"
    by (simp_all add: end_task_def)
  have "socket_turn E attempts (SocketError err) c = Some ?d"
    using assms by (simp add: socket_turn_def socket_select_def handle_disconnect_def)
  moreover have "map_of (nc_announced_topics c) (-1) = Some tt \<Longrightarrow>
      ignore_err (update_time E) ?d = (Ok (), ?d\<lparr>nc_clock := stl (nc_clock ?d), nc_socket_panic := None\<rparr>)"
    by (rule update_time_after_error) (simp_all add: closed)
  ultimately show ?thesis
    using closed(1) by (simp add: send_after_error [OF closed(2)] send_closed)
qed

lemma dead_socket_panics_witness:
  "\<exists>d. socket_turn sample_C [] (SocketError (Protocol OtherProtocol)) cl3 = Some d \<and>
    fst (send_message WsClose d) = Err (Tungstenite (Protocol OtherProtocol)) \<and>
    is_panic (fst (send_message WsClose (snd (ignore_err (update_time sample_C) d))))"
proof -
  have "\<not> cf_should_reconnect (nc_config cl3) (Protocol OtherProtocol)"
    by (simp add: cl3_fields client_config_default_def)
  from dead_socket_panics [OF this, of sample_C "[]" time_topic] show ?thesis
    by (auto simp: cl3_fields)
qed

section \<open>Identifiers\<close>

text \<open>
  C38. The ids of topics and subscriptions that one client hands out are positive and all
  different, up to the greatest number of their type; then the client starts again at one,
  whether or not the first id is still in use.
\<close>
theorem client_ids_distinct:
  "distinct (issue new_topic_id (min k (2 ^ 32 - 1)) (inner_client addr config identity now epoch clk)) \<and>
    distinct (issue new_sub_id (min k (2 ^ 31 - 1)) (inner_client addr config identity now epoch clk)) \<and>
    0 \<notin> set (issue new_topic_id (min k (2 ^ 32 - 1)) (inner_client addr config identity now epoch clk)) \<and>
    {i \<in> set (issue new_sub_id (min k (2 ^ 31 - 1)) (inner_client addr config identity now epoch clk)). sint i \<le> 0} = {} \<and>
    fst (new_topic_id (c\<lparr>nc_topic_counter := 2 ^ 32 - 1\<rparr>)) = Ok 1 \<and>
    fst (new_sub_id (c\<lparr>nc_sub_counter := 2 ^ 31 - 1\<rparr>)) = Ok 1"
proof -
  let ?c = "inner_client addr config identity now epoch clk"
  have "int (min k (2 ^ 32 - 1)) \<le> 2 ^ 32 - 1" "int (min k (2 ^ 31 - 1)) \<le> 2 ^ 31 - 1" by auto
  moreover have "uint (nc_topic_counter ?c) = 0" "sint (nc_sub_counter ?c) = 0"
    by (simp_all add: inner_client_def)
  ultimately
  have "distinct (issue new_topic_id (min k (2 ^ 32 - 1)) ?c)" "distinct (issue new_sub_id (min k (2 ^ 31 - 1)) ?c)"
    "\<forall>i \<in> set (issue new_topic_id (min k (2 ^ 32 - 1)) ?c). 1 \<le> uint i"
    "\<forall>i \<in> set (issue new_sub_id (min k (2 ^ 31 - 1)) ?c). 1 \<le> sint i"
    using topic_uids.issued_from_start [of ?c "min k (2 ^ 32 - 1)"]
      sub_uids.issued_from_start [of ?c "min k (2 ^ 31 - 1)"] by blast+
  then show ?thesis
    by (force simp: new_topic_id_def new_sub_id_def checked_add_def checked_add_i32_def Let_def)
qed

end
