(* ===== verification/Server_Connecting.thy ===== *)
theory Server_Connecting
  imports Server_Publishing
begin

text \<open>
  A client that connects gets an index and a name of its own; one that leaves takes its
  entries with it, but not its metatopics.
\<close>

section \<open>Removing a topic\<close>

lemma remove_topic_effect:
  assumes "map_of (topics s) i = Some t" and "map_of (topic_map s) (''$pub$'' @ t_name t) = Some mp"
    and "map_of (topic_map s) (''$sub$'' @ t_name t) = Some ms"
  shows "fst (remove_topic i s) = Ok () \<and>
    map_of (topics (snd (remove_topic i s))) = map_of (topics s) |` (- {i, mp, ms}) \<and>
    map_of (topic_map (snd (remove_topic i s))) = map_of (topic_map s) |` (- {t_name t, ''$pub$'' @ t_name t, ''$sub$'' @ t_name t}) \<and>
    map_of (topic_value_map (snd (remove_topic i s))) = (map_of (topic_value_map s))(i := None)"
  using assms by (auto simp: remove_topic_def Let_def restrict_map_def fun_eq_iff)

lemma remove_topic_Ok_iff:
  "fst (remove_topic i s) = Ok () \<longleftrightarrow>
    (\<exists>t. map_of (topics s) i = Some t \<and> ''$pub$'' @ t_name t \<in> hm_keys (topic_map s) \<and>
      ''$sub$'' @ t_name t \<in> hm_keys (topic_map s))"
  by (auto simp: remove_topic_def Let_def split: option.splits)

text \<open>Without the first metatopic only the topic itself goes, and its name stays behind.\<close>

lemma remove_topic_fails:
  assumes "map_of (topics s) i = Some t" and "map_of (topic_map s) (''$pub$'' @ t_name t) = None"
  shows "(\<exists>e. fst (remove_topic i s) = Err e) \<and>
    snd (remove_topic i s) = s\<lparr>topics := hm_remove i (topics s)\<rparr>"
  using assms by (simp add: remove_topic_def Let_def)

section \<open>Connecting\<close>

lemma next_client_idx_run:
  assumes "on_counters next_client_idx s = (Ok ci, t)"
  shows "\<exists>n. ci = c_client_idx (counters s) \<and> t = s\<lparr>counters := (counters s)\<lparr>c_client_idx := n\<rparr>\<rparr>"
  using assms by (auto simp: on_counters_def zoom_def next_idx_cases split: prod.splits)

text \<open>Adding a metatopic of a client announces nothing and touches no client.\<close>

lemma add_meta_frame:
  assumes "CHR ''$'' \<in> set (t_name t)" and "add_topic E t s = (Ok k, u)"
  shows "clients u = clients s \<and> client_map u = client_map s \<and> channels u = channels s \<and>
    client_metatopic_map u = client_metatopic_map s \<and> map_of (topic_map u) (t_name t) = Some k \<and>
    (\<forall>n. n \<noteq> t_name t \<longrightarrow> map_of (topic_map u) n = map_of (topic_map s) n)"
  using add_meta_run [OF assms] by (auto simp: registers_def register_topic_def)

lemma connect_effect:
  fixes s :: "('v, 't) server"
  assumes run: "connect_client E ident s = (Ok (rx, kill, ci, identity), u)"
  shows "\<not> is_client_connected ident s \<and> identity = dedup_identity ident s \<and>
    ci = c_client_idx (counters s) \<and> rx = next_ref s \<and> kill = next_ref s \<and>
    map_of (client_map u) = (map_of (client_map s))(identity \<mapsto> ci) \<and>
    map_of (clients u) = (map_of (clients s))(ci \<mapsto> new_client identity (next_ref s) (next_ref s)) \<and>
    channels u (next_ref s) = \<lparr>ch_queue = [], ch_rx_open = True, ch_tx_open = True\<rparr> \<and>
    (\<exists>p q. map_of (client_metatopic_map u) ci = Some (p, q) \<and>
      map_of (topic_map u) (''$clientpub$'' @ ci_name identity) = Some p \<and>
      map_of (topic_map u) (''$clientsub$'' @ ci_name identity) = Some q)"
proof -
  let ?s0 = "s\<lparr>callbacks := callbacks s @ [OnClientConnect]\<rparr>"
  have free: "\<not> is_client_connected ident s" using run by (auto simp: connect_client_def)
  have dd: "dedup_identity ident ?s0 = dedup_identity ident s"
    by (simp add: dedup_identity_def instances_of_ident_def)
  from run free obtain t v p w q where
    nxt: "on_counters next_client_idx ?s0 = (Ok ci, t)" and
    pub: "add_topic E (new_meta (''$clientpub$'' @ ci_name (dedup_identity ident s)))
        (admit_client (dedup_identity ident s) ci t) = (Ok p, v)" and
    sub: "add_topic E (new_meta (''$clientsub$'' @ ci_name (dedup_identity ident s))) v = (Ok q, w)" and
    u: "u = w\<lparr>client_metatopic_map := hm_insert ci (p, q) (client_metatopic_map w)\<rparr>" and
    ids: "identity = dedup_identity ident s" "rx = next_ref s" "kill = next_ref s"
    by (auto simp: connect_client_def Let_def try_bind_eq_Ok act_simps dd)
  from next_client_idx_run [OF nxt] obtain n where
    ci: "ci = c_client_idx (counters s)" and t: "t = ?s0\<lparr>counters := (counters s)\<lparr>c_client_idx := n\<rparr>\<rparr>"
    by auto
  note fp = add_meta_frame [OF _ pub] and fs = add_meta_frame [OF _ sub]
  have ne: "''$clientpub$'' @ x \<noteq> ''$clientsub$'' @ x" for x by simp
  from fp fs show ?thesis
    using free ci ids by (simp add: u t admit_client_def Let_def)
qed

section \<open>Leaving\<close>

text \<open>
  What leaves with the client, and the error: the metatopics have no metatopics of their own, so
  that removing the first of them fails and the second is not tried.
\<close>

lemma disconnect_effect:
  assumes idx: "map_of (client_map s) ident = Some ci" and cl: "map_of (clients s) ci = Some cl"
    and unpublished: "bm_map (cc_pubuid_to_topicidx cl) = []"
    and metas: "map_of (client_metatopic_map s) ci = Some (p, q)"
    and topic: "map_of (topics s) p = Some t" and "map_of (topic_map s) (''$pub$'' @ t_name t) = None"
  shows "(\<exists>e. fst (disconnect_client ident s) = Err e) \<and>
    map_of (client_map (snd (disconnect_client ident s))) = (map_of (client_map s))(ident := None) \<and>
    map_of (clients (snd (disconnect_client ident s))) = (map_of (clients s))(ci := None) \<and>
    kill_cells (snd (disconnect_client ident s)) (cc_kill_bool cl) \<and>
    map_of (topics (snd (disconnect_client ident s))) = (map_of (topics s))(p := None) \<and>
    topic_map (snd (disconnect_client ident s)) = topic_map s \<and>
    subscriptions (snd (disconnect_client ident s)) = subscriptions s \<and>
    sub_values (snd (disconnect_client ident s)) = sub_values s"
proof -
  let ?s1 = "s\<lparr>client_map := hm_remove ident (client_map s)\<rparr>"
  let ?s3 = "(drop_client ci cl ?s1)\<lparr>client_metatopic_map := hm_remove ci (client_metatopic_map s)\<rparr>"
  from topic assms(6) have fail: "map_of (topics ?s3) p = Some t"
    "map_of (topic_map ?s3) (''$pub$'' @ t_name t) = None"
    by (simp_all add: drop_client_def)
  from remove_topic_fails [OF fail] obtain e where
    gone: "remove_topic p ?s3 = (Err e, ?s3\<lparr>topics := hm_remove p (topics ?s3)\<rparr>)"
    by (cases "remove_topic p ?s3") auto
  have "disconnect_client ident s = (Err e, ?s3\<lparr>topics := hm_remove p (topics ?s3)\<rparr>)"
    using idx cl unpublished metas gone
    by (simp add: disconnect_client_def Let_def bm_iter_lr_def drop_client_def try_bind_def)
  then show ?thesis by (simp add: drop_client_def)
qed

end
