(* ===== verification/Server_Subscribing.thy ===== *)
theory Server_Subscribing
  imports Server_Announce
begin

text \<open>
  What a subscription changes: the entries it adds, the announcements and values its client is
  sent, and that taking it back restores every map.
\<close>

section \<open>The loop over the topics\<close>

text \<open>The topics a subscription sees, by index.\<close>

definition sees :: "('v, 't) server \<Rightarrow> subscription \<Rightarrow> topic_idx \<Rightarrow> bool" where
  "sees s sub i \<longleftrightarrow> (\<exists>n. map_of (topic_map s) n = Some i \<and> cares_about sub n)"

definition listed_for ::
    "sub_idx \<Rightarrow> (topic_idx \<Rightarrow> bool) \<Rightarrow> (topic_idx \<rightharpoonup> sub_idx list) \<Rightarrow> topic_idx \<rightharpoonup> sub_idx list"
where
  "listed_for j P m = (\<lambda>i. if P i then map_option (\<lambda>l. l @ [j]) (m i) else m i)"

text \<open>What the new subscriber is told of each topic.\<close>

definition told :: "('v, 't, 'm, string) ext \<Rightarrow> ('v, 't) server \<Rightarrow> (string \<times> topic_idx) list \<Rightarrow> string nt_message list" where
  "told E s ts = concat (map (\<lambda>(n, i).
     case announced_type E n i s of None \<Rightarrow> [] | Some ty \<Rightarrow> [announce_msg_for n i ty s]) ts)"

definition shown :: "('v, 't, 'm, string) ext \<Rightarrow> ('v, 't) server \<Rightarrow> (string \<times> topic_idx) list \<Rightarrow> u8 list" where
  "shown E s ts = concat (map (\<lambda>(n, i).
     case announced_type E n i s of None \<Rightarrow> [] | Some ty \<Rightarrow> current_value_bytes E i s) ts)"

lemma lists_not_read [simp]:
  "announced_type E n i (s\<lparr>topic_sub_map := x\<rparr>) = announced_type E n i s"
  "announce_msg_for n i ty (s\<lparr>topic_sub_map := x\<rparr>) = announce_msg_for n i ty s"
  "current_value_bytes E i (s\<lparr>topic_sub_map := x\<rparr>) = current_value_bytes E i s"
  "told E (s\<lparr>topic_sub_map := x\<rparr>) ts = told E s ts"
  "shown E (s\<lparr>topic_sub_map := x\<rparr>) ts = shown E s ts"
  by (simp_all add: announced_type_def announce_msg_for_def current_value_bytes_def told_def shown_def
      cong: option.case_cong if_cong)

lemma counters_not_read [simp]:
  "announced_type E n i (s\<lparr>counters := x\<rparr>) = announced_type E n i s"
  "told E (s\<lparr>counters := x\<rparr>) ts = told E s ts"
  "shown E (s\<lparr>counters := x\<rparr>) ts = shown E s ts"
  by (simp_all add: announced_type_def announce_msg_for_def current_value_bytes_def told_def shown_def
      cong: option.case_cong if_cong)

lemma subscribe_topics_maps:
  assumes "\<forall>(n, i) \<in> set ts. i \<in> hm_keys (topic_sub_map s)" and "distinct (map snd ts)"
  shows "\<exists>tsm. subscribe_topics E j ts ms vs s =
      (Ok (ms @ told E s ts, vs @ shown E s ts), s\<lparr>topic_sub_map := tsm\<rparr>) \<and>
    map_of tsm = listed_for j (\<lambda>i. i \<in> snd ` set ts) (map_of (topic_sub_map s))"
  using assms
proof (induction ts arbitrary: s ms vs)
  case Nil
  show ?case
    by (rule exI [of _ "topic_sub_map s"]) (simp add: told_def shown_def listed_for_def)
next
  case (Cons p ts)
  obtain n i where p: "p = (n, i)" by fastforce
  from Cons.prems(1) p obtain l where l: "map_of (topic_sub_map s) i = Some l" by auto
  let ?s = "s\<lparr>topic_sub_map := hm_insert i (l @ [j]) (topic_sub_map s)\<rparr>"
  have listed: "\<forall>(n, i) \<in> set ts. i \<in> hm_keys (topic_sub_map ?s)"
    using Cons.prems(1) by auto
  have dist: "distinct (map snd ts)" using Cons.prems(2) by simp
  have maps: "listed_for j (\<lambda>k. k \<in> snd ` set ts) (map_of (topic_sub_map ?s)) =
      listed_for j (\<lambda>k. k \<in> snd ` set (p # ts)) (map_of (topic_sub_map s))"
    using Cons.prems(2) p l by (auto simp: listed_for_def fun_eq_iff)
  show ?case
  proof (cases "announced_type E n i s")
    case None
    then have "told E s (p # ts) = told E s ts" "shown E s (p # ts) = shown E s ts"
      by (simp_all add: told_def shown_def p)
    moreover from Cons.IH [OF listed dist, of ms vs] obtain tsm where
      "subscribe_topics E j ts ms vs ?s = (Ok (ms @ told E ?s ts, vs @ shown E ?s ts), ?s\<lparr>topic_sub_map := tsm\<rparr>)"
      and m: "map_of tsm = listed_for j (\<lambda>k. k \<in> snd ` set ts) (map_of (topic_sub_map ?s))"
      by blast
    ultimately show ?thesis using None l trans [OF m maps]
      by (intro exI [of _ tsm]) (simp add: p Let_def)
  next
    case (Some ty)
    then have "told E s (p # ts) = announce_msg_for n i ty s # told E s ts"
      "shown E s (p # ts) = current_value_bytes E i s @ shown E s ts"
      by (simp_all add: told_def shown_def p)
    moreover from Cons.IH [OF listed dist, of "ms @ [announce_msg_for n i ty s]" "vs @ current_value_bytes E i s"]
    obtain tsm where
      "subscribe_topics E j ts (ms @ [announce_msg_for n i ty s]) (vs @ current_value_bytes E i s) ?s =
        (Ok ((ms @ [announce_msg_for n i ty s]) @ told E ?s ts,
             (vs @ current_value_bytes E i s) @ shown E ?s ts), ?s\<lparr>topic_sub_map := tsm\<rparr>)"
      and m: "map_of tsm = listed_for j (\<lambda>k. k \<in> snd ` set ts) (map_of (topic_sub_map ?s))"
      by blast
    ultimately show ?thesis using Some l trans [OF m maps]
      by (intro exI [of _ tsm]) (simp add: p Let_def)
  qed
qed

lemma distinct_snd_filter:
  assumes "distinct (map fst m)"
    and "\<And>n k i. map_of m n = Some i \<Longrightarrow> map_of m k = Some i \<Longrightarrow> n = k"
  shows "distinct (map snd (filter P m))"
proof -
  have "inj_on snd (set m)"
    using assms by (intro inj_onI) (metis map_of_is_SomeI prod.collapse)
  then have "inj_on snd (set (filter P m))" by (rule inj_on_subset) auto
  with assms(1) show ?thesis
    by (metis distinct_filter distinct_map)
qed

lemma interested_topics_facts:
  assumes "server_inv s"
  shows "\<forall>(n, i) \<in> set (interested_topics sub s). i \<in> hm_keys (topic_sub_map s)"
    and "distinct (map snd (interested_topics sub s))"
    and "(\<lambda>i. i \<in> snd ` set (interested_topics sub s)) = sees s sub"
proof -
  have d: "distinct (map fst (topic_map s))" using assms by (simp add: inv_defs)
  note at = map_of_is_SomeI [OF d]
  show "\<forall>(n, i) \<in> set (interested_topics sub s). i \<in> hm_keys (topic_sub_map s)"
    using inv_name_listed [OF assms at] by (auto simp only: interested_topics_def set_filter)
  show "distinct (map snd (interested_topics sub s))"
    unfolding interested_topics_def
    by (rule distinct_snd_filter [OF d]) (rule inv_name_inj [OF assms])
  show "(\<lambda>i. i \<in> snd ` set (interested_topics sub s)) = sees s sub"
  proof
    fix i
    show "i \<in> snd ` set (interested_topics sub s) \<longleftrightarrow> sees s sub i"
      using at [of _ i] map_of_SomeD [of "topic_map s" _ i]
      by (auto simp: interested_topics_def sees_def image_iff)
  qed
qed

section \<open>Subscribing\<close>

definition subscription_of :: "subscribe_msg \<Rightarrow> subscription" where
  "subscription_of m = \<lparr>sn_subuid = sb_subuid m, sn_topics = sb_topics m, sn_options = sb_options m\<rparr>"

definition store_of :: "subscribe_msg \<Rightarrow> 'v stored_sub_value" where
  "store_of m =
    (if unwrap_or False (opt_all (unwrap_or subscription_options_default (sb_options m)))
     then new_all else new_one)"

text \<open>Two sends to one client that listens.\<close>

lemma two_sends:
  assumes "json_write_list E ms = Some json" and "\<forall>c. cc_sub_ouput cl = Some c \<longrightarrow> ch_rx_open (channels s c)"
  shows "\<exists>ch. try_bind (send_nt_messages E cl ms) (\<lambda>_. send_binary cl b) s = (Ok (), s\<lparr>channels := ch\<rparr>) \<and>
    (\<forall>c. ch_queue (ch c) =
      ch_queue (channels s c) @ (if cc_sub_ouput cl = Some c then [WsText json, WsBinary b] else []))"
proof (cases "cc_sub_ouput cl")
  case None
  then show ?thesis
    by (intro exI [of _ "channels s"]) (simp add: try_bind_def send_nt_messages_def send_binary_def)
next
  case (Some c)
  with assms have "ch_rx_open (channels s c)" by simp
  let ?ch = "(channels s)(c := (channels s c)\<lparr>ch_queue := ch_queue (channels s c) @ [WsText json, WsBinary b]\<rparr>)"
  from \<open>ch_rx_open _\<close> Some assms(1) show ?thesis
    by (intro exI [of _ ?ch]) (simp add: try_bind_def send_nt_messages_def send_binary_def chan_send_def)
qed

lemma subscribe_run:
  fixes E :: "('v, 't, 'm, string) ext"
  assumes s: "server_inv s" and ids: "ids_inv s" and cl: "map_of (clients s) ci = Some cl"
    and open': "listening s ci" and json: "json_laws E"
    and room: "unat (c_sub_idx (counters s)) < 2 ^ 32 - 1"
  shows "\<exists>u json. subscribe E now m ci s = (Ok (), u) \<and>
    c_sub_idx (counters s) \<notin> hm_keys (subscriptions s) \<and>
    map_of (subscriptions u) = (map_of (subscriptions s))(c_sub_idx (counters s) \<mapsto> (subscription_of m, ci)) \<and>
    map_of (sub_values u) = (map_of (sub_values s))(c_sub_idx (counters s) \<mapsto> store_of m) \<and>
    map_of (sub_send_timestamps u) = (map_of (sub_send_timestamps s))(c_sub_idx (counters s) \<mapsto> now) \<and>
    map_of (topic_sub_map u) =
      listed_for (c_sub_idx (counters s)) (sees s (subscription_of m)) (map_of (topic_sub_map s)) \<and>
    topics u = topics s \<and> topic_map u = topic_map s \<and> topic_value_map u = topic_value_map s \<and>
    map_of (clients u) = (map_of (clients s))(ci \<mapsto> cl\<lparr>cc_subuid_to_subidx :=
      snd (bm_insert (sb_subuid m) (c_sub_idx (counters s)) (cc_subuid_to_subidx cl))\<rparr>) \<and>
    json_read_list E json = Some (told E s (interested_topics (subscription_of m) s)) \<and>
    (\<forall>c. ch_queue (channels u c) = ch_queue (channels s c) @ (if cc_sub_ouput cl = Some c
      then [WsText json, WsBinary (shown E s (interested_topics (subscription_of m) s))] else []))"
proof -
  let ?j = "c_sub_idx (counters s)" and ?sub = "subscription_of m"
  let ?ts = "interested_topics ?sub s"
  let ?t = "s\<lparr>counters := (counters s)\<lparr>c_sub_idx := ?j + 1\<rparr>\<rparr>"
  have nxt: "on_counters next_sub_idx s = (Ok ?j, ?t)"
    using room by (simp add: on_counters_def zoom_def next_sub_idx_def checked_add_def)
  have "\<forall>(n, i) \<in> set ?ts. i \<in> hm_keys (topic_sub_map ?t)"
    using interested_topics_facts(1) [OF s] by simp
  from subscribe_topics_maps [OF this interested_topics_facts(2) [OF s], of E ?j "[]" "[]"] obtain tsm where
    loop: "subscribe_topics E ?j ?ts [] [] ?t = (Ok (told E s ?ts, shown E s ?ts), ?t\<lparr>topic_sub_map := tsm\<rparr>)"
    and lists: "map_of tsm = listed_for ?j (sees s ?sub) (map_of (topic_sub_map s))"
    by (auto simp: interested_topics_facts(3) [OF s])
  let ?v = "store_subscription now ?j ?sub ci cl (?t\<lparr>topic_sub_map := tsm\<rparr>)"
  from json obtain json where json: "json_write_list E (told E s ?ts) = Some json"
    "json_read_list E json = Some (told E s ?ts)"
    unfolding json_laws_def by blast
  have "\<forall>c. cc_sub_ouput cl = Some c \<longrightarrow> ch_rx_open (channels ?v c)"
    using open' cl by (simp add: listening_def output_of_def store_subscription_def)
  from two_sends [OF json(1) this, of "shown E s ?ts"] obtain ch where
    sent: "try_bind (send_nt_messages E cl (told E s ?ts)) (\<lambda>_. send_binary cl (shown E s ?ts)) ?v =
      (Ok (), ?v\<lparr>channels := ch\<rparr>)"
    and queues: "\<forall>c. ch_queue (ch c) = ch_queue (channels ?v c) @
      (if cc_sub_ouput cl = Some c then [WsText json, WsBinary (shown E s ?ts)] else [])"
    by blast
  have "subscribe E now m ci s = (Ok (), ?v\<lparr>channels := ch\<rparr>)"
    using sent by (simp add: subscribe_def cl Let_def try_bind_def [of "on_counters _"] nxt
        try_bind_def [of "subscribe_topics _ _ _ _ _"] loop subscription_of_def [symmetric])
  moreover have "?j \<notin> hm_keys (subscriptions s)" using ids_sub [OF ids] by blast
  ultimately show ?thesis
    using json(2) queues lists
    by (intro exI [of _ "?v\<lparr>channels := ch\<rparr>"] exI [of _ json])
      (simp add: store_subscription_def store_of_def subscription_of_def)
qed

section \<open>Taking a subscription back\<close>

lemma unlisted:
  assumes "\<And>i l. m i = Some l \<Longrightarrow> j \<notin> set l"
  shows "map_option (filter (\<lambda>e. e \<noteq> j)) \<circ> listed_for j P m = m"
proof
  fix i
  have "filter (\<lambda>e. e \<noteq> j) l = l" if "m i = Some l" for l
    using assms [OF that] by (simp add: filter_id_conv) metis
  then show "(map_option (filter (\<lambda>e. e \<noteq> j)) \<circ> listed_for j P m) i = m i"
    by (cases "m i") (simp_all add: listed_for_def)
qed

lemma subscribe_unsubscribe:
  fixes E :: "('v, 't, 'm, string) ext" and m :: subscribe_msg and now :: instant
  assumes s: "server_inv s" and ids: "ids_inv s" and cl: "map_of (clients s) ci = Some cl"
    and "listening s ci" and "json_laws E" and "unat (c_sub_idx (counters s)) < 2 ^ 32 - 1"
  defines "w \<equiv> unsubscribe \<lparr>us_subuid = sb_subuid m\<rparr> ci (snd (subscribe E now m ci s))"
  shows "fst w = Ok () \<and> map_of (subscriptions (snd w)) = map_of (subscriptions s) \<and>
    map_of (sub_values (snd w)) = map_of (sub_values s) \<and>
    map_of (sub_send_timestamps (snd w)) = map_of (sub_send_timestamps s) \<and>
    map_of (topic_sub_map (snd w)) = map_of (topic_sub_map s)"
proof -
  let ?j = "c_sub_idx (counters s)"
  from subscribe_run [OF s ids cl assms(4-6), of now m] obtain u where
    run: "subscribe E now m ci s = (Ok (), u)"
    and maps: "map_of (subscriptions u) = (map_of (subscriptions s))(?j \<mapsto> (subscription_of m, ci))"
      "map_of (sub_values u) = (map_of (sub_values s))(?j \<mapsto> store_of m)"
      "map_of (sub_send_timestamps u) = (map_of (sub_send_timestamps s))(?j \<mapsto> now)"
      "map_of (topic_sub_map u) = listed_for ?j (sees s (subscription_of m)) (map_of (topic_sub_map s))"
    and cl': "map_of (clients u) = (map_of (clients s))(ci \<mapsto> cl\<lparr>cc_subuid_to_subidx :=
      snd (bm_insert (sb_subuid m) ?j (cc_subuid_to_subidx cl))\<rparr>)"
    by blast
  have new: "?j \<notin> hm_keys (subscriptions s)" using ids_sub [OF ids] by blast
  have unused: "?j \<notin> hm_keys (sub_values s)" "?j \<notin> hm_keys (sub_send_timestamps s)"
    using new inv_subs_stored [OF s, of ?j] inv_subs_timed [OF s, of ?j] by blast+
  have "map_option (filter (\<lambda>e. e \<noteq> ?j)) \<circ> map_of (topic_sub_map u) = map_of (topic_sub_map s)"
    unfolding maps(4) by (rule unlisted) (use inv_sub_stored [OF s] unused(1) in blast)
  then show ?thesis
    using new unused maps(1-3) cl'
    by (simp add: w_def run unsubscribe_def bm_remove_by_left_def bm_insert_def forget_subscription_def
        fun_upd_idem domIff)
qed

end
