(* ===== verification/Registry_Properties.thy ===== *)
theory Registry_Properties
  imports Sample_Runs Server_Connecting Server_Subscribing
begin

text \<open>
  The properties of the clients, topics, publications and subscriptions of the server, each with
  a concrete run at which it applies.
\<close>

lemmas reachable_inv = conjunct1 [OF reachable_invs] and reachable_ids = conjunct2 [OF reachable_invs]

section \<open>The server as a whole\<close>

text \<open>
  C1. In every state a new server can reach, by any sequence of connections, messages of any
  client, turns of the sender and calls of the owner: no map has a key twice; every topic, and
  every name, has its list of subscriptions; no two names lead to one topic and a topic has the
  name that leads to it; all indices are below the counters; every subscription in a list has
  its store, and subscriptions, stores and send times have the same keys; a store never holds a
  topic twice; the client of the server itself is there and no identity leads to it.
\<close>
theorem reachable_safe: "server_reachable E addr s \<Longrightarrow> server_inv s \<and> ids_inv s"
  by (rule reachable_invs)

lemma reachable_safe_witness:
  "server_inv srv4 \<and> ids_inv srv4 \<and> map_of (topic_sub_map srv4) 7 = Some [0] \<and>
    map_of (sub_values srv4) 0 = Some (StoreOne [])"
  using reachable_safe [OF srv4_reachable] by (simp add: srv4_eq)

text \<open>
  A new server starts without an error or a panic, whatever the third-party code does: the
  three indices the code names as constants are those of its three metatopics, each with one
  publisher and no subscription, and its only client is the server itself.
\<close>
lemma new_server_state:
  "fst (try_new E addr) = Ok () \<and>
    topic_map (snd (try_new E addr)) =
      [(''$clients'', CLIENT_METATOPIC), (''$serversub'', SERVER_SUB_METADATA), (''$serverpub'', SERVER_PUB_METATOPIC)] \<and>
    map fst (clients (snd (try_new E addr))) = [SERVER_CLIENT_IDX] \<and>
    (\<forall>n i. map_of (topic_map (snd (try_new E addr))) n = Some i \<longleftrightarrow>
      map_of (topics (snd (try_new E addr))) i = Some (new_meta n) \<and> n \<in> {''$clients'', ''$serversub'', ''$serverpub''}) \<and>
    map snd (pub_count (snd (try_new E addr))) = [1, 1, 1] \<and> subscriptions (snd (try_new E addr)) = []"
  by (auto simp: try_new_ok new_server CLIENT_METATOPIC_def SERVER_SUB_METADATA_def
      SERVER_PUB_METATOPIC_def SERVER_CLIENT_IDX_def new_meta_def split: if_splits)

section \<open>Clients\<close>





section \<open>Topics\<close>

text \<open>
  C27. A topic that is added is found under its name. A known name keeps its index and changes
  nothing; a new one brings its two metatopics with it and leaves every name, topic, list, count,
  value, store and subscription as it was. The list of a new topic is empty: no subscription
  made before is entered in it, whatever names it asks for.
\<close>
theorem add_topic_effect:
  assumes "server_reachable E addr s" and "fst (add_topic E t s) = Ok k"
  shows "map_of (topic_map (snd (add_topic E t s))) (t_name t) = Some k \<and>
    (case map_of (topic_map s) (t_name t) of
       Some i \<Rightarrow> k = i \<and> snd (add_topic E t s) = s
     | None \<Rightarrow> extends s (snd (add_topic E t s)) (entailed_names (t_name t)) \<and>
         map_of (topics (snd (add_topic E t s))) k = Some t \<and> k \<notin> hm_keys (topic_sub_map s) \<and>
         map_of (topic_sub_map (snd (add_topic E t s))) k = Some [])"
proof -
  from assms(2) obtain u where run: "add_topic E t s = (Ok k, u)"
    by (cases "add_topic E t s") simp
  show ?thesis
  proof (cases "map_of (topic_map s) (t_name t)")
    case None
    with add_new_topic [OF reachable_inv [OF assms(1)] None run] run show ?thesis by simp
  next
    case (Some i)
    with add_topic_known [OF Some, of E] run show ?thesis by simp
  qed
qed

definition sample_topic :: "string topic" where
  "sample_topic = \<lparr>t_name = ''speed'', t_type = ''int'', t_properties = None\<rparr>"

lemma sample_topic_added: "fst (add_topic sample sample_topic srv2) = Ok 7"
  by (simp add: srv2_eq run_simps sample_topic_def)

lemma add_topic_effect_witness:
  "fst (add_topic sample sample_topic srv2) = Ok 7 \<and>
    extends srv2 (snd (add_topic sample sample_topic srv2)) {''speed'', ''$pub$speed'', ''$sub$speed''}"
proof -
  have "map_of (topic_map srv2) (t_name sample_topic) = None"
    by (simp add: srv2_eq sample_topic_def)
  with add_topic_effect [OF srv2_reachable sample_topic_added] sample_topic_added show ?thesis
    by (simp add: entailed_names_def sample_topic_def)
qed

text \<open>
  C31. Removing a topic that was just added succeeds and restores names, topics and lists, if
  neither its name nor the names of its metatopics were taken.
\<close>
theorem add_then_remove:
  assumes "server_reachable E addr s" and "fst (add_topic E t s) = Ok k"
    and "CHR ''$'' \<notin> set (t_name t)" and "\<forall>n \<in> entailed_names (t_name t). map_of (topic_map s) n = None"
  shows "fst (remove_topic k (snd (add_topic E t s))) = Ok () \<and>
    map_of (topic_map (snd (remove_topic k (snd (add_topic E t s))))) = map_of (topic_map s) \<and>
    map_of (topics (snd (remove_topic k (snd (add_topic E t s))))) = map_of (topics s) \<and>
    map_of (topic_sub_map (snd (remove_topic k (snd (add_topic E t s))))) = map_of (topic_sub_map s)"
proof -
  from assms(2) have "add_topic E t s = (Ok k, snd (add_topic E t s))"
    by (cases "add_topic E t s") simp
  from add_remove_topic [OF reachable_inv [OF assms(1)] assms(4,3) this] show ?thesis .
qed

lemma add_then_remove_witness:
  "fst (remove_topic 7 (snd (add_topic sample sample_topic srv2))) = Ok () \<and>
    map_of (topic_map (snd (remove_topic 7 (snd (add_topic sample sample_topic srv2))))) = map_of (topic_map srv2)"
proof -
  have "CHR ''$'' \<notin> set (t_name sample_topic)" by (simp add: sample_topic_def)
  moreover have "\<forall>n \<in> entailed_names (t_name sample_topic). map_of (topic_map srv2) n = None"
    by (simp add: sample_topic_def entailed_names_def srv2_eq)
  ultimately show ?thesis
    using add_then_remove [OF srv2_reachable sample_topic_added] by blast
qed

text \<open>
  C34. The values of a topic published after a subscription never reach it: a value set right
  after a topic was added changes no store, not even that of a subscription that cares about the
  topic and whose client was told of it.
\<close>
theorem new_topic_has_no_subscribers:
  assumes "server_reachable E addr s" and "fst (add_topic E t s) = Ok k"
    and "map_of (topic_map s) (t_name t) = None" and "CHR ''$'' \<notin> set (t_name t)"
  shows "fst (set_value v k (snd (add_topic E t s))) = Ok () \<and>
    map_of (sub_values (snd (set_value v k (snd (add_topic E t s))))) = map_of (sub_values s)"
proof -
  from assms(2) obtain u where run: "add_topic E t s = (Ok k, u)"
    by (cases "add_topic E t s") simp
  note inv = reachable_inv [OF assms(1)]
  from add_new_topic [OF inv assms(3) run] have ext: "sub_values u = sub_values s"
    and top: "map_of (topics u) k = Some t" and lst: "map_of (topic_sub_map u) k = Some []"
    by (simp_all add: extends_def)
  from set_value_effect [OF add_topic_inv [OF run inv] top assms(4), of v] obtain w where
    w: "set_value v k u = (Ok (), w)"
    and stores: "\<forall>j. map_of (sub_values w) j =
      map_option ((add_value k (NormalValue v)) ^^ (count_list [] j)) (map_of (sub_values u) j)"
    using lst by auto
  have "map_of (sub_values w) j = map_of (sub_values s) j" for j
    using stores ext by (cases "map_of (sub_values s) j") simp_all
  with w run show ?thesis by (simp add: fun_eq_iff)
qed

text \<open>Bob subscribes first, then the topic comes.\<close>

definition early :: sample_server where
  "early = snd (parse_text sample 0 2 (Inl [Subscribe sub_speed]) srv2)"

lemma early_reachable: "server_reachable sample sample_addr early"
  unfolding early_def by (rule parse_text_step [OF srv2_reachable])

lemma new_topic_has_no_subscribers_witness:
  "map_of (subscriptions early) 0 = Some (\<lparr>sn_subuid = 5, sn_topics = {''speed''}, sn_options = None\<rparr>, 2) \<and>
    map_of (sub_values (snd (set_value \<lparr>tv_timestamp = 9, tv_value = 42\<rparr> 7
      (snd (add_topic sample sample_topic early))))) 0 = Some (StoreOne [])"
proof -
  have "fst (add_topic sample sample_topic early) = Ok 7"
    unfolding early_def by (simp add: srv2_eq run_simps sample_topic_def)
  moreover have "map_of (topic_map early) (t_name sample_topic) = None"
    "CHR ''$'' \<notin> set (t_name sample_topic)"
    unfolding early_def by (simp_all add: srv2_eq run_simps sample_topic_def)
  ultimately have "map_of (sub_values (snd (set_value \<lparr>tv_timestamp = 9, tv_value = 42\<rparr> 7
      (snd (add_topic sample sample_topic early))))) = map_of (sub_values early)"
    using new_topic_has_no_subscribers [OF early_reachable] by blast
  then show ?thesis
    unfolding early_def by (simp add: srv2_eq run_simps)
qed

section \<open>Announcements\<close>



section \<open>Publishing\<close>

text \<open>
  C21. A publication that succeeds binds the id of the publisher to the topic of that name. A new
  topic gets the type and properties of the message and its metatopics; a known one keeps its
  type, its properties and its count of publishers: a second publisher is not counted.
\<close>
theorem publish_topic_effect:
  assumes "server_reachable E addr s" and "inner_publish_topic E p ci s = (Ok i, u)"
  shows "map_of (topic_map u) (pt_name p) = Some i \<and>
    (\<exists>cl. map_of (clients u) ci = Some cl \<and>
      bm_get_by_left (cc_pubuid_to_topicidx cl) (pt_pubuid p) = Some i) \<and>
    (case map_of (topic_map s) (pt_name p) of
       Some k \<Rightarrow> i = k \<and> topics u = topics s \<and> pub_count u = pub_count s \<and> topic_map u = topic_map s
     | None \<Rightarrow> map_of (topics u) i = Some (from_publish_topic p) \<and>
         hm_keys (topic_map u) = hm_keys (topic_map s) \<union> entailed_names (pt_name p))"
  by (rule publish_effect [OF reachable_inv [OF assms(1)] assms(2)])

lemma publish_topic_effect_witness:
  "map_of (pub_count srv4) 7 = Some 1 \<and>
    (\<exists>u. inner_publish_topic sample (pub_speed 22) 2 srv4 = (Ok 7, u) \<and> map_of (pub_count u) 7 = Some 1)"
proof -
  define u where "u = snd (inner_publish_topic sample (pub_speed 22) 2 srv4)"
  have "fst (inner_publish_topic sample (pub_speed 22) 2 srv4) = Ok 7"
    by (simp add: srv4_eq run_simps)
  then have run: "inner_publish_topic sample (pub_speed 22) 2 srv4 = (Ok 7, u)"
    unfolding u_def by (metis prod.collapse)
  have "map_of (topic_map srv4) (pt_name (pub_speed 22)) = Some 7" "map_of (pub_count srv4) 7 = Some 1"
    by (simp_all add: srv4_eq pub_speed_def)
  with publish_topic_effect [OF srv4_reachable run] run show ?thesis by simp
qed




section \<open>Subscriptions\<close>

text \<open>
  C10. A subscription gets an index that none has; it is entered exactly in the lists of the topics
  it cares about, at the end, with an empty store of the kind it asked for; its client, and no
  other, is sent one text with an announcement of each of these topics and one binary message
  with their current values; no topic, value or other subscription changes.
\<close>
theorem subscribe_effect:
  assumes "server_reachable E addr s" and "map_of (clients s) ci = Some cl" and "listening s ci"
    and "json_laws E" and "unat (c_sub_idx (counters s)) < 2 ^ 32 - 1"
  shows "\<exists>u json. subscribe E now m ci s = (Ok (), u) \<and>
    c_sub_idx (counters s) \<notin> hm_keys (subscriptions s) \<and>
    map_of (subscriptions u) = (map_of (subscriptions s))(c_sub_idx (counters s) \<mapsto> (subscription_of m, ci)) \<and>
    map_of (sub_values u) = (map_of (sub_values s))(c_sub_idx (counters s) \<mapsto> store_of m) \<and>
    map_of (sub_send_timestamps u) = (map_of (sub_send_timestamps s))(c_sub_idx (counters s) \<mapsto> now) \<and>
    map_of (topic_sub_map u) =
      listed_for (c_sub_idx (counters s)) (sees s (subscription_of m)) (map_of (topic_sub_map s)) \<and>
    topics u = topics s \<and> topic_map u = topic_map s \<and> topic_value_map u = topic_value_map s \<and>
    map_of (clients u) = (map_of (clients s))(ci \<mapsto> cl\<lparr>cc_subuid_to_subidx :=
      snd (bm_insert (sb_subuid m) (c_sub_idx (counters s)) (cc_subuid_to_subidx cl))\<rparr>) \<and>
    json_read_list E json = Some (told E s (interested_topics (subscription_of m) s)) \<and>
    (\<forall>c. ch_queue (channels u c) = ch_queue (channels s c) @ (if cc_sub_ouput cl = Some c
      then [WsText json, WsBinary (shown E s (interested_topics (subscription_of m) s))] else []))"
  by (rule subscribe_run [OF reachable_inv [OF assms(1)] reachable_ids [OF assms(1)] assms(2-5)])

lemma srv4_listening: "listening srv4 2" "listening srv4 1"
  by (simp_all add: listening_def output_of_def srv4_eq)

lemma subscribe_effect_witness:
  "listening srv4 1 \<and> (\<exists>u. subscribe sample 3 sub_speed 1 srv4 = (Ok (), u) \<and>
    map_of (subscriptions u) 1 = Some (subscription_of sub_speed, 1) \<and>
    map_of (topic_sub_map u) 7 = Some [0, 1] \<and> map_of (topic_sub_map u) 8 = Some [])"
proof -
  obtain cl where cl: "map_of (clients srv4) 1 = Some cl" by (simp add: srv4_eq)
  have idx: "c_sub_idx (counters srv4) = 1" by (simp add: srv4_eq)
  have sees: "sees srv4 (subscription_of sub_speed) 7" "\<not> sees srv4 (subscription_of sub_speed) 8"
    by (auto simp: sees_def srv4_eq subscription_of_def run_simps split: if_splits)
  have lists: "map_of (topic_sub_map srv4) 7 = Some [0]" "map_of (topic_sub_map srv4) 8 = Some []"
    by (simp_all add: srv4_eq)
  from subscribe_effect [OF srv4_reachable cl srv4_listening(2) sample_json_laws, of 3 sub_speed]
  obtain u where "subscribe sample 3 sub_speed 1 srv4 = (Ok (), u)"
    "map_of (subscriptions u) = (map_of (subscriptions srv4))(1 \<mapsto> (subscription_of sub_speed, 1))"
    "map_of (topic_sub_map u) = listed_for 1 (sees srv4 (subscription_of sub_speed)) (map_of (topic_sub_map srv4))"
    by (auto simp: idx)
  with sees lists srv4_listening show ?thesis by (simp add: listed_for_def)
qed

text \<open>
  C29. Subscribing and unsubscribing under the same id leaves subscriptions, stores, send times and
  the lists of all topics as they were.
\<close>
theorem subscribe_then_unsubscribe:
  fixes E :: "('v, 't, 'm, string) ext"
  assumes "server_reachable E addr s" and "map_of (clients s) ci = Some cl" and "listening s ci"
    and "json_laws E" and "unat (c_sub_idx (counters s)) < 2 ^ 32 - 1"
  shows "fst (unsubscribe \<lparr>us_subuid = sb_subuid m\<rparr> ci (snd (subscribe E now m ci s))) = Ok () \<and>
    map_of (subscriptions (snd (unsubscribe \<lparr>us_subuid = sb_subuid m\<rparr> ci (snd (subscribe E now m ci s))))) =
      map_of (subscriptions s) \<and>
    map_of (sub_values (snd (unsubscribe \<lparr>us_subuid = sb_subuid m\<rparr> ci (snd (subscribe E now m ci s))))) =
      map_of (sub_values s) \<and>
    map_of (sub_send_timestamps (snd (unsubscribe \<lparr>us_subuid = sb_subuid m\<rparr> ci (snd (subscribe E now m ci s))))) =
      map_of (sub_send_timestamps s) \<and>
    map_of (topic_sub_map (snd (unsubscribe \<lparr>us_subuid = sb_subuid m\<rparr> ci (snd (subscribe E now m ci s))))) =
      map_of (topic_sub_map s)"
  by (rule subscribe_unsubscribe [OF reachable_inv [OF assms(1)] reachable_ids [OF assms(1)] assms(2-5)])

lemma subscribe_then_unsubscribe_witness:
  "fst (subscribe sample 3 sub_speed 1 srv4) = Ok () \<and>
    map_of (topic_sub_map (snd (unsubscribe \<lparr>us_subuid = 5\<rparr> 1 (snd (subscribe sample 3 sub_speed 1 srv4))))) =
      map_of (topic_sub_map srv4)"
proof -
  obtain cl where cl: "map_of (clients srv4) 1 = Some cl" by (simp add: srv4_eq)
  have "unat (c_sub_idx (counters srv4)) < 2 ^ 32 - 1" by (simp add: srv4_eq)
  from subscribe_then_unsubscribe [OF srv4_reachable cl srv4_listening(2) sample_json_laws this, of sub_speed 3]
  have "map_of (topic_sub_map (snd (unsubscribe \<lparr>us_subuid = 5\<rparr> 1 (snd (subscribe sample 3 sub_speed 1 srv4))))) =
      map_of (topic_sub_map srv4)"
    by (simp add: sub_speed_def)
  moreover have "fst (subscribe sample 3 sub_speed 1 srv4) = Ok ()"
    by (simp add: srv4_eq run_simps)
  ultimately show ?thesis by blast
qed

end
