(* ===== verification/Server_Sending.thy ===== *)
theory Server_Sending
  imports Server_Registry
begin

text \<open>
  What reaches a client: the values a pass takes from a store and puts on the channel of the
  client, and what the task of the connection does with what it finds there.
\<close>

section \<open>From the stores to the channel\<close>

text \<open>The bytes of the values of one topic, when all of them can be written.\<close>

definition bytes_of ::
    "('v, 't, 'm, 'ty) ext \<Rightarrow> u64 \<Rightarrow> topic_idx \<times> 'v server_sendable_value list \<Rightarrow> u8 list"
where
  "bytes_of E now e =
    concat (map (\<lambda>v. case sendable_as_bytes E now v (fst e) of Ok b \<Rightarrow> b | _ \<Rightarrow> []) (snd e))"

lemma encode_values_bytes:
  assumes "rmp_total E" and "unat i < 2 ^ 31"
  shows "encode_values E now i vs = Ok (bytes_of E now (i, vs))"
proof (induction vs)
  case (Cons v vs)
  with assms sendable_as_bytes_total [OF assms(1), of now v i] show ?case
    by (auto simp: bytes_of_def)
qed (simp add: bytes_of_def)

lemma deliver_one:
  assumes "rmp_total E" and "unat (fst e) < 2 ^ 31" and "cc_sub_ouput cl = Some c"
    and "ch_rx_open (channels s c)"
  shows "send_topic_values E now cl e s =
    (Ok (), s\<lparr>channels := (channels s)(c := (channels s c)
      \<lparr>ch_queue := ch_queue (channels s c) @ [WsBinary (bytes_of E now e)]\<rparr>)\<rparr>)"
  using assms encode_values_bytes [OF assms(1,2), of now "snd e"]
  by (simp add: send_topic_values_def send_binary_def chan_send_def ignore_err_def)

lemma deliver_all:
  assumes "rmp_total E" and "\<forall>e \<in> set es. unat (fst e) < 2 ^ 31" and "cc_sub_ouput cl = Some c"
    and "ch_rx_open (channels s c)"
  shows "for_each (send_topic_values E now cl) es s =
    (Ok (), s\<lparr>channels := (channels s)(c := (channels s c)
      \<lparr>ch_queue := ch_queue (channels s c) @ map (\<lambda>e. WsBinary (bytes_of E now e)) es\<rparr>)\<rparr>)"
  using assms(2,4)
proof (induction es arbitrary: s)
  case (Cons e es)
  then show ?case
    using deliver_one [OF assms(1) _ assms(3), of e s now]
    by (simp add: try_bind_def cong: if_cong)
qed (simp add: act_simps)

text \<open>
  A pass over one subscription whose time it is: its values, topic by topic, are on the channel
  of its client, its store is empty and its time is now.
\<close>

lemma send_pass_one:
  assumes s: "server_inv s" and total: "rmp_total E" and bound: "unat (c_topic_idx (counters s)) \<le> 2 ^ 31"
    and st: "map_of (sub_values s) j = Some st" and cl: "map_of (clients s) ci = Some cl"
    and out: "cc_sub_ouput cl = Some c" "ch_rx_open (channels s c)"
    and wants: "\<not> unwrap_or False (opt_topics_only (get_options sub))"
    and sent: "map_of (sub_send_timestamps s) j = Some t0"
    and due: "1 / 1000 \<le> \<bar>elapsed_secs clk t0 - unwrap_or (1 / 10) (opt_periodic (get_options sub))\<bar>"
  shows "\<exists>u. send_pass E clk now [(j, sub, ci)] off s = (Ok off, u) \<and>
    map_of (sub_values u) = (map_of (sub_values s))(j \<mapsto> snd (take_values st)) \<and>
    map_of (sub_send_timestamps u) = (map_of (sub_send_timestamps s))(j \<mapsto> clk) \<and>
    ch_queue (channels u c) =
      ch_queue (channels s c) @ map (\<lambda>e. WsBinary (bytes_of E now e)) (fst (take_values st))"
proof -
  let ?s = "s\<lparr>sub_send_timestamps := hm_insert j clk (sub_send_timestamps s),
      sub_values := hm_insert j (snd (take_values st)) (sub_values s)\<rparr>"
  have "unat (fst e) < 2 ^ 31" if "e \<in> set (fst (take_values st))" for e
  proof -
    from that taken_keys [of st] have "fst e \<in> set (stored_keys st)" by force
    with inv_stores [OF s] st have "fst e < c_topic_idx (counters s)"
      unfolding stores_ok_def by blast
    with bound show ?thesis by (simp add: word_less_nat_alt)
  qed
  then have "\<forall>e \<in> set (fst (take_values st)). unat (fst e) < 2 ^ 31" by blast
  from deliver_all [OF total this out(1), of ?s now] out(2)
  have "for_each (send_topic_values E now cl) (fst (take_values st)) ?s =
      (Ok (), ?s\<lparr>channels := (channels s)(c := (channels s c)
        \<lparr>ch_queue := ch_queue (channels s c) @ map (\<lambda>e. WsBinary (bytes_of E now e)) (fst (take_values st))\<rparr>)\<rparr>)"
    by simp
  with st cl wants sent due show ?thesis
    by (simp add: Let_def try_bind_def case_prod_beta)
qed

section \<open>From the channel to the socket\<close>

text \<open>What the connection passes on of an event.\<close>

fun forwarded :: "'t conn_event \<Rightarrow> 't ws_message list" where
  "forwarded (OutMsg (Some (WsBinary _))) = []"
| "forwarded (OutMsg (Some m)) = [m]"
| "forwarded (TimeMsg (Some m)) = [m]"
| "forwarded _ = []"

definition on_its_way :: "'t conn \<Rightarrow> 't ws_message list" where
  "on_its_way c = cn_wire c @ cn_fed c"

lemma on_its_way_turn: "on_its_way (outgoing c e) = on_its_way c @ forwarded e"
  by (cases "(c, e)" rule: outgoing.cases) (auto simp: on_its_way_def conn_flush_def conn_feed_def)

end
