(* ===== verification/Value_Properties.thy ===== *)
theory Value_Properties
  imports Registry_Properties Server_Sending
begin

text \<open>
  The properties of values on their way through the server, of the parser and of the calls of
  the owner, each with a concrete run at which it applies.
\<close>

section \<open>Setting values\<close>

text \<open>
  C4. Setting a value of a topic that is not a metatopic always succeeds, whatever state the
  server has reached: the topic keeps the newer of its value and the new one, every subscription
  in its list gets the value in its store (added to the others or in place of them), and no other
  topic, store or list changes.
\<close>
theorem set_value_stores:
  assumes "server_reachable E addr s" and "map_of (topics s) i = Some t" and "CHR ''$'' \<notin> set (t_name t)"
  shows "\<exists>u subs. set_value v i s = (Ok (), u) \<and> map_of (topic_sub_map s) i = Some subs \<and>
    topics u = topics s \<and> topic_map u = topic_map s \<and> topic_sub_map u = topic_sub_map s \<and>
    map_of (topic_value_map u) = (map_of (topic_value_map s))(i \<mapsto> newest (map_of (topic_value_map s) i) v) \<and>
    (\<forall>j. map_of (sub_values u) j =
      map_option ((add_value i (NormalValue v)) ^^ (count_list subs j)) (map_of (sub_values s) j))"
  by (rule set_value_effect [OF reachable_inv [OF assms(1)] assms(2,3)])

definition forty_two :: "u64 timestamped_value" where
  "forty_two = \<lparr>tv_timestamp = 9, tv_value = 42\<rparr>"

lemma set_value_stores_witness:
  "\<exists>u. set_value forty_two 7 srv4 = (Ok (), u) \<and> map_of (topic_value_map u) 7 = Some forty_two \<and>
    map_of (sub_values u) 0 = Some (StoreOne [(7, NormalValue forty_two)])"
proof -
  have "map_of (topics srv4) 7 = Some sample_topic" "CHR ''$'' \<notin> set (t_name sample_topic)"
    by (simp_all add: srv4_eq sample_topic_def)
  from set_value_stores [OF srv4_reachable this, of forty_two] show ?thesis
    by (auto simp: srv4_eq newest_def)
qed

text \<open>
  C9. After any run of values for one topic the topic holds one of them, or the value it had, and
  none of them has a greater timestamp: late values with old timestamps never win.
\<close>
theorem latest_value_wins:
  assumes "server_reachable E addr s" and "map_of (topics s) i = Some t" and "CHR ''$'' \<notin> set (t_name t)"
    and "vs \<noteq> []"
  shows "\<exists>u w. for_each (\<lambda>v. set_value v i) vs s = (Ok (), u) \<and> map_of (topic_value_map u) i = Some w \<and>
    w \<in> set_option (map_of (topic_value_map s) i) \<union> set vs \<and>
    (\<forall>x \<in> set_option (map_of (topic_value_map s) i) \<union> set vs. tv_timestamp x \<le> tv_timestamp w)"
proof -
  from set_values_run [OF reachable_inv [OF assms(1)] assms(2,3), of vs] obtain u where
    run: "for_each (\<lambda>v. set_value v i) vs s = (Ok (), u)"
    and last: "map_of (topic_value_map u) i = foldl (\<lambda>old v. Some (newest old v)) (map_of (topic_value_map s) i) vs"
    by blast
  from foldl_newest [OF last [symmetric]] assms(4) run show ?thesis
    by (cases "map_of (topic_value_map u) i") auto
qed

lemma latest_value_wins_witness:
  "\<exists>u. for_each (\<lambda>v. set_value v 7) [forty_two, \<lparr>tv_timestamp = 3, tv_value = 1\<rparr>] srv4 = (Ok (), u) \<and>
    map_of (topic_value_map u) 7 = Some forty_two"
proof -
  have "map_of (topics srv4) 7 = Some sample_topic" "CHR ''$'' \<notin> set (t_name sample_topic)"
    by (simp_all add: srv4_eq sample_topic_def)
  from latest_value_wins [OF srv4_reachable this, of "[forty_two, \<lparr>tv_timestamp = 3, tv_value = 1\<rparr>]"]
  show ?thesis by (auto simp: srv4_eq forty_two_def)
qed

text \<open>
  A value with an old timestamp is not stored, but the subscribers of the topic get it all the
  same: their stores receive it exactly as they receive a new one.
\<close>
lemma stale_value_is_sent:
  assumes "server_reachable E addr s" and "map_of (topics s) i = Some t" and "CHR ''$'' \<notin> set (t_name t)"
    and "map_of (topic_value_map s) i = Some w" and "tv_timestamp v \<le> tv_timestamp w"
    and "map_of (topic_sub_map s) i = Some subs" and "j \<in> set subs"
  shows "\<exists>u st. set_value v i s = (Ok (), u) \<and> map_of (topic_value_map u) i = Some w \<and>
    map_of (sub_values u) j = Some st \<and> pending st i \<noteq> [] \<and> last (pending st i) = NormalValue v"
proof -
  note inv = reachable_inv [OF assms(1)]
  from set_value_effect [OF inv assms(2,3), of v] assms(4-6) obtain u where
    u: "set_value v i s = (Ok (), u)" "map_of (topic_value_map u) i = Some w"
    and stores: "map_of (sub_values u) j =
      map_option ((add_value i (NormalValue v)) ^^ (count_list subs j)) (map_of (sub_values s) j)"
    by (auto simp: newest_def not_less)
  from inv_sub_stored [OF inv assms(6,7)] obtain st where st: "map_of (sub_values s) j = Some st" by auto
  have "count_list subs j \<noteq> 0" using assms(7) by (simp add: count_list_0_iff)
  with u stores st show ?thesis
    by (intro exI [of _ u]) (simp add: pending_added_times)
qed

text \<open>Alice sends a value with timestamp 9 for her publication 21.\<close>

lemma read_n_numeral:
  "read_n rd (numeral k) bs =
     (case rd bs of
        None \<Rightarrow> None
      | Some (v, rest) \<Rightarrow>
          (case read_n rd (pred_numeral k) rest of
             None \<Rightarrow> None
           | Some (vs, rest') \<Rightarrow> Some (v # vs, rest')))"
  by (subst numeral_eq_Suc) simp

lemma forty_two_bytes:
  "parse_in sample now 1 (WsBinary [148, 21, 9, 2, 42]) =
    Some (for_each (parse_value sample 1) [MpArray [MpUint 21, MpUint 9, MpUint 2, MpUint 42]])"
  by (simp add: parse_in_def parse_binary_def read_n_numeral)

definition srv5 :: sample_server where
  "srv5 = snd (for_each (parse_value sample 1) [MpArray [MpUint 21, MpUint 9, MpUint 2, MpUint 42]] srv4)"

lemma srv5_reachable: "server_reachable sample sample_addr srv5"
  unfolding srv5_def by (rule steps [OF srv4_reachable receives [OF forty_two_bytes]])

lemma srv5_fields:
  "topics srv5 = topics srv4" "topic_map srv5 = topic_map srv4" "topic_sub_map srv5 = topic_sub_map srv4"
  "topic_value_map srv5 = [(7, forty_two)]" "clients srv5 = clients srv4"
  "sub_values srv5 = [(0, StoreOne [(7, NormalValue forty_two)])]"
  "subscriptions srv5 = subscriptions srv4" "counters srv5 = counters srv4"
  "sub_send_timestamps srv5 = sub_send_timestamps srv4" "channels srv5 = channels srv4"
  unfolding srv5_def
  by (simp_all add: srv4_eq run_simps parse_value_def decode_update_def apply_update_def forty_two_def)

lemma stale_value_is_sent_witness:
  "\<exists>u st. set_value \<lparr>tv_timestamp = 3, tv_value = 1\<rparr> 7 srv5 = (Ok (), u) \<and>
    map_of (topic_value_map u) 7 = Some forty_two \<and> map_of (sub_values u) 0 = Some st \<and>
    last (pending st 7) = NormalValue \<lparr>tv_timestamp = 3, tv_value = 1\<rparr>"
proof -
  have pre: "map_of (topics srv5) 7 = Some sample_topic" "CHR ''$'' \<notin> set (t_name sample_topic)"
    "map_of (topic_value_map srv5) 7 = Some forty_two" "map_of (topic_sub_map srv5) 7 = Some [0]"
    "0 \<in> set [0 :: sub_idx]" "tv_timestamp \<lparr>tv_timestamp = 3, tv_value = (1 :: u64)\<rparr> \<le> tv_timestamp forty_two"
    by (simp_all add: srv5_fields srv4_eq sample_topic_def forty_two_def)
  from stale_value_is_sent [OF srv5_reachable pre(1-3) pre(6,4,5)] show ?thesis by blast
qed

section \<open>Sending values out\<close>

text \<open>
  C13. A turn of the sender never panics in a reachable state with a subscription: no time and no
  store it looks up is missing, no topic index is too great for the wire format while fewer than
  2^31 topics have been created, and every value can be written.
\<close>
theorem sender_turn_returns:
  assumes "server_reachable E addr s" and "rmp_total E" and "unat (c_topic_idx (counters s)) \<le> 2 ^ 31"
    and "subscriptions s \<noteq> []"
  shows "\<exists>r u. send_out_turn E clk now off s = (Ok r, u)"
proof -
  note inv = reachable_inv [OF assms(1)]
  have "\<forall>e \<in> set (subscriptions s). fst e \<in> hm_keys (sub_values s)"
  proof
    fix e
    assume "e \<in> set (subscriptions s)"
    then have "fst e \<in> hm_keys (subscriptions s)" by (simp add: dom_map_of_conv_image_fst)
    with inv_subs_stored [OF inv] show "fst e \<in> hm_keys (sub_values s)" by blast
  qed
  from send_pass_ok [OF inv assms(2,3) this, of clk now off] obtain off' u where
    "send_pass E clk now (subscriptions s) off s = (Ok off', u)" by blast
  with assms(4) show ?thesis by (simp add: send_out_turn_def try_bind_def act_simps)
qed

lemma sender_turn_returns_witness:
  "rmp_total sample \<and> subscriptions srv5 \<noteq> [] \<and>
    (\<exists>r u. send_out_turn sample 500000000 0 (1 / 10) srv5 = (Ok r, u))"
proof -
  have pre: "unat (c_topic_idx (counters srv5)) \<le> 2 ^ 31" "subscriptions srv5 \<noteq> []"
    by (simp_all add: srv5_fields srv4_eq)
  from sender_turn_returns [OF srv5_reachable sample_rmp_total pre] pre(2) sample_rmp_total show ?thesis
    by blast
qed

text \<open>
  The sender can still die. A pass that skips a subscription keeps how far its time is away,
  which is negative when the time has just passed; it then does not sleep at all, and when the
  last subscription has gone, the next turn makes a \<open>Duration\<close> of the negative number and panics.
\<close>
lemma sender_panics_without_subscriptions:
  "fst (send_out_turn sample 100500000 0 (1 / 10) srv4) = Ok (0, - 1 / 2000) \<and>
    fst (unsubscribe \<lparr>us_subuid = 5\<rparr> 2 srv4) = Ok () \<and>
    is_panic (fst (send_out_turn sample 100600000 0 (- 1 / 2000) (snd (unsubscribe \<lparr>us_subuid = 5\<rparr> 2 srv4))))"
  by (simp add: srv4_eq run_simps send_out_turn_def elapsed_secs_def)




section \<open>The parser\<close>

text \<open>
  C28. The parser comes to an end with every message a client can send, its loop over the values of
  a byte string included, and whatever it did on the way, errors and panics included, both
  invariants hold afterwards.
\<close>
theorem parser_terminates:
  assumes "server_reachable E addr s" and "rmpv_consumes E"
  shows "\<exists>m. parse_in E now ci msg = Some m \<and> server_inv (snd (m s)) \<and> ids_inv (snd (m s))"
proof -
  have "\<exists>m. parse_in E now ci msg = Some m"
  proof (cases msg)
    case (WsBinary b)
    from decode_values_enough [OF assms(2), of b "Suc (length b)"] obtain vs where
      "decode_values E (Suc (length b)) b = Some vs" by auto
    with WsBinary show ?thesis by (simp add: parse_in_def parse_binary_def)
  qed (simp_all add: parse_in_def)
  then obtain m where m: "parse_in E now ci msg = Some m" by blast
  from reachable_invs [OF steps [OF assms(1) receives [OF m]]] m show ?thesis by blast
qed

lemma parser_terminates_witness:
  "rmpv_consumes sample \<and> (\<exists>m. parse_in sample 0 1 (WsBinary [148, 21, 9, 2, 42, 193]) = Some m \<and>
    server_inv (snd (m srv4)))"
  using parser_terminates [OF srv4_reachable sample_consumes] sample_consumes by blast

text \<open>
  The values of a binary message: an array counts when it has at least three elements, the
  first an unsigned number below 2^32 (the id), the second an unsigned 64-bit number (the time)
  and the last a value; the elements between are not looked at. Anything else panics, it is
  never an error.
\<close>
lemma malformed_value_panics:
  "case decode_update E a of
     Ok (p, v) \<Rightarrow> 3 \<le> length a \<and> (\<exists>n. rmpv_as_u64 E (a ! 0) = Some n \<and> unat n < 2 ^ 32 \<and> p = ucast n) \<and>
       rmpv_as_u64 E (a ! 1) = Some (tv_timestamp v) \<and> frc_of_rmpv E (last a) = Some (tv_value v)
   | Err e \<Rightarrow> False
   | Panic q \<Rightarrow> \<not> (3 \<le> length a \<and> (\<exists>n. rmpv_as_u64 E (a ! 0) = Some n \<and> unat n < 2 ^ 32) \<and>
       rmpv_as_u64 E (a ! 1) \<noteq> None \<and> frc_of_rmpv E (last a) \<noteq> None)"
  by (auto simp: decode_update_def Suc_le_eq split: list.splits option.splits)

section \<open>The calls of the owner\<close>

text \<open>Starting succeeds, and the handle holds a reachable server.\<close>

lemma started_server:
  "\<exists>h. start_server hash_addr E addr = Ok h \<and> sh_uid h = hash_addr addr \<and> server_reachable E addr (sh_inner h)"
proof -
  obtain s where "try_new E addr = (Ok (), s)" using try_new_ok [of E addr] by (cases "try_new E addr") simp
  then show ?thesis using server_reachable.starts [of E addr] by (simp add: start_server_def)
qed

text \<open>
  Looking a topic up by name always fails, also for a name that is registered: the value or the
  time stamp the owner asks for or sets through a name is never read or changed.
\<close>
lemma named_access_fails:
  "(\<exists>e. get_topic_value n s = (Err e, s)) \<and> (\<exists>e. set_topic_value now n v s = (Err e, s)) \<and>
    (\<exists>e. set_topic_value_w_timestamp n v ts s = (Err e, s))"
  by (simp add: get_topic_value_def set_topic_value_def set_topic_value_w_timestamp_def get_topic_idx_then)

end
