(* ===== verification/Server_Frames.thy ===== *)
theory Server_Frames
  imports Server_Safety
begin

text \<open>
  What subscribing, unsubscribing and handing a value to the subscriptions leave alone: every part
  of the state that does not look at clients, channels, subscriptions, their stores and lists.
\<close>

locale subscription_frame =
  fixes F :: "('v, 't) server \<Rightarrow> 'x"
  assumes clients [simp]: "F (s\<lparr>clients := x1\<rparr>) = F s"
    and channels [simp]: "F (s\<lparr>channels := x2\<rparr>) = F s"
    and sub_counter [simp]: "F (s\<lparr>counters := (counters s)\<lparr>c_sub_idx := x3\<rparr>\<rparr>) = F s"
    and lists [simp]: "F (s\<lparr>topic_sub_map := x4\<rparr>) = F s"
    and subscriptions [simp]: "F (s\<lparr>subscriptions := x5\<rparr>) = F s"
    and stores [simp]: "F (s\<lparr>sub_values := x6\<rparr>) = F s"
    and times [simp]: "F (s\<lparr>sub_send_timestamps := x7\<rparr>) = F s"
begin

sublocale client_insensitive "\<lambda>s. F s = x" for x
  by unfold_locales simp_all

lemma after_subscribe_topics: "F (snd (subscribe_topics E j ts ms vs s)) = F s"
proof (induction ts arbitrary: ms vs s)
  case (Cons p ts)
  then show ?case by (cases p) (auto simp: Let_def split: option.splits)
qed simp

lemma after_subscribe: "F (snd (subscribe E now sub ci s)) = F s"
proof (cases "map_of (clients s) ci")
  case (Some cl)
  let ?sub = "\<lparr>sn_subuid = sb_subuid sub, sn_topics = sb_topics sub, sn_options = sb_options sub\<rparr>"
  let ?I = "\<lambda>t. F t = F s"
  have "keeps ?I (on_counters next_sub_idx)"
    by (rule tripleI) (simp add: on_counters_def zoom_def next_sub_idx_def split: option.split)
  moreover have "keeps ?I (subscribe_topics E j ts [] [])" for j ts
    by (rule tripleI) (simp add: after_subscribe_topics)
  moreover have "keeps ?I (modify (store_subscription now j ?sub ci cl))" for j
    by (rule keeps_modify) (simp add: store_subscription_def)
  ultimately have "keeps ?I (try_bind (on_counters next_sub_idx) (\<lambda>j.
      try_bind (subscribe_topics E j (interested_topics ?sub s) [] []) (\<lambda>(ms, vs).
      try_bind (modify (store_subscription now j ?sub ci cl)) (\<lambda>_.
      try_bind (send_nt_messages E cl ms) (\<lambda>_. send_binary cl vs)))))"
    by (auto intro!: keeps_try_bind keeps_sends)
  from keepsD [OF this] show ?thesis by (simp add: subscribe_def Some Let_def)
qed (simp add: subscribe_def)

lemma after_unsubscribe: "F (snd (unsubscribe u ci s)) = F s"
  by (auto simp: unsubscribe_def forget_subscription_def split: option.splits prod.splits)

lemma after_push_values: "F (snd (push_values i v js s)) = F s"
  by (induction js arbitrary: s) (auto split: option.splits)

end

end
