(* ===== verification/Server_Metatopics.thy ===== *)
theory Server_Metatopics
  imports Registry_Properties Server_Frames
begin

text \<open>
  The values of the metatopics: every one is of the kind its topic stands for, so merging an entry
  into it never drops the entry, and what a client publishes is found in its own metatopic.
\<close>

section \<open>Kinds\<close>

text \<open>
  The kinds of value the code writes: \<open>$clients\<close> lists clients, \<open>$serverpub\<close> the publications of
  the server, and any topic after the first three those of a client.
\<close>

fun kind_of_metatopic :: "topic_idx \<Rightarrow> meta_topic_value \<Rightarrow> bool" where
  "kind_of_metatopic i (MClient _) = (i = CLIENT_METATOPIC)"
| "kind_of_metatopic i (MServerPublisher _) = (i = SERVER_PUB_METATOPIC)"
| "kind_of_metatopic i (MClientPublisher _) = (SERVER_PUB_METATOPIC < i)"
| "kind_of_metatopic i _ = False"

definition metatopics_typed :: "('v, 't) server \<Rightarrow> bool" where
  "metatopics_typed s \<longleftrightarrow>
    (\<forall>i v. map_of (metatopic_value_map s) i = Some v \<longrightarrow> kind_of_metatopic i v)"

text \<open>The metatopics of the server keep the first three indices, a client never gets one of them.\<close>

definition meta_inv :: "('v, 't) server \<Rightarrow> bool" where
  "meta_inv s \<longleftrightarrow> metatopics_typed s \<and>
    (\<forall>ci p q. map_of (client_metatopic_map s) ci = Some (p, q) \<longrightarrow> SERVER_PUB_METATOPIC < p) \<and>
    (\<forall>n i. map_of (topic_map s) n = Some i \<longrightarrow>
      SERVER_PUB_METATOPIC < i \<or> n \<in> {''$clients'', ''$serversub'', ''$serverpub''}) \<and>
    SERVER_PUB_METATOPIC < c_topic_idx (counters s)"

lemmas meta_defs = meta_inv_def metatopics_typed_def

text \<open>Forgetting entries does no harm.\<close>

definition shrinks :: "('v, 't) server \<Rightarrow> ('v, 't) server \<Rightarrow> bool" where
  "shrinks s t \<longleftrightarrow>
    map_of (metatopic_value_map t) \<subseteq>\<^sub>m map_of (metatopic_value_map s) \<and>
    map_of (client_metatopic_map t) \<subseteq>\<^sub>m map_of (client_metatopic_map s) \<and>
    map_of (topic_map t) \<subseteq>\<^sub>m map_of (topic_map s) \<and>
    c_topic_idx (counters s) \<le> c_topic_idx (counters t)"

lemma map_le_lookup: "f \<subseteq>\<^sub>m g \<Longrightarrow> f x = Some y \<Longrightarrow> g x = Some y"
  by (metis domI map_le_def)

lemma shrinks_meta_inv:
  assumes "meta_inv s" and "shrinks s t"
  shows "meta_inv t"
proof -
  from assms(2) have mv: "map_of (metatopic_value_map t) \<subseteq>\<^sub>m map_of (metatopic_value_map s)"
    and cm: "map_of (client_metatopic_map t) \<subseteq>\<^sub>m map_of (client_metatopic_map s)"
    and tm: "map_of (topic_map t) \<subseteq>\<^sub>m map_of (topic_map s)"
    and "c_topic_idx (counters s) \<le> c_topic_idx (counters t)"
    by (simp_all add: shrinks_def)
  with assms(1) show ?thesis
    using map_le_lookup [OF mv] map_le_lookup [OF cm] map_le_lookup [OF tm]
    unfolding meta_inv_def metatopics_typed_def by (fastforce intro: less_le_trans)
qed

lemma shrinks_trans: "shrinks s t \<Longrightarrow> shrinks t u \<Longrightarrow> shrinks s u"
  unfolding shrinks_def by (blast intro: map_le_trans order_trans)

lemma upd_None_le: "f(x := None) \<subseteq>\<^sub>m f"
  by (simp add: map_le_def)

lemma upd_None_mono: "f \<subseteq>\<^sub>m g \<Longrightarrow> f(x := None) \<subseteq>\<^sub>m g"
  by (auto simp: map_le_def)

lemma shrinks_same:
  "metatopic_value_map t = metatopic_value_map s \<Longrightarrow> client_metatopic_map t = client_metatopic_map s \<Longrightarrow>
    topic_map t = topic_map s \<Longrightarrow> c_topic_idx (counters t) = c_topic_idx (counters s) \<Longrightarrow> shrinks s t"
  by (simp add: shrinks_def)

lemma keeps_shrinks: "(\<And>s. shrinks s (snd (m s))) \<Longrightarrow> keeps meta_inv m"
  by (rule tripleI) (rule shrinks_meta_inv)

section \<open>What keeps them\<close>

lemma remove_topic_shrinks: "shrinks s (snd (remove_topic i s))"
  by (auto simp: remove_topic_def Let_def shrinks_def upd_None_le upd_None_mono split: option.splits)

lemma drop_publisher_shrinks: "shrinks s (snd (drop_publisher i s))"
proof -
  have "shrinks s (snd (remove_topic i (s\<lparr>pub_count := p\<rparr>)))" for p
    using remove_topic_shrinks [of "s\<lparr>pub_count := p\<rparr>" i] by (simp add: shrinks_def)
  then show ?thesis
    by (auto simp: drop_publisher_def Let_def shrinks_same split: option.splits)
qed

interpretation meta: client_insensitive meta_inv
  by unfold_locales (erule shrinks_meta_inv, simp add: shrinks_same)+

lemma next_topic_meta:
  assumes "meta_inv s" and "on_counters next_topic_idx s = (r, t)"
  shows "meta_inv t \<and> (\<forall>i. r = Ok i \<longrightarrow> SERVER_PUB_METATOPIC < i)"
proof -
  from assms(2) have "shrinks s t" "\<forall>i. r = Ok i \<longrightarrow> i = c_topic_idx (counters s)"
    by (auto simp: on_counters_def zoom_def next_topic_idx_def shrinks_def dest: checked_add_less
        split: option.splits)
  with assms(1) shrinks_meta_inv [OF assms(1)] show ?thesis by (auto simp: meta_inv_def)
qed

interpretation meta: registry_insensitive meta_inv
proof unfold_locales
  fix s :: "('v, 't) server" and r s'
  assume "meta_inv s" and "on_counters next_topic_idx s = (r, s')"
  then show "meta_inv s'" using next_topic_meta by blast
next
  fix s s' :: "('v, 't) server" and t :: "string topic" and i
  assume "meta_inv s" and "on_counters next_topic_idx s = (Ok i, s')"
  from next_topic_meta [OF this] show "meta_inv (register_topic i t s')"
    by (auto simp: meta_defs register_topic_def split: if_splits)
qed

text \<open>A metatopic of a client gets an index after those of the server.\<close>

lemma added_meta_after:
  assumes "meta_inv s" and "CHR ''$'' \<in> set (t_name t)"
    and "t_name t \<notin> {''$clients'', ''$serversub'', ''$serverpub''}" and "add_topic E t s = (Ok i, u)"
  shows "SERVER_PUB_METATOPIC < i"
  using add_meta_run [OF assms(2,4)]
proof
  assume "registers s i t u"
  then have "i = c_topic_idx (counters s)" by (auto simp: registers_def)
  with assms(1) show ?thesis by (simp add: meta_inv_def)
qed (use assms(1,3) in \<open>auto simp: meta_inv_def\<close>)

lemma kind_merge [simp]: "kind_of_metatopic i (merge v w) = kind_of_metatopic i v"
  by (cases v; cases w) simp_all

lemma kind_reduce [simp]: "kind_of_metatopic i (reduce v w) = kind_of_metatopic i v"
  by (cases v; cases w) simp_all

lemma typed_entry:
  assumes "metatopics_typed s" and "kind_of_metatopic i v"
  shows "kind_of_metatopic i (unwrap_or v (map_of (metatopic_value_map s) i))"
  using assms by (cases "map_of (metatopic_value_map s) i") (auto simp: metatopics_typed_def)

lemma meta_inv_entry:
  assumes "meta_inv s" and "kind_of_metatopic i v"
  shows "meta_inv (s\<lparr>metatopic_value_map := entry_merge i v w (metatopic_value_map s)\<rparr>)"
    "meta_inv (s\<lparr>metatopic_value_map := entry_reduce i v w (metatopic_value_map s)\<rparr>)"
  using assms typed_entry [OF _ assms(2), of s]
  by (auto simp: meta_defs entry_merge_def entry_reduce_def)

lemma keeps_record: "keeps meta_inv (record_publisher ci m)"
proof (rule tripleI)
  fix s :: "('v, 't) server"
  assume s: "meta_inv s"
  then have "SERVER_PUB_METATOPIC < p" if "map_of (client_metatopic_map s) ci = Some (p, q)" for p q
    using that by (auto simp: meta_inv_def)
  then show "meta_inv (snd (record_publisher ci m s))"
    using s by (auto simp: record_publisher_def intro!: meta_inv_entry split: option.splits)
qed

lemma keeps_erase: "keeps meta_inv (erase_publisher ci m)"
proof (rule tripleI)
  fix s :: "('v, 't) server"
  assume s: "meta_inv s"
  then have "SERVER_PUB_METATOPIC < p" if "map_of (client_metatopic_map s) ci = Some (p, q)" for p q
    using that by (auto simp: meta_inv_def)
  then show "meta_inv (snd (erase_publisher ci m s))"
    using s by (auto simp: erase_publisher_def intro!: meta_inv_entry split: option.splits)
qed

text \<open>The parts of the state the invariant is about, and the requests that leave them alone.\<close>

definition meta_fields ::
    "('v, 't) server \<Rightarrow> (topic_idx, meta_topic_value) hmap \<times> (client_idx, topic_idx \<times> topic_idx) hmap \<times>
      (string, topic_idx) hmap \<times> topic_idx"
where
  "meta_fields s =
    (metatopic_value_map s, client_metatopic_map s, topic_map s, c_topic_idx (counters s))"

lemma meta_fields_inv: "meta_fields t = meta_fields s \<Longrightarrow> meta_inv s \<Longrightarrow> meta_inv t"
  by (simp add: meta_inv_def metatopics_typed_def meta_fields_def)

interpretation meta_fields: subscription_frame meta_fields
  by unfold_locales (simp_all add: meta_fields_def)

lemma set_value_meta:
  fixes s :: "('v, 't) server"
  shows "meta_fields (snd (set_value v i s)) = meta_fields s"
proof -
  have "meta_fields (store_value i v t) = meta_fields t" for t :: "('v, 't) server"
    by (auto simp: store_value_def meta_fields_def split: option.splits)
  then have "keeps (\<lambda>t :: ('v, 't) server. meta_fields t = meta_fields s)
      (try_bind (push_values i v subs) (\<lambda>_. modify (store_value i v)))" for subs
    by (intro keeps_intros tripleI) (simp_all add: meta_fields.after_push_values)
  from keepsD [OF this] show ?thesis by (auto simp: set_value_def split: option.splits)
qed

lemma set_properties_meta: "meta_fields (snd (set_properties q s)) = meta_fields s"
  by (auto simp: set_properties_def meta_fields_def split: option.splits)

section \<open>Publishing and leaving\<close>

lemma keeps_bind: "keeps meta_inv (bind_pubuid ci u i)"
  by (rule tripleI) (auto simp: bind_pubuid_def meta.upd_client split: option.splits)

lemma keeps_meta_publish: "keeps meta_inv (inner_publish_topic E p ci)"
  unfolding inner_publish_topic_def Let_def
  by (intro keeps_intros meta.keeps_adding_topic meta.keeps_announce_topic keeps_bind keeps_record)

lemma release_publisher_shrinks: "shrinks s (snd (release_publisher i s))"
proof -
  have "shrinks s (snd (try_bind (remove_topic i)
      (\<lambda>_. modify (\<lambda>s. s\<lparr>pub_count := hm_remove i (pub_count s)\<rparr>)) (s\<lparr>pub_count := p\<rparr>)))" for p
    using remove_topic_shrinks [of "s\<lparr>pub_count := p\<rparr>" i]
    by (auto simp: try_bind_def act_simps shrinks_def split: prod.splits outcome.splits)
  then show ?thesis
    by (auto simp: release_publisher_def Let_def shrinks_same split: option.splits)
qed

lemma keeps_unbind: "keeps meta_inv (unbind_pubuid ci u)"
  by (rule tripleI) (auto simp: unbind_pubuid_def meta.upd_client split: option.splits prod.splits)

lemma keeps_meta_unpublish: "keeps meta_inv (inner_unpublish_topic p ci)"
  unfolding inner_unpublish_topic_def
  by (intro keeps_intros keeps_unbind keeps_erase keeps_shrinks [OF release_publisher_shrinks])

lemma keeps_forget_client: "keeps meta_inv (forget_client idx :: ('v, 't, unit) server_act)"
proof (rule tripleI)
  fix s :: "('v, 't) server"
  assume s: "meta_inv s"
  let ?s3 = "s\<lparr>client_metatopic_map := hm_remove idx (client_metatopic_map s)\<rparr>"
  have "keeps meta_inv (try_bind (remove_topic p) (\<lambda>_. remove_topic q :: ('v, 't, unit) server_act))" for p q
    by (intro keeps_intros keeps_shrinks [OF remove_topic_shrinks])
  moreover have "meta_inv ?s3"
    by (rule shrinks_meta_inv [OF s]) (simp add: shrinks_def upd_None_le)
  ultimately show "meta_inv (snd (forget_client idx s))"
    by (auto simp: forget_client_def Let_def keepsD split: option.split)
qed

lemma keeps_meta_disconnect: "keeps meta_inv (disconnect_client ident :: ('v, 't, unit) server_act)"
proof (rule tripleI)
  fix s :: "('v, 't) server"
  assume s: "meta_inv s"
  have "keeps meta_inv (try_bind (for_each drop_publisher is) (\<lambda>_. forget_client idx :: ('v, 't, unit) server_act))"
    for "is" idx
    by (intro keeps_intros keeps_forget_client keeps_shrinks [OF drop_publisher_shrinks])
  moreover have "meta_inv (drop_client idx cl (s\<lparr>client_map := hm_remove ident (client_map s)\<rparr>))"
    "meta_inv (s\<lparr>client_map := hm_remove ident (client_map s)\<rparr>)" for idx cl
    by (rule shrinks_meta_inv [OF s], simp add: shrinks_same drop_client_def split: option.split)+
  ultimately show "meta_inv (snd (disconnect_client ident s))"
    using s by (auto simp: disconnect_client_def Let_def keepsD forget_client_def [abs_def] split: option.split)
qed

section \<open>Connecting\<close>

lemma added_meta_triple:
  fixes E :: "('v, 't, 'm, string) ext"
  assumes "CHR ''$'' \<in> set (t_name t)" and "t_name t \<notin> {''$clients'', ''$serversub'', ''$serverpub''}"
  shows "triple meta_inv (add_topic E t)
    (\<lambda>r s. meta_inv s \<and> (\<forall>p. r = Ok p \<longrightarrow> SERVER_PUB_METATOPIC < p))"
proof (rule tripleI)
  fix s :: "('v, 't) server"
  assume s: "meta_inv s"
  have "SERVER_PUB_METATOPIC < p" if "fst (add_topic E t s) = Ok p" for p
    using added_meta_after [OF s assms, of E p "snd (add_topic E t s)"] that by (metis prod.collapse)
  with keepsD [OF meta.keeps_adding_topic s]
  show "meta_inv (snd (add_topic E t s)) \<and> (\<forall>p. fst (add_topic E t s) = Ok p \<longrightarrow> SERVER_PUB_METATOPIC < p)"
    by blast
qed

lemma keeps_meta_connect:
  fixes E :: "('v, 't, 'm, string) ext"
  shows "keeps meta_inv (connect_client E ident)"
proof (rule tripleI)
  fix s :: "('v, 't) server"
  assume s: "meta_inv s"
  let ?s0 = "s\<lparr>callbacks := callbacks s @ [OnClientConnect]\<rparr>"
  let ?id = "dedup_identity ident ?s0"
  have s0: "meta_inv ?s0" by (rule shrinks_meta_inv [OF s]) (simp add: shrinks_same)
  have idx: "keeps meta_inv (on_counters next_client_idx :: ('v, 't, client_idx) server_act)"
    by (rule keeps_shrinks)
      (simp add: on_counters_def zoom_def next_client_idx_def shrinks_same split: option.split)
  have admit: "keeps meta_inv (modify (admit_client ?id ci) :: ('v, 't, unit) server_act)" for ci
  proof (rule keeps_modify)
    fix t :: "('v, 't) server"
    assume t: "meta_inv t"
    have "meta_inv (t\<lparr>metatopic_value_map :=
        entry_merge CLIENT_METATOPIC (MClient []) (MClient [to_mte ?id]) (metatopic_value_map t)\<rparr>)"
      by (rule meta_inv_entry [OF t]) simp
    then show "meta_inv (admit_client ?id ci t)"
      by (rule meta_fields_inv [rotated]) (simp add: admit_client_def Let_def meta_fields_def)
  qed
  have store: "triple (\<lambda>u. meta_inv u \<and> SERVER_PUB_METATOPIC < p)
      (modify (\<lambda>s. s\<lparr>client_metatopic_map := hm_insert ci (p, q) (client_metatopic_map s)\<rparr>)) (\<lambda>_. meta_inv)"
    for ci p q
    by (rule tripleI) (auto simp: act_simps meta_inv_def metatopics_typed_def)
  have sub: "triple (\<lambda>u. meta_inv u \<and> SERVER_PUB_METATOPIC < p)
      (add_topic E (new_meta (''$clientsub$'' @ ci_name ?id))) (\<lambda>_ u. meta_inv u \<and> SERVER_PUB_METATOPIC < p)" for p
    by (rule tripleI) (simp add: keepsD [OF meta.keeps_adding_topic])
  let ?finish = "\<lambda>ci p q. try_bind
      (modify (\<lambda>s. s\<lparr>client_metatopic_map := hm_insert ci (p, q) (client_metatopic_map s)\<rparr>))
      (\<lambda>_. ret (next_ref ?s0, next_ref ?s0, ci, ?id))"
  let ?sub = "add_topic E (new_meta (''$clientsub$'' @ ci_name ?id))"
  let ?pub = "add_topic E (new_meta (''$clientpub$'' @ ci_name ?id))"
  let ?I = "\<lambda>p u. meta_inv u \<and> SERVER_PUB_METATOPIC < p"
  have last: "triple (?I p) (?finish ci p q) (\<lambda>_. meta_inv)" for ci p q
    by (rule triple_try_bind [where R = "\<lambda>_. meta_inv", OF triple_conseq [OF store]])
      (auto split: outcome.splits intro: keeps_basic)
  have rest: "triple (?I p) (try_bind ?sub (?finish ci p)) (\<lambda>_. meta_inv)" for ci p
  proof (rule triple_try_bind)
    show "triple (?I p) ?sub (\<lambda>r u. case r of Ok _ \<Rightarrow> ?I p u | Err _ \<Rightarrow> meta_inv u | Panic _ \<Rightarrow> meta_inv u)"
      by (rule triple_conseq [OF sub]) (auto split: outcome.splits)
  qed (rule last)
  have "keeps meta_inv (try_bind ?pub (\<lambda>p. try_bind ?sub (?finish ci p)))" for ci
  proof (rule triple_try_bind)
    show "triple meta_inv ?pub (\<lambda>r u. case r of Ok p \<Rightarrow> ?I p u | Err _ \<Rightarrow> meta_inv u | Panic _ \<Rightarrow> meta_inv u)"
      by (rule triple_conseq [OF added_meta_triple]) (auto split: outcome.splits)
  qed (rule rest)
  then have "keeps meta_inv (try_bind (on_counters next_client_idx) (\<lambda>ci.
      try_bind (modify (admit_client ?id ci)) (\<lambda>_. try_bind ?pub (\<lambda>p. try_bind ?sub (?finish ci p)))))"
    by (intro keeps_try_bind [OF idx] keeps_try_bind [OF admit])
  from keepsD [OF this s0] s show "meta_inv (snd (connect_client E ident s))"
    by (simp add: connect_client_def Let_def)
qed

section \<open>Every run\<close>

lemma meta_inv_frames [simp]:
  "meta_inv (s\<lparr>sub_send_timestamps := a\<rparr>) = meta_inv s"
  "meta_inv (s\<lparr>sub_values := b\<rparr>) = meta_inv s"
  "meta_inv (s\<lparr>kill_cells := c\<rparr>) = meta_inv s"
  by (simp_all add: meta_inv_def metatopics_typed_def)

lemma try_new_meta: "meta_inv (snd (try_new E addr))"
  unfolding meta_inv_def metatopics_typed_def
  by (simp add: new_server SERVER_PUB_METATOPIC_def CLIENT_METATOPIC_def)

interpretation meta_runs: server_invariant "\<lambda>s. server_inv s \<and> meta_inv s" E for E
proof unfold_locales
  fix s :: "('v, 't) server" and tm sn cl
  assume s: "server_inv s \<and> meta_inv s" and r: "reordered (topic_map s) tm" "reordered (subscriptions s) sn"
    "reordered (clients s) cl"
  then have "map_of tm = map_of (topic_map s)" by (simp add: reordered_lookup inv_defs)
  with s server_inv_reordered [OF _ r]
  show "server_inv (s\<lparr>topic_map := tm, clients := cl, subscriptions := sn\<rparr>) \<and>
      meta_inv (s\<lparr>topic_map := tm, clients := cl, subscriptions := sn\<rparr>)"
    by (auto intro: shrinks_meta_inv simp: shrinks_def)
qed (simp_all add: inv.upd_client inv.upd_channels inv.on_publish inv.on_unpublish inv.on_set_properties
    inv.on_subscribe inv.on_unsubscribe inv.on_disconnect inv.on_set_value inv.on_sent inv.on_taken
    keepsD [OF keeps_connect_client] frame_simps meta.upd_client meta.upd_channels
    keepsD [OF keeps_meta_publish] keepsD [OF keeps_meta_unpublish] keepsD [OF keeps_meta_disconnect]
    keepsD [OF keeps_meta_connect] meta_fields_inv [OF meta_fields.after_subscribe] meta_fields_inv [OF set_value_meta]
    meta_fields_inv [OF meta_fields.after_unsubscribe] meta_fields_inv [OF set_properties_meta]
    shrinks_meta_inv [OF _ shrinks_same])

lemma reachable_meta: "server_reachable E addr s \<Longrightarrow> meta_inv s"
  using meta_runs.in_every_run try_new_inv try_new_meta by blast

section \<open>What is recorded\<close>

text \<open>The metatopic of the publications of a client, and the entries of such a metatopic.\<close>

definition own_metatopic :: "('v, 't) server \<Rightarrow> client_idx \<Rightarrow> topic_idx option" where
  "own_metatopic s ci =
    (if ci = SERVER_CLIENT_IDX then Some SERVER_PUB_METATOPIC
     else map_option fst (map_of (client_metatopic_map s) ci))"

fun publications :: "meta_topic_value option \<Rightarrow> client_publisher_mte list" where
  "publications (Some (MServerPublisher es)) = es"
| "publications (Some (MClientPublisher es)) = es"
| "publications _ = []"

interpretation meta_maps: registry_insensitive
    "\<lambda>s. metatopic_value_map s = x \<and> client_metatopic_map s = y" for x y
  by unfold_locales
    (auto simp: register_topic_def on_counters_def zoom_def next_topic_idx_def split: option.splits)

lemma record_publisher_entry:
  assumes "meta_inv s" and "record_publisher ci m s = (Ok (), u)"
  shows "\<exists>i. own_metatopic s ci = Some i \<and>
    publications (map_of (metatopic_value_map u) i) = publications (map_of (metatopic_value_map s) i) @ [m]"
proof (cases "ci = SERVER_CLIENT_IDX")
  case True
  have "kind_of_metatopic SERVER_PUB_METATOPIC
      (unwrap_or (MServerPublisher []) (map_of (metatopic_value_map s) SERVER_PUB_METATOPIC))"
    using assms(1) by (intro typed_entry) (simp_all add: meta_inv_def)
  then show ?thesis
    using assms(2) True
    by (cases "map_of (metatopic_value_map s) SERVER_PUB_METATOPIC"; cases "unwrap_or (MServerPublisher []) (map_of (metatopic_value_map s) SERVER_PUB_METATOPIC)")
      (auto simp: record_publisher_def own_metatopic_def entry_merge_def CLIENT_METATOPIC_def SERVER_PUB_METATOPIC_def)
next
  case False
  with assms(2) obtain i q where i: "map_of (client_metatopic_map s) ci = Some (i, q)"
    by (auto simp: record_publisher_def split: option.splits)
  with assms(1) have after: "SERVER_PUB_METATOPIC < i" by (auto simp: meta_inv_def)
  have "kind_of_metatopic i (unwrap_or (MClientPublisher []) (map_of (metatopic_value_map s) i))"
    using assms(1) after by (intro typed_entry) (simp_all add: meta_inv_def)
  then show ?thesis
    using assms(2) False i after
    by (cases "map_of (metatopic_value_map s) i"; cases "unwrap_or (MClientPublisher []) (map_of (metatopic_value_map s) i)")
      (auto simp: record_publisher_def own_metatopic_def entry_merge_def CLIENT_METATOPIC_def)
qed

section \<open>Properties\<close>

text \<open>
  C14. Every metatopic the server can reach holds a value of its own kind, and what a client
  publishes is added at the end of the value of the client's own metatopic: merging never meets a
  value of another kind, which would drop the entry without an error.
\<close>
theorem metatopics_keep_kinds:
  assumes "server_reachable E addr s" and "inner_publish_topic E p ci s = (Ok k, u)"
  shows "metatopics_typed s \<and> metatopics_typed u \<and>
    (\<exists>i. own_metatopic s ci = Some i \<and>
      publications (map_of (metatopic_value_map u) i) =
        publications (map_of (metatopic_value_map s) i) @ [\<lparr>cp_topic = pt_name p, cp_uid = pt_pubuid p\<rparr>])"
proof -
  note s = reachable_meta [OF assms(1)]
  from keepsD [OF keeps_meta_publish s, of E p ci] assms(2) have "meta_inv u" by simp
  moreover from assms(2) obtain s1 s2 s3 where
    add: "add_topic E (from_publish_topic p) s = (Ok k, s1)" and
    ann: "announce_topic E k (Some (pt_pubuid p, ci)) s1 = (Ok (), s2)" and
    bind: "bind_pubuid ci (pt_pubuid p) k s2 = (Ok (), s3)" and
    rec: "record_publisher ci \<lparr>cp_topic = pt_name p, cp_uid = pt_pubuid p\<rparr> s3 = (Ok (), u)"
    by (auto simp: inner_publish_topic_def Let_def try_bind_eq_Ok act_simps)
  moreover have "metatopic_value_map s3 = metatopic_value_map s" "own_metatopic s3 ci = own_metatopic s ci"
    unfolding own_metatopic_def
    using keepsD [OF meta_maps.keeps_adding_topic, of s _ _ E "from_publish_topic p"]
      keepsD [OF meta_maps.keeps_announce_topic, of s1 _ _ E k "Some (pt_pubuid p, ci)"]
      add ann bind_pubuid_Ok [OF bind] by auto
  moreover have "meta_inv s3"
    using keepsD [OF meta.keeps_adding_topic s, of E "from_publish_topic p"] add ann bind
      keepsD [OF meta.keeps_announce_topic, of s1 E k "Some (pt_pubuid p, ci)"]
      keepsD [OF keeps_bind, of s2 ci "pt_pubuid p" k] by simp
  moreover have "metatopics_typed t" if "meta_inv t" for t :: "('a, 'b) server"
    using that by (simp add: meta_inv_def)
  ultimately show ?thesis using record_publisher_entry [OF _ rec] s by simp
qed

lemma metatopics_keep_kinds_witness:
  "\<exists>u. inner_publish_topic sample (pub_speed 22) 2 srv4 = (Ok 7, u) \<and> metatopics_typed u \<and>
    publications (map_of (metatopic_value_map u) 5) = [\<lparr>cp_topic = ''speed'', cp_uid = 22\<rparr>]"
proof -
  define u where "u = snd (inner_publish_topic sample (pub_speed 22) 2 srv4)"
  have "fst (inner_publish_topic sample (pub_speed 22) 2 srv4) = Ok 7"
    by (simp add: srv4_eq run_simps)
  then have run: "inner_publish_topic sample (pub_speed 22) 2 srv4 = (Ok 7, u)"
    unfolding u_def by (metis prod.collapse)
  have "own_metatopic srv4 2 = Some 5" "map_of (metatopic_value_map srv4) 5 = None"
    by (simp_all add: own_metatopic_def srv4_eq SERVER_CLIENT_IDX_def)
  with metatopics_keep_kinds [OF srv4_reachable run] run show ?thesis
    by (auto simp: pub_speed_def)
qed

end
