(* ===== verification/Server_Board.thy ===== *)
theory Server_Board
  imports Server_Metatopics Value_Properties
begin

text \<open>
  The server as its users see it: a board with a value for each name, or none yet. Every step of the
  server is a sequence of steps of the board, which opens names, closes them and keeps the newest
  value of each. What a predicate needs so that all requests keep it, when it looks at the registry
  and the values only, is stated once, as a locale.
\<close>

section \<open>Predicates on names and values\<close>

text \<open>The part of the state with the names and the values.\<close>

definition registry_of ::
    "('v, 't) server \<Rightarrow> (string \<Rightarrow> topic_idx option) \<times> (topic_idx \<Rightarrow> 'v timestamped_value option) \<times>
      (topic_idx \<Rightarrow> string option) \<times> topic_idx"
where
  "registry_of s =
    (map_of (topic_map s), map_of (topic_value_map s), \<lambda>i. map_option t_name (map_of (topics s) i),
     c_topic_idx (counters s))"

lemma registry_frames [simp]:
  "registry_of (s\<lparr>clients := x1\<rparr>) = registry_of s"
  "registry_of (s\<lparr>channels := x2\<rparr>) = registry_of s"
  "registry_of (s\<lparr>kill_cells := x3\<rparr>) = registry_of s"
  "registry_of (s\<lparr>callbacks := x4\<rparr>) = registry_of s"
  "registry_of (s\<lparr>client_map := x5\<rparr>) = registry_of s"
  "registry_of (s\<lparr>client_metatopic_map := x6\<rparr>) = registry_of s"
  "registry_of (s\<lparr>metatopic_value_map := x7\<rparr>) = registry_of s"
  "registry_of (s\<lparr>pub_count := x8\<rparr>) = registry_of s"
  "registry_of (s\<lparr>sub_values := x9\<rparr>) = registry_of s"
  "registry_of (s\<lparr>sub_send_timestamps := x10\<rparr>) = registry_of s"
  by (simp_all add: registry_of_def)

interpretation registry: subscription_frame registry_of
  by unfold_locales (simp_all add: registry_of_def)

lemma set_properties_registry: "registry_of (snd (set_properties q s)) = registry_of s"
  by (auto simp: set_properties_def registry_of_def fun_eq_iff split: option.splits)

text \<open>
  What is left to show of a predicate of the registry: registering a name, removing a topic and
  storing a value keep it.
\<close>

locale registry_view =
  fixes Q :: "('v, 't) server \<Rightarrow> bool"
  assumes same_registry: "Q s \<Longrightarrow> registry_of u = registry_of s \<Longrightarrow> Q u"
    and on_next_topic: "server_inv s \<Longrightarrow> Q s \<Longrightarrow> on_counters next_topic_idx s = (r, s') \<Longrightarrow> Q s'"
    and on_register: "server_inv s \<Longrightarrow> Q s \<Longrightarrow> map_of (topic_map s) (t_name t) = None \<Longrightarrow>
      on_counters next_topic_idx s = (Ok i, s') \<Longrightarrow> Q (register_topic i t s')"
    and on_remove: "server_inv s \<Longrightarrow> Q s \<Longrightarrow> Q (snd (remove_topic i s))"
    and on_store: "server_inv s \<Longrightarrow> Q s \<Longrightarrow> map_of (topics s) i = Some t \<Longrightarrow> CHR ''$'' \<notin> set (t_name t) \<Longrightarrow>
      registry_of u = registry_of s \<Longrightarrow> Q (store_value i v u)"
begin

definition J :: "('v, 't) server \<Rightarrow> bool" where
  "J s \<longleftrightarrow> server_inv s \<and> Q s"

lemma J_same: "J s \<Longrightarrow> server_inv t \<Longrightarrow> registry_of t = registry_of s \<Longrightarrow> J t"
  using same_registry by (auto simp: J_def)

lemma J_frame: "keeps server_inv m \<Longrightarrow> (\<And>s. registry_of (snd (m s)) = registry_of s) \<Longrightarrow> keeps J m"
  by (rule tripleI) (auto simp: J_def keepsD intro: same_registry)

sublocale J: registry_insensitive J
proof unfold_locales
  fix s s' :: "('v, 't) server" and r
  assume "J s" "on_counters next_topic_idx s = (r, s')"
  then show "J s'" using inv.next_topic on_next_topic by (auto simp: J_def)
next
  fix s s' :: "('v, 't) server" and t :: "string topic" and i
  assume "J s" "map_of (topic_map s) (t_name t) = None" "on_counters next_topic_idx s = (Ok i, s')"
  then show "J (register_topic i t s')" using inv.register on_register by (auto simp: J_def)
qed (auto simp: J_def frame_simps intro: same_registry)

lemma keeps_remove: "keeps J (remove_topic i)"
  by (rule tripleI) (auto simp: J_def remove_topic_inv on_remove)

lemma keeps_release: "keeps J (release_publisher i)"
proof (rule tripleI)
  fix s
  assume s: "J s"
  have "keeps J (try_bind (remove_topic i) (\<lambda>_. modify (\<lambda>s. s\<lparr>pub_count := hm_remove i (pub_count s)\<rparr>)))"
    by (intro keeps_intros keeps_remove) (rule J_same, assumption, simp_all add: J_def frame_simps)
  moreover have "J (s\<lparr>pub_count := hm_insert i n (pub_count s)\<rparr>)" if "map_of (pub_count s) i = Some m" for m n
    using s that by (auto simp: J_def frame_simps intro: same_registry)
  ultimately show "J (snd (release_publisher i s))"
    using s by (auto simp: release_publisher_def Let_def keepsD split: option.split)
qed

lemma keeps_drop: "keeps J (drop_publisher i)"
proof (rule tripleI)
  fix s
  assume s: "J s"
  have "J (s\<lparr>pub_count := hm_insert i n (pub_count s)\<rparr>)" if "map_of (pub_count s) i = Some m" for m n
    using s that by (auto simp: J_def frame_simps intro: same_registry)
  then show "J (snd (drop_publisher i s))"
    using s by (auto simp: drop_publisher_def Let_def keepsD [OF keeps_remove] split: option.split)
qed

lemma keeps_publish: "keeps J (inner_publish_topic E p ci)"
proof -
  have "keeps J (bind_pubuid ci u k)" for u k
    by (rule J_frame) (auto simp: triple_def bind_pubuid_def frame_simps split: option.splits)
  moreover have "keeps J (record_publisher ci m)" for m
    by (rule J_frame) (auto simp: triple_def record_publisher_def frame_simps split: option.splits)
  ultimately show ?thesis
    unfolding inner_publish_topic_def Let_def
    by (intro keeps_intros J.keeps_adding_topic J.keeps_announce_topic)
qed

lemma keeps_unpublish: "keeps J (inner_unpublish_topic p ci)"
proof -
  have "keeps J (unbind_pubuid ci u)" for u
    by (rule J_frame) (auto simp: triple_def unbind_pubuid_def frame_simps split: option.splits prod.splits)
  moreover have "keeps J (erase_publisher ci m)" for m
    by (rule J_frame) (auto simp: triple_def erase_publisher_def frame_simps split: option.splits)
  ultimately show ?thesis
    unfolding inner_unpublish_topic_def by (intro keeps_intros keeps_release)
qed

lemma keeps_disconnect: "keeps J (disconnect_client ident)"
proof (rule tripleI)
  fix s
  assume s: "J s"
  have "keeps J (forget_client idx)" for idx
  proof (rule tripleI)
    fix u
    assume "J u"
    then have "J (u\<lparr>client_metatopic_map := hm_remove idx (client_metatopic_map u)\<rparr>)"
      by (auto simp: J_def frame_simps intro: same_registry)
    moreover have "keeps J (try_bind (remove_topic p) (\<lambda>_. remove_topic q))" for p q
      by (intro keeps_intros keeps_remove)
    ultimately show "J (snd (forget_client idx u))"
      by (auto simp: forget_client_def Let_def keepsD split: option.split)
  qed
  then have "keeps J (try_bind (for_each drop_publisher ks) (\<lambda>_. forget_client idx))" for ks idx
    by (intro keeps_intros keeps_drop)
  moreover have s1: "J (s\<lparr>client_map := hm_remove ident (client_map s)\<rparr>)"
    using s by (auto simp: J_def frame_simps intro: same_registry)
  moreover have "J (drop_client idx cl (s\<lparr>client_map := hm_remove ident (client_map s)\<rparr>))" for idx cl
    by (rule J_same [OF s1]) (use s1 in \<open>simp_all add: J_def drop_client_inv\<close>, simp add: drop_client_def registry_of_def)
  ultimately show "J (snd (disconnect_client ident s))"
    using s by (auto simp: disconnect_client_def Let_def keepsD forget_client_def [abs_def] split: option.split)
qed

lemma keeps_connect: "keeps J (connect_client E ident)"
proof (rule tripleI)
  fix s
  assume s: "J s"
  have idx: "keeps J (on_counters next_client_idx)"
    by (rule J_frame [OF keeps_next_client_idx])
      (simp add: on_counters_def zoom_def next_client_idx_def registry_of_def split: option.split)
  have admit: "J u \<Longrightarrow> J (admit_client i ci u)" for i ci u
    by (rule J_same, assumption) (simp_all only: J_def admit_client_inv,
        simp add: admit_client_def Let_def registry_of_def)
  have store: "J u \<Longrightarrow> J (u\<lparr>client_metatopic_map := hm_insert ci p (client_metatopic_map u)\<rparr>)" for ci p u
    by (auto simp: J_def frame_simps intro: same_registry)
  show "J (snd (connect_client E ident s))"
  proof (cases "is_client_connected ident s")
    case False
    have "J (s\<lparr>callbacks := callbacks s @ [OnClientConnect]\<rparr>)"
      using s by (auto simp: J_def frame_simps intro: same_registry)
    then show ?thesis
      unfolding connect_client_def if_not_P [OF False] Let_def
      by (rule keepsD [rotated]) (intro keeps_intros idx admit store J.keeps_adding_topic)
  qed (simp add: connect_client_def s)
qed

lemma keeps_others:
  "keeps J (set_properties q)" "keeps J (subscribe E now sub ci)" "keeps J (unsubscribe unsub ci)"
  by (rule J_frame, rule tripleI, erule inv.on_set_properties inv.on_subscribe inv.on_unsubscribe,
      rule set_properties_registry registry.after_subscribe registry.after_unsubscribe)+

lemma on_value:
  assumes "J s"
  shows "J (snd (set_value v i s))"
proof -
  have "server_inv (snd (set_value v i s))" by (rule inv.on_set_value) (use assms in \<open>simp add: J_def\<close>)
  moreover have "Q (snd (set_value v i s))"
  proof (cases "map_of (topics s) i")
    case (Some t)
    have "Q (snd (try_bind (push_values i v js) (\<lambda>_. modify (store_value i v)) s))"
      if "CHR ''$'' \<notin> set (t_name t)" for js
    proof -
      obtain r u where u: "push_values i v js s = (r, u)" by fastforce
      then have same: "registry_of u = registry_of s" using registry.after_push_values by (metis snd_conv)
      then show ?thesis
        using u assms on_store [OF _ _ Some that same, of v] same_registry [of s u]
        by (cases r) (auto simp: J_def try_bind_def act_simps)
    qed
    with assms Some show ?thesis by (auto simp: set_value_def J_def split: option.splits)
  qed (use assms in \<open>simp add: set_value_def J_def\<close>)
  ultimately show ?thesis by (simp add: J_def)
qed

sublocale runs: server_invariant J E for E
proof unfold_locales
  fix s tm sn cl
  assume s: "J s" and r: "reordered (topic_map s) tm" "reordered (subscriptions s) sn" "reordered (clients s) cl"
  then have "map_of tm = map_of (topic_map s)" by (simp add: reordered_lookup inv_defs J_def)
  then show "J (s\<lparr>topic_map := tm, clients := cl, subscriptions := sn\<rparr>)"
    by (intro J_same [OF s]) (use s server_inv_reordered [OF _ r] in \<open>simp_all add: J_def registry_of_def\<close>)
next
  fix s j old clk
  assume s: "J s" and "map_of (sub_send_timestamps s) j = Some old"
  then show "J (s\<lparr>sub_send_timestamps := hm_insert j clk (sub_send_timestamps s)\<rparr>)"
    by (intro J_same [OF s]) (auto simp: J_def inv.on_sent)
next
  fix s j st
  assume s: "J s" and "map_of (sub_values s) j = Some st"
  then show "J (s\<lparr>sub_values := hm_insert j (snd (take_values st)) (sub_values s)\<rparr>)"
    by (intro J_same [OF s]) (auto simp: J_def inv.on_taken)
next
  fix s kc
  assume s: "J s"
  then show "J (s\<lparr>kill_cells := kc\<rparr>)" by (intro J_same [OF s]) (simp_all add: J_def frame_simps)
qed (erule keepsD [OF keeps_publish] keepsD [OF keeps_unpublish] keepsD [OF keeps_disconnect]
    keepsD [OF keeps_connect] on_value keepsD [OF keeps_others(1)] keepsD [OF keeps_others(2)]
    keepsD [OF keeps_others(3)])+

end

section \<open>The board\<close>

type_synonym 'v board = "string \<Rightarrow> 'v timestamped_value option option"

text \<open>
  A name is opened, without a value; any names are closed; a name that is open and no metatopic
  takes a value, and keeps the newest.
\<close>

inductive board_step :: "'v board \<Rightarrow> 'v board \<Rightarrow> bool" where
  opens: "b n = None \<Longrightarrow> board_step b (b(n \<mapsto> None))"
| closes: "board_step b (b |` N)"
| takes: "b n = Some old \<Longrightarrow> CHR ''$'' \<notin> set n \<Longrightarrow> board_step b (b(n \<mapsto> Some (newest old v)))"

abbreviation board_run :: "'v board \<Rightarrow> 'v board \<Rightarrow> bool" where
  "board_run \<equiv> board_step\<^sup>*\<^sup>*"


text \<open>What a state of the server shows of itself.\<close>

definition board :: "('v, 't) server \<Rightarrow> 'v board" where
  "board s n = map_option (map_of (topic_value_map s)) (map_of (topic_map s) n)"

definition values_listed :: "('v, 't) server \<Rightarrow> bool" where
  "values_listed s \<longleftrightarrow> (\<forall>i v. map_of (topic_value_map s) i = Some v \<longrightarrow> i < c_topic_idx (counters s))"

definition board_view :: "'v board \<Rightarrow> ('v, 't) server \<Rightarrow> bool" where
  "board_view b s \<longleftrightarrow> values_listed s \<and> board_run b (board s)"

lemma board_view_step:
  "board_view b s \<Longrightarrow> values_listed t \<Longrightarrow> board_step (board s) (board t) \<Longrightarrow> board_view b t"
  by (auto simp: board_view_def)

lemma board_same: "registry_of t = registry_of s \<Longrightarrow> board t = board s \<and> values_listed t = values_listed s"
  by (simp add: registry_of_def board_def [abs_def] values_listed_def)

lemma board_registered:
  assumes "values_listed s" and "map_of (topic_map s) (t_name t) = None"
    and "on_counters next_topic_idx s = (Ok i, s')"
  shows "values_listed (register_topic i t s')" "board (register_topic i t s') = (board s)(t_name t \<mapsto> None)"
proof -
  obtain k where k: "checked_add (c_topic_idx (counters s)) 1 = Some k" "i = c_topic_idx (counters s)"
      "s' = s\<lparr>counters := (counters s)\<lparr>c_topic_idx := k\<rparr>\<rparr>"
    using assms(3) by (auto simp: on_counters_def zoom_def next_topic_idx_def split: option.splits)
  then have less: "c_topic_idx (counters s) < k" by (simp add: checked_add_less)
  then show "values_listed (register_topic i t s')"
    using assms(1) k by (fastforce simp: values_listed_def register_topic_def)
  have "map_of (topic_value_map s) i = None"
    using assms(1) k by (cases "map_of (topic_value_map s) i") (auto simp: values_listed_def)
  then show "board (register_topic i t s') = (board s)(t_name t \<mapsto> None)"
    using k by (auto simp: board_def register_topic_def fun_eq_iff)
qed

lemma board_removed:
  assumes "server_inv s"
  shows "\<exists>N. board (snd (remove_topic i s)) = board s |` N"
proof (cases "map_of (topics s) i")
  case None
  then show ?thesis by (intro exI [of _ UNIV]) (simp add: remove_topic_def restrict_map_def)
next
  case (Some t)
  have other: "map_of (topic_map s) n \<noteq> Some i" if "n \<noteq> t_name t" for n
    using inv_name_of [OF assms _ Some] that by blast
  let ?mp = "''$pub$'' @ t_name t" and ?ms = "''$sub$'' @ t_name t"
  show ?thesis
  proof (cases "map_of (topic_map s) ?mp = None \<or> map_of (topic_map s) ?ms = None")
    case True
    then show ?thesis using Some
      by (intro exI [of _ "if map_of (topic_map s) ?mp = None then UNIV else - {?mp}"])
        (auto simp: remove_topic_def Let_def board_def fun_eq_iff restrict_map_def split: option.splits)
  next
    case False
    then show ?thesis using Some other
      by (intro exI [of _ "- {?mp, ?ms, t_name t}"])
        (auto simp: remove_topic_def Let_def board_def fun_eq_iff restrict_map_def
          split: option.splits intro!: option.map_cong0)
  qed
qed

lemma values_removed: "values_listed s \<Longrightarrow> values_listed (snd (remove_topic i s))"
  by (auto simp: remove_topic_def Let_def values_listed_def split: option.splits)

lemma board_stored:
  assumes "server_inv s" and "values_listed s" and "map_of (topics s) i = Some t"
  shows "values_listed (store_value i v s)"
    "board (store_value i v s) =
      (if map_of (topic_map s) (t_name t) = Some i
       then (board s)(t_name t \<mapsto> Some (newest (map_of (topic_value_map s) i) v)) else board s)"
proof -
  have "i < c_topic_idx (counters s)"
    using inv_listed_bound [OF assms(1) inv_topic_listed [OF assms(1,3)]] .
  then show "values_listed (store_value i v s)"
    using assms(2) by (auto simp: values_listed_def store_value_def split: option.splits)
  have "map_of (topic_map s) n \<noteq> Some i" if "n \<noteq> t_name t" for n
    using inv_name_of [OF assms(1) _ assms(3)] that by blast
  then show "board (store_value i v s) =
      (if map_of (topic_map s) (t_name t) = Some i
       then (board s)(t_name t \<mapsto> Some (newest (map_of (topic_value_map s) i) v)) else board s)"
    by (intro ext, case_tac "x = t_name t")
      (auto simp: board_def store_value_eq intro!: option.map_cong0)
qed

interpretation board: registry_view "board_view b" for b :: "'v board"
proof unfold_locales
  fix s u :: "('v, 't) server"
  assume "board_view b s" "registry_of u = registry_of s"
  then show "board_view b u" using board_same [of u s] by (simp add: board_view_def)
next
  fix s s' :: "('v, 't) server" and r
  assume "board_view b s" "on_counters next_topic_idx s = (r, s')"
  then have "topic_value_map s' = topic_value_map s" "topic_map s' = topic_map s"
    "c_topic_idx (counters s) \<le> c_topic_idx (counters s')" "values_listed s" "board_run b (board s)"
    by (auto simp: board_view_def on_counters_def zoom_def next_topic_idx_def
        dest: checked_add_less split: option.splits)
  then show "board_view b s'"
    by (auto simp: board_view_def values_listed_def board_def [abs_def] intro: less_le_trans)
next
  fix s s' :: "('v, 't) server" and t :: "string topic" and i
  assume "board_view b s" "map_of (topic_map s) (t_name t) = None" "on_counters next_topic_idx s = (Ok i, s')"
  then show "board_view b (register_topic i t s')"
    using board_registered [of s t i s'] board_step.opens [of "board s" "t_name t"]
    by (auto simp: board_view_def board_def)
next
  fix s :: "('v, 't) server" and i
  assume "server_inv s" "board_view b s"
  then obtain N where "board (snd (remove_topic i s)) = board s |` N" "values_listed (snd (remove_topic i s))"
    using board_removed [of s i] values_removed [of s i] by (auto simp: board_view_def)
  then show "board_view b (snd (remove_topic i s))"
    using \<open>board_view b s\<close> board_step.closes [of "board s" N]
    by (auto simp: board_view_def intro: rtranclp.rtrancl_into_rtrancl)
next
  fix s u :: "('v, 't) server" and i v and t :: "string topic"
  assume s: "server_inv s" "board_view b s" "map_of (topics s) i = Some t" "CHR ''$'' \<notin> set (t_name t)"
    and u: "registry_of u = registry_of s"
  have "registry_of (store_value i v u) = registry_of (store_value i v s)"
    using u by (auto simp: registry_of_def store_value_def split: option.splits)
  moreover have "board_view b (store_value i v s)"
    using s board_stored [OF s(1) _ s(3), of v] board_step.takes [of "board s" "t_name t" _ v]
    by (auto simp: board_view_def board_def intro: rtranclp.rtrancl_into_rtrancl)
  ultimately show "board_view b (store_value i v u)"
    using board_same [of "store_value i v u" "store_value i v s"] by (simp add: board_view_def)
qed

section \<open>Every run\<close>





section \<open>Properties\<close>



end
