(* ===== verification/Server_Lifecycle.thy ===== *)
theory Server_Lifecycle
  imports Value_Properties "HOL-Library.Multiset"
begin

text \<open>
  A connection of the server from its opening to its end (\<open>handle_connection\<close> of
  \<open>src/server/runner.rs\<close>): its two halves, which run at the same time, the channel between them,
  the kill switch and the close message; and the loop of the parser, which takes what all
  connections pass on.
\<close>

section \<open>The loop of the parser\<close>


section \<open>A connection\<close>

text \<open>
  The messages from the socket are handled concurrently: what handling one still has to deliver, to
  the outgoing half through the time channel, of capacity one, or to the parser, waits until it can.
\<close>

datatype 't delivery = ToTime "'t ws_message" | ToParser "'t ws_message"

fun deliveries :: "'t incoming_action \<Rightarrow> 't delivery list" where
  "deliveries Dropped = []"
| "deliveries (TimeReply buf) = [ToTime (WsBinary buf)]"
| "deliveries PongReply = [ToTime (WsPong [])]"
| "deliveries Killed = []"
| "deliveries (Forwarded msg) = [ToParser msg]"

text \<open>
  The two halves run until one of them ends (\<open>Serving\<close>); then the close message is still to be sent
  (\<open>Closing\<close>). \<open>Crashed\<close>: the task has panicked.
\<close>

datatype life_state = Serving | Closing | Closed | Crashed

record 't life =
  lf_conn :: "'t conn"
  lf_time :: "'t ws_message option"
  lf_busy :: "'t delivery list"
  lf_parser :: "'t ws_message list"
  lf_alive :: bool
  lf_state :: life_state

definition new_life :: "'t life" where
  "new_life = \<lparr>lf_conn = new_conn, lf_time = None, lf_busy = [], lf_parser = [], lf_alive = True, lf_state = Serving\<rparr>"

definition kill :: "'t life \<Rightarrow> 't life" where
  "kill l = l\<lparr>lf_conn := (lf_conn l)\<lparr>cn_kill := True\<rparr>\<rparr>"

definition arrive :: "('v, 't, 'm, 'ty) ext \<Rightarrow> u64 \<Rightarrow> 't ws_message \<Rightarrow> 't life \<Rightarrow> 't life" where
  "arrive E now msg l =
    (case incoming E now msg of
       Ok act \<Rightarrow> (if act = Killed then kill l else l)\<lparr>lf_busy := lf_busy l @ deliveries act\<rparr>
     | _ \<Rightarrow> l\<lparr>lf_state := Crashed\<rparr>)"

text \<open>A delivery that waits is made; the parser's end of the queue is gone when its task has died.\<close>

definition deliver :: "nat \<Rightarrow> 't life \<Rightarrow> 't life option" where
  "deliver i l =
    (if i \<ge> length (lf_busy l) then None
     else
       (let rest = take i (lf_busy l) @ drop (Suc i) (lf_busy l)
        in case lf_busy l ! i of
             ToTime msg \<Rightarrow>
               if lf_time l = None then Some (l\<lparr>lf_time := Some msg, lf_busy := rest\<rparr>) else None
           | ToParser msg \<Rightarrow>
               Some ((if lf_alive l then l\<lparr>lf_parser := lf_parser l @ [msg]\<rparr> else kill l)\<lparr>lf_busy := rest\<rparr>)))"

text \<open>A turn of the outgoing half; it ends after one at whose end the kill switch is set.\<close>

definition out_turn :: "'t conn_event \<Rightarrow> 't life \<Rightarrow> 't life" where
  "out_turn e l =
    (let c = outgoing (lf_conn l) e
     in l\<lparr>lf_conn := c, lf_state := (if cn_kill c then Closing else Serving)\<rparr>)"

definition close_connection :: "('v, 't, 'm, string) ext \<Rightarrow> client_identity \<Rightarrow> 't life \<Rightarrow> 't life" where
  "close_connection E identity l =
    (case close_text E identity of
       Ok msg \<Rightarrow>
         if lf_alive l then l\<lparr>lf_parser := lf_parser l @ [msg], lf_state := Closed\<rparr>
         else l\<lparr>lf_state := Crashed\<rparr>
     | _ \<Rightarrow> l\<lparr>lf_state := Crashed\<rparr>)"

text \<open>
  What happens to a connection: a message arrives, a delivery is made, the timer ticks, a message
  of the server or of the time channel is taken, the stream of the socket ends, with all messages
  handled, or breaks, the close message is sent, the parser dies. \<open>None\<close>: it cannot happen now.
\<close>

datatype 't life_event =
    Arrives u64 "'t ws_message" | Delivers nat | Ticks | Takes "'t ws_message option" | Replies
  | Ends | Breaks | Closes | ParserDies

fun life_step ::
    "('v, 't, 'm, string) ext \<Rightarrow> client_identity \<Rightarrow> 't life_event \<Rightarrow> 't life \<Rightarrow> 't life option"
where
  "life_step E identity ParserDies l = Some (l\<lparr>lf_alive := False\<rparr>)"
| "life_step E identity Closes l =
     (if lf_state l = Closing then Some (close_connection E identity l) else None)"
| "life_step E identity e l =
     (if lf_state l \<noteq> Serving then None
      else
        (case e of
           Arrives now msg \<Rightarrow> Some (arrive E now msg l)
         | Delivers i \<Rightarrow> deliver i l
         | Ticks \<Rightarrow> Some (out_turn Tick l)
         | Takes msg \<Rightarrow> Some (out_turn (OutMsg msg) l)
         | Replies \<Rightarrow>
             (case lf_time l of
                None \<Rightarrow> None
              | Some msg \<Rightarrow> Some (out_turn (TimeMsg (Some msg)) (l\<lparr>lf_time := None\<rparr>)))
         | Ends \<Rightarrow> if lf_busy l = [] then Some ((kill l)\<lparr>lf_state := Closing\<rparr>) else None
         | Breaks \<Rightarrow> Some ((kill l)\<lparr>lf_state := Closing\<rparr>)
         | _ \<Rightarrow> None))"

fun life_run ::
    "('v, 't, 'm, string) ext \<Rightarrow> client_identity \<Rightarrow> 't life_event list \<Rightarrow> 't life \<Rightarrow> 't life option"
where
  "life_run E identity [] l = Some l"
| "life_run E identity (e # es) l =
     (case life_step E identity e l of None \<Rightarrow> None | Some l' \<Rightarrow> life_run E identity es l')"

lemma life_run_snoc:
  "life_run E identity (es @ [e]) l = Option.bind (life_run E identity es l) (life_step E identity e)"
  by (induction es arbitrary: l) (auto split: option.splits)

section \<open>What passes through a connection\<close>

text \<open>The texts the server sends, the replies to time requests and what is meant for the parser.\<close>

fun texts :: "'t ws_message list \<Rightarrow> 't list" where
  "texts (WsText t # ms) = t # texts ms"
| "texts (_ # ms) = texts ms"
| "texts [] = []"

fun binaries :: "'t ws_message list \<Rightarrow> u8 list list" where
  "binaries (WsBinary b # ms) = b # binaries ms"
| "binaries (_ # ms) = binaries ms"
| "binaries [] = []"

fun taken_of :: "'t life_event \<Rightarrow> 't ws_message list" where
  "taken_of (Takes (Some msg)) = [msg]"
| "taken_of _ = []"

fun asked_of :: "('v, 't, 'm, 'ty) ext \<Rightarrow> 't life_event \<Rightarrow> 't delivery list" where
  "asked_of E (Arrives now msg) = (case incoming E now msg of Ok act \<Rightarrow> deliveries act | _ \<Rightarrow> [])"
| "asked_of E _ = []"

fun to_time :: "'t delivery list \<Rightarrow> 't ws_message list" where
  "to_time (ToTime m # ds) = m # to_time ds"
| "to_time (ToParser m # ds) = to_time ds"
| "to_time [] = []"

fun to_parser :: "'t delivery list \<Rightarrow> 't ws_message list" where
  "to_parser (ToTime m # ds) = to_parser ds"
| "to_parser (ToParser m # ds) = m # to_parser ds"
| "to_parser [] = []"

lemma texts_append [simp]: "texts (xs @ ys) = texts xs @ texts ys"
  by (induction xs rule: texts.induct) auto

lemma binaries_append [simp]: "binaries (xs @ ys) = binaries xs @ binaries ys"
  by (induction xs rule: binaries.induct) auto

lemma to_time_append [simp]: "to_time (xs @ ys) = to_time xs @ to_time ys"
  by (induction xs rule: to_time.induct) auto

lemma to_parser_append [simp]: "to_parser (xs @ ys) = to_parser xs @ to_parser ys"
  by (induction xs rule: to_parser.induct) auto

lemma texts_replies [simp]: "texts (to_time (deliveries act)) = []"
  by (cases act) auto

definition time_of :: "'t life \<Rightarrow> 't ws_message list" where
  "time_of l = (case lf_time l of None \<Rightarrow> [] | Some m \<Rightarrow> [m])"

text \<open>
  What has gone to the parser, but for the close message; and the invariants of the two halves: what
  is on its way to the socket is what was taken and the replies, and what was meant for the parser has been
  given to it or waits, or is lost, when the parser has died.
\<close>

definition passed_on :: "'t life \<Rightarrow> 't ws_message list" where
  "passed_on l = (if lf_state l = Closed then butlast (lf_parser l) else lf_parser l)"

definition asked :: "('v, 't, 'm, 'ty) ext \<Rightarrow> 't life_event list \<Rightarrow> 't delivery list" where
  "asked E es = concat (map (asked_of E) es)"

definition out_inv :: "('v, 't, 'm, string) ext \<Rightarrow> 't life_event list \<Rightarrow> 't life \<Rightarrow> bool" where
  "out_inv E es l \<longleftrightarrow>
    texts (on_its_way (lf_conn l)) = texts (concat (map taken_of es)) \<and>
    texts (time_of l @ to_time (lf_busy l)) = [] \<and>
    mset (binaries (on_its_way (lf_conn l) @ time_of l @ to_time (lf_busy l))) =
      mset (binaries (to_time (asked E es)))"

definition in_inv ::
    "('v, 't, 'm, string) ext \<Rightarrow> client_identity \<Rightarrow> 't life_event list \<Rightarrow> 't life \<Rightarrow> bool"
where
  "in_inv E identity es l \<longleftrightarrow>
    mset (passed_on l @ to_parser (lf_busy l)) \<subseteq># mset (to_parser (asked E es)) \<and>
    (ParserDies \<notin> set es \<longrightarrow>
      lf_alive l \<and> mset (passed_on l @ to_parser (lf_busy l)) = mset (to_parser (asked E es))) \<and>
    (lf_state l = Closed \<longrightarrow>
      (\<exists>close. close_text E identity = Ok close \<and> lf_parser l = passed_on l @ [close]))"

lemma asked_snoc [simp]: "asked E (es @ [e]) = asked E es @ asked_of E e"
  by (simp add: asked_def)

lemma on_its_way_kill [simp]: "on_its_way (lf_conn (kill l)) = on_its_way (lf_conn l)"
  by (simp add: kill_def on_its_way_def)

lemma kill_fields [simp]:
  "lf_time (kill l) = lf_time l" "lf_busy (kill l) = lf_busy l" "lf_parser (kill l) = lf_parser l"
  "lf_alive (kill l) = lf_alive l" "lf_state (kill l) = lf_state l"
  by (simp_all add: kill_def)

lemma deliver_cases:
  assumes "deliver i l = Some l'"
  obtains xs m ys where "lf_busy l = xs @ ToTime m # ys" "lf_time l = None"
      "l' = l\<lparr>lf_time := Some m, lf_busy := xs @ ys\<rparr>"
    | xs m ys where "lf_busy l = xs @ ToParser m # ys" "lf_alive l"
      "l' = l\<lparr>lf_parser := lf_parser l @ [m], lf_busy := xs @ ys\<rparr>"
    | xs m ys where "lf_busy l = xs @ ToParser m # ys" "\<not> lf_alive l"
      "l' = (kill l)\<lparr>lf_busy := xs @ ys\<rparr>"
proof -
  from assms have i: "i < length (lf_busy l)" by (auto simp: deliver_def split: if_splits)
  from id_take_nth_drop [OF i] show thesis
    using assms i that
    by (cases "lf_busy l ! i") (auto simp: deliver_def Let_def split: if_splits)
qed

lemma out_inv_step:
  assumes "out_inv E es l" "life_step E identity e l = Some l'"
  shows "out_inv E (es @ [e]) l'"
proof (cases e)
  case (Arrives now msg)
  with assms show ?thesis
    by (auto simp: out_inv_def arrive_def time_of_def split: if_splits outcome.splits)
next
  case (Delivers i)
  with assms(2) have "deliver i l = Some l'" by (simp split: if_splits)
  then show ?thesis
  proof (cases rule: deliver_cases)
    case (1 xs m ys)
    with assms(1) Delivers show ?thesis by (cases m) (auto simp: out_inv_def time_of_def ac_simps)
  qed (use assms(1) Delivers in \<open>auto simp: out_inv_def time_of_def on_its_way_def kill_def\<close>)
next
  case (Takes m)
  with assms show ?thesis
    by (cases "OutMsg m" rule: forwarded.cases)
      (auto simp: out_inv_def out_turn_def Let_def time_of_def on_its_way_turn simp del: outgoing.simps split: if_splits)
next
  case Replies
  with assms obtain m where m: "lf_time l = Some m" "l' = out_turn (TimeMsg (Some m)) (l\<lparr>lf_time := None\<rparr>)"
    by (auto split: if_splits option.splits)
  with assms(1) Replies show ?thesis
    by (cases m) (auto simp: out_inv_def out_turn_def Let_def time_of_def on_its_way_turn simp del: outgoing.simps ac_simps)
qed (use assms in \<open>auto simp: out_inv_def out_turn_def close_connection_def Let_def time_of_def on_its_way_turn simp del: outgoing.simps
      split: if_splits outcome.splits\<close>)

lemma in_inv_step:
  assumes "in_inv E identity es l" "life_step E identity e l = Some l'"
  shows "in_inv E identity (es @ [e]) l'"
proof (cases e)
  case (Arrives now msg)
  with assms show ?thesis
    by (auto simp: in_inv_def arrive_def passed_on_def split: if_splits outcome.splits)
next
  case (Delivers i)
  with assms(2) have "deliver i l = Some l'" "lf_state l = Serving" by (simp_all split: if_splits)
  then show ?thesis using assms(1) Delivers
    by (cases rule: deliver_cases)
      (auto simp: in_inv_def passed_on_def intro: subset_mset.order_trans [rotated])
qed (use assms in \<open>auto simp: in_inv_def passed_on_def out_turn_def close_connection_def Let_def
      split: if_splits outcome.splits option.splits\<close>)

lemma life_invs:
  "life_run E identity es new_life = Some l \<Longrightarrow> out_inv E es l \<and> in_inv E identity es l"
proof (induction es arbitrary: l rule: rev_induct)
  case Nil
  then show ?case
    by (auto simp: out_inv_def in_inv_def new_life_def new_conn_def on_its_way_def time_of_def passed_on_def asked_def)
next
  case (snoc e es)
  then obtain k where "life_run E identity es new_life = Some k" "life_step E identity e k = Some l"
    by (auto simp: life_run_snoc split: Option.bind_splits)
  with snoc.IH show ?case using out_inv_step in_inv_step by blast
qed

section \<open>Properties\<close>

text \<open>
  C8. A connection, for every sequence of what can happen to it. Of the texts the server puts on its
  channel all those taken go to the socket, in order, and no text else; the only binary messages that go
  there are replies to time requests, no request answered twice, so that values, which are binary,
  never do. The parser is given what the client sent it, nothing twice, and all of it when no
  handling is pending and the parser lives; and after the end of the connection one close message,
  the last. The parser does not understand that message: the client stays.
\<close>
theorem connection_life:
  assumes "json_laws E" "life_run E identity es new_life = Some l"
  shows "texts (on_its_way (lf_conn l)) = texts (concat (map taken_of es)) \<and>
    mset (binaries (on_its_way (lf_conn l))) \<subseteq># mset (binaries (to_time (asked E es))) \<and>
    mset (passed_on l) \<subseteq># mset (to_parser (asked E es)) \<and>
    (ParserDies \<notin> set es \<and> lf_busy l = [] \<longrightarrow> mset (passed_on l) = mset (to_parser (asked E es))) \<and>
    (lf_state l = Closed \<longrightarrow>
      (\<exists>close m. lf_parser l = passed_on l @ [close] \<and> parse_in E now ci close = Some m \<and> m s = (Ok (), s)))"
proof -
  from life_invs [OF assms(2)] have out: "out_inv E es l" and inn: "in_inv E identity es l" by auto
  have "parse_in E now ci close = Some (ret ())" if "close_text E identity = Ok close" for close
  proof -
    from assms(1) obtain t where "json_write_one E (as_close identity) = Some t" "json_read_list E t = None"
      unfolding json_laws_def by blast
    with that show ?thesis by (auto simp: close_text_def parse_in_def parse_text_def)
  qed
  moreover have "mset (binaries (on_its_way (lf_conn l))) \<subseteq># mset (binaries (to_time (asked E es)))"
    using out by (metis binaries_append mset_append mset_subset_eq_add_left out_inv_def)
  moreover have "mset (passed_on l) \<subseteq># mset (to_parser (asked E es))"
    using inn by (simp add: in_inv_def) (metis mset_subset_eq_add_left subset_mset.order_trans)
  ultimately show ?thesis
    using out inn by (auto simp: out_inv_def in_inv_def ret_def)
qed

lemma connection_life_witness:
  "\<exists>es l. life_run sample alice es new_life = Some l \<and> lf_state l = Closed \<and>
    on_its_way (lf_conn l) = [WsText (Inl []), WsPong []] \<and>
    lf_parser l = [WsText (Inl [Unsubscribe \<lparr>us_subuid = 5\<rparr>]), WsText (Inr (as_close alice))] \<and>
    to_parser (asked sample es) = [WsText (Inl [Unsubscribe \<lparr>us_subuid = 5\<rparr>])]"
proof -
  let ?es = "[Arrives 0 (WsPing []), Arrives 0 (WsText (Inl [Unsubscribe \<lparr>us_subuid = 5\<rparr>])), Delivers 1,
    Takes (Some (WsText (Inl []))), Takes (Some (WsBinary [1])), Delivers 0, Replies, Ends, Closes]"
  obtain l where l: "life_run sample alice ?es new_life = Some l" "lf_state l = Closed"
      "on_its_way (lf_conn l) = [WsText (Inl []), WsPong []]"
      "lf_parser l = [WsText (Inl [Unsubscribe \<lparr>us_subuid = 5\<rparr>]), WsText (Inr (as_close alice))]"
    by (simp add: new_life_def new_conn_def arrive_def deliver_def out_turn_def incoming_def kill_def Let_def
        conn_feed_def conn_flush_def close_connection_def close_text_def on_its_way_def)
  moreover have "to_parser (asked sample ?es) = [WsText (Inl [Unsubscribe \<lparr>us_subuid = 5\<rparr>])]"
    by (simp add: asked_def incoming_def)
  ultimately show ?thesis
    using connection_life [OF sample_json_laws l(1), of 0 1 srv4] by blast
qed



end
