(* ===== verification/Handshake.thy ===== *)
theory Handshake
  imports Client_Sample Server_Connecting
begin

text \<open>
  How a client gets in: the request its socket task makes, the answer of the server's HTTP handler
  (\<open>request\<close> in \<open>src/server/runner.rs\<close>), and the name under which the server then knows it.
\<close>

section \<open>The request\<close>






section \<open>The answer\<close>





section \<open>Properties\<close>



text \<open>
  C26. Names are not kept apart. The suffix of a name that is taken is the number of clients whose
  names contain it: when one of them has that very name with that very suffix, as happens once
  clients have come and gone, the new client gets the same name, and with it the metatopics
  registered under that name.
\<close>
theorem names_can_clash:
  assumes "server_reachable E addr s" and "instances_of_ident ident s = k" and "0 < k"
    and "map_of (clients s) cj = Some other" and "ci_name (cc_identity other) = ci_name ident @ ''@'' @ show_nat k"
    and "connect_client E ident s = (Ok (rx, kill, ci, i), u)"
  shows "ci \<noteq> cj \<and> ci_name i = ci_name (cc_identity other) \<and>
    map_option (\<lambda>cl. ci_name (cc_identity cl)) (map_of (clients u) ci) =
      map_option (\<lambda>cl. ci_name (cc_identity cl)) (map_of (clients u) cj) \<and>
    (\<exists>p q. map_of (client_metatopic_map u) ci = Some (p, q) \<and>
      map_of (topic_map u) (''$clientpub$'' @ ci_name (cc_identity other)) = Some p)"
proof -
  note effect = connect_effect [OF assms(6)]
  have name: "ci_name i = ci_name (cc_identity other)"
    using effect assms(2,3,5) by (simp add: dedup_identity_def update_name_def)
  have "ci \<notin> hm_keys (clients s)"
    using ids_client [OF conjunct2 [OF reachable_invs [OF assms(1)]], of ci] effect by blast
  with assms(4) have ne: "ci \<noteq> cj" by auto
  with effect assms(4) have "map_of (clients u) cj = Some other"
    "\<exists>cl. map_of (clients u) ci = Some cl \<and> cc_identity cl = i"
    by (auto simp: new_client_def)
  with name ne effect show ?thesis by auto
qed

lemma digit_one: "digit_char (Suc 0) = CHR ''1''"
  by code_simp

definition bob_1 :: client_identity where
  "bob_1 = ClientIdentity (V4 10 0 0 4 4000) ''bob@1''"

definition srv2b :: sample_server where
  "srv2b = snd (connect_client sample bob_1 srv1)"

lemma names_can_clash_witness:
  "\<exists>u. connect_client sample bob srv2b = (Ok (3, 3, 3, ClientIdentity (V4 10 0 0 3 4000) ''bob@1''), u) \<and>
    map_option (\<lambda>cl. ci_name (cc_identity cl)) (map_of (clients u) 3) =
      map_option (\<lambda>cl. ci_name (cc_identity cl)) (map_of (clients u) 2)"
proof -
  have "server_reachable sample sample_addr srv2b"
    unfolding srv2b_def by (rule steps [OF srv1_reachable connects])
  moreover have "instances_of_ident bob srv2b = 1" "map_option cc_identity (map_of (clients srv2b) 2) = Some bob_1"
    unfolding srv2b_def srv1_def srv0_def by (simp_all add: run_simps bob_1_def instances_of_ident_def)
  moreover have "fst (connect_client sample bob srv2b) = Ok (3, 3, 3, ClientIdentity (V4 10 0 0 3 4000) ''bob@1'')"
    unfolding srv2b_def srv1_def srv0_def
    by (simp add: run_simps bob_1_def show_nat.simps) (rule digit_one)
  then obtain u where "connect_client sample bob srv2b = (Ok (3, 3, 3, ClientIdentity (V4 10 0 0 3 4000) ''bob@1''), u)"
    by (metis prod.collapse)
  moreover have "ci_name bob_1 = ci_name bob @ ''@'' @ show_nat 1"
    by (simp add: bob_1_def bob_def show_nat.simps) (rule digit_one [symmetric])
  ultimately show ?thesis
    using names_can_clash [of sample sample_addr srv2b bob 1 2] by auto
qed

end
