(* ===== verification/Server_Races.thy ===== *)
theory Server_Races
  imports Registry_Properties
begin

text \<open>
  What the other theories take as one step is not one in the code: \<open>add_topic\<close> of
  \<open>src/server/inner.rs\<close> looks the name up under one lock, gives it back, and registers the topic
  under others. Here the two parts are steps of their own, and several tasks that add a topic
  (the parser for its clients, the owner of the server, new connections) interleave.
\<close>

section \<open>Adding a topic in two steps\<close>

definition register_new :: "string topic \<Rightarrow> ('v, 't, topic_idx) server_act" where
  "register_new t =
    try_bind (on_counters next_topic_idx) (\<lambda>i. try_bind (modify (register_topic i t)) (\<lambda>_. ret i))"

text \<open>A task before the lookup, one that found nothing, and one that has its index.\<close>

datatype adder = Looks "string topic" | Registers "string topic" | Has topic_idx

inductive adders_step :: "adder list \<times> ('v, 't) server \<Rightarrow> adder list \<times> ('v, 't) server \<Rightarrow> bool" where
  finds: "k < length as \<Longrightarrow> as ! k = Looks t \<Longrightarrow> map_of (topic_map s) (t_name t) = Some i \<Longrightarrow>
    adders_step (as, s) (as[k := Has i], s)"
| misses: "k < length as \<Longrightarrow> as ! k = Looks t \<Longrightarrow> map_of (topic_map s) (t_name t) = None \<Longrightarrow>
    adders_step (as, s) (as[k := Registers t], s)"
| registers: "k < length as \<Longrightarrow> as ! k = Registers t \<Longrightarrow> register_new t s = (Ok i, u) \<Longrightarrow>
    adders_step (as, s) (as[k := Has i], u)"

abbreviation adders_run :: "adder list \<times> ('v, 't) server \<Rightarrow> adder list \<times> ('v, 't) server \<Rightarrow> bool" where
  "adders_run \<equiv> adders_step\<^sup>*\<^sup>*"

inductive_cases adders_stepE: "adders_step (as, s) p"

text \<open>A task of its own does what \<open>add_topic\<close> does with a metatopic.\<close>

lemma adder_alone:
  assumes "CHR ''$'' \<in> set (t_name t)" and "add_topic E t s = (Ok i, u)"
  shows "adders_run ([Looks t], s) ([Has i], u)"
proof (cases "map_of (topic_map s) (t_name t)")
  case None
  with assms have "register_new t s = (Ok i, u)"
    using add_topic.simps [of E t s] by (simp add: register_new_def)
  then have "adders_step ([Registers t], s) ([Has i], u)"
    using registers [of 0 "[Registers t]" t s i u] by simp
  moreover have "adders_step ([Looks t], s) ([Registers t], s)"
    using misses [of 0 "[Looks t]" t s] None by simp
  ultimately show ?thesis by (meson rtranclp.rtrancl_into_rtrancl rtranclp.rtrancl_refl)
next
  case (Some k)
  with assms(2) have "k = i" "u = s" by (simp_all add: add_topic_known)
  with Some finds [of 0 "[Looks t]" t s i] show ?thesis by simp
qed

lemma register_new_run:
  assumes "unat (c_topic_idx (counters s)) + 1 < 2 ^ 32"
  shows "register_new t s = (Ok (c_topic_idx (counters s)),
    register_topic (c_topic_idx (counters s)) t
      (s\<lparr>counters := (counters s)\<lparr>c_topic_idx := c_topic_idx (counters s) + 1\<rparr>\<rparr>))"
  using assms
  by (simp add: register_new_def on_counters_def zoom_def next_topic_idx_def checked_add_def try_bind_def act_simps)

section \<open>Two tasks with one name\<close>

text \<open>Both look before either registers.\<close>

lemma racing_adders:
  assumes "map_of (topic_map s) (t_name t) = None" and "register_new t s = (Ok i, s1)"
    and "register_new t s1 = (Ok j, u)"
  shows "adders_run ([Looks t, Looks t], s) ([Has i, Has j], u)"
proof -
  have "adders_step ([Looks t, Looks t], s) ([Registers t, Looks t], s)"
    using misses [of 0 "[Looks t, Looks t]" t s] assms(1) by simp
  moreover have "adders_step ([Registers t, Looks t], s) ([Registers t, Registers t], s)"
    using misses [of 1 "[Registers t, Looks t]" t s] assms(1) by simp
  moreover have "adders_step ([Registers t, Registers t], s) ([Has i, Registers t], s1)"
    using registers [of 0 "[Registers t, Registers t]" t s i s1] assms(2) by simp
  moreover have "adders_step ([Has i, Registers t], s1) ([Has i, Has j], u)"
    using registers [of 1 "[Has i, Registers t]" t s1 j u] assms(3) by simp
  ultimately show ?thesis by (meson converse_rtranclp_into_rtranclp rtranclp.rtrancl_refl)
qed

text \<open>One after the other.\<close>

lemma patient_adders:
  assumes "map_of (topic_map s) (t_name t) = None" and "register_new t s = (Ok i, s1)"
    and "map_of (topic_map s1) (t_name t) = Some i"
  shows "adders_run ([Looks t, Looks t], s) ([Has i, Has i], s1)"
proof -
  have "adders_step ([Looks t, Looks t], s) ([Registers t, Looks t], s)"
    using misses [of 0 "[Looks t, Looks t]" t s] assms(1) by simp
  moreover have "adders_step ([Registers t, Looks t], s) ([Has i, Looks t], s1)"
    using registers [of 0 "[Registers t, Looks t]" t s i s1] assms(2) by simp
  moreover have "adders_step ([Has i, Looks t], s1) ([Has i, Has i], s1)"
    using finds [of 1 "[Has i, Looks t]" t s1 i] assms(3) by simp
  ultimately show ?thesis by (meson converse_rtranclp_into_rtranclp rtranclp.rtrancl_refl)
qed

lemma update_new: "map_of m k = None \<Longrightarrow> AList.update k v m = m @ [(k, v)]"
  by (induction m) (auto split: if_splits)

lemma update_last: "map_of m k = None \<Longrightarrow> AList.update k v (m @ [(k, w)]) = m @ [(k, v)]"
  by (induction m) (auto split: if_splits)

section \<open>Properties\<close>

text \<open>
  C37. Adding a topic is not atomic. When two tasks add a topic of a new name, the owner of the
  server and the parser for instance, they can end with two indices and two topics of that name.
  The name leads to the second; the first has no subscription, and no later subscription finds
  it, so that the values of its publisher reach nobody. One after the other they share one index.
\<close>
theorem racing_publishers_split_topic:
  assumes "server_reachable E addr s" and "map_of (topic_map s) (t_name t) = None"
    and "unat (c_topic_idx (counters s)) + 2 < 2 ^ 32"
  shows "\<exists>u v i j. adders_run ([Looks t, Looks t], s) ([Has i, Has j], u) \<and> i \<noteq> j \<and>
    map_of (topics u) i = Some t \<and> map_of (topics u) j = Some t \<and>
    map_of (topic_map u) (t_name t) = Some j \<and> map_of (topic_sub_map u) i = Some [] \<and>
    (\<forall>sub. i \<notin> snd ` set (interested_topics sub u)) \<and>
    adders_run ([Looks t, Looks t], s) ([Has i, Has i], v)"
proof -
  let ?i = "c_topic_idx (counters s)"
  let ?s1 = "register_topic ?i t (s\<lparr>counters := (counters s)\<lparr>c_topic_idx := ?i + 1\<rparr>\<rparr>)"
  let ?u = "register_topic (?i + 1) t (?s1\<lparr>counters := (counters ?s1)\<lparr>c_topic_idx := ?i + 1 + 1\<rparr>\<rparr>)"
  note s = reachable_inv [OF assms(1)]
  have one: "register_new t s = (Ok ?i, ?s1)" using register_new_run [of s t] assms(3) by simp
  have c: "c_topic_idx (counters ?s1) = ?i + 1" by (simp add: register_topic_def)
  have "unat (?i + 1) + 1 < 2 ^ 32"
    using assms(3) by (simp add: unat_word_ariths)
  then have two: "register_new t ?s1 = (Ok (?i + 1), ?u)"
    using register_new_run [of ?s1 t] unfolding c by simp
  have ne: "?i \<noteq> ?i + 1" by simp
  have "?i \<notin> ran (map_of (topic_map s))"
    using inv_name_listed [OF s] inv_listed_bound [OF s] by (force simp: ran_def)
  moreover have "distinct (map fst (topic_map s))" using s by (simp add: inv_defs)
  ultimately have fresh: "?i \<notin> snd ` set (topic_map s)"
    by (auto simp: ran_def image_iff dest: map_of_is_SomeI)
  have "topic_map ?u = hm_insert (t_name t) (?i + 1) (hm_insert (t_name t) ?i (topic_map s))"
    by (simp add: register_topic_def)
  then have "topic_map ?u = topic_map s @ [(t_name t, ?i + 1)]"
    using assms(2) by (simp add: update_new update_last)
  then have "\<forall>sub. ?i \<notin> snd ` set (interested_topics sub ?u)"
    using fresh ne by (auto simp: interested_topics_def)
  moreover have "map_of (topics ?u) ?i = Some t" "map_of (topics ?u) (?i + 1) = Some t"
    "map_of (topic_map ?u) (t_name t) = Some (?i + 1)" "map_of (topic_sub_map ?u) ?i = Some []"
    "map_of (topic_map ?s1) (t_name t) = Some ?i"
    by (simp_all add: register_topic_def)
  ultimately show ?thesis
    using racing_adders [OF assms(2) one two] patient_adders [OF assms(2) one] ne by blast
qed

lemma racing_publishers_split_topic_witness:
  "\<exists>u i j. adders_run ([Looks sample_topic, Looks sample_topic], srv2) ([Has i, Has j], u) \<and> i \<noteq> j \<and>
    map_of (topic_map u) ''speed'' = Some j"
proof -
  have "map_of (topic_map srv2) (t_name sample_topic) = None" "unat (c_topic_idx (counters srv2)) + 2 < 2 ^ 32"
    by (simp_all add: srv2_eq sample_topic_def)
  from racing_publishers_split_topic [OF srv2_reachable this] show ?thesis
    by (auto simp: sample_topic_def)
qed

end
