(* ===== verification/Waiting.thy ===== *)
theory Waiting
  imports Prelude
begin

text \<open>
  Tasks that wait for each other: for mutexes (\<open>tokio::sync::Mutex\<close>, taken and given back one at a
  time, not reentrant) and for room in a bounded queue. A call is the sequence of these operations
  it makes; a task makes calls one after the other, and tasks interleave freely. The server and
  the client instantiate \<open>ops_of\<close>, the operations of each call, and \<open>cap\<close>, the capacity.
\<close>

section \<open>Tasks\<close>

text \<open>\<open>Fetch\<close> takes the oldest message out of the queue, if there is one.\<close>

datatype 'l wait_op = Acquire 'l | Release 'l | Put | Fetch

text \<open>A guard that lives for one statement, and one that lives around others.\<close>

definition brief :: "'l \<Rightarrow> 'l wait_op list" where
  "brief l = [Acquire l, Release l]"

definition around :: "'l \<Rightarrow> 'l wait_op list \<Rightarrow> 'l wait_op list" where
  "around l ops = Acquire l # ops @ [Release l]"

text \<open>
  A task is in the middle of a call (\<open>doing\<close>), has calls still to make (\<open>to_call\<close>) and holds locks.
  It waits for a lock that is held, by another task or by itself, and for room in a full queue.
\<close>

record ('l, 'c) task =
  doing :: "'l wait_op list"
  to_call :: "'c list"
  held :: "'l set"

fun can_do :: "nat \<Rightarrow> 'l set \<Rightarrow> nat \<Rightarrow> 'l wait_op list \<Rightarrow> bool" where
  "can_do cap used n (Acquire l # _) = (l \<notin> used)"
| "can_do cap used n (Release _ # _) = True"
| "can_do cap used n (Put # _) = (n < cap)"
| "can_do cap used n (Fetch # _) = True"
| "can_do cap used n [] = False"

definition can_go :: "nat \<Rightarrow> 'l set \<Rightarrow> nat \<Rightarrow> ('l, 'c) task \<Rightarrow> bool" where
  "can_go cap used n t = (can_do cap used n (doing t) \<or> doing t = [] \<and> to_call t \<noteq> [])"

definition done_all :: "('l, 'c) task \<Rightarrow> bool" where
  "done_all t = (doing t = [] \<and> to_call t = [])"

text \<open>
  A task begins its next call, takes a lock nobody holds, gives one back, puts a message into the
  queue or takes one out, or leaves the call with an error (\<open>?\<close>), which drops its guards.
\<close>

inductive task_step ::
    "('c \<Rightarrow> 'l wait_op list) \<Rightarrow> nat \<Rightarrow> 'l set \<Rightarrow> ('l, 'c) task \<times> nat \<Rightarrow> ('l, 'c) task \<times> nat \<Rightarrow> bool"
  for ops_of cap used
where
  begins: "doing t = [] \<Longrightarrow> to_call t = c # cs \<Longrightarrow>
    task_step ops_of cap used (t, n) (t\<lparr>doing := ops_of c, to_call := cs\<rparr>, n)"
| acquires: "doing t = Acquire l # ops \<Longrightarrow> l \<notin> used \<Longrightarrow>
    task_step ops_of cap used (t, n) (t\<lparr>doing := ops, held := insert l (held t)\<rparr>, n)"
| releases: "doing t = Release l # ops \<Longrightarrow>
    task_step ops_of cap used (t, n) (t\<lparr>doing := ops, held := held t - {l}\<rparr>, n)"
| puts: "doing t = Put # ops \<Longrightarrow> n < cap \<Longrightarrow>
    task_step ops_of cap used (t, n) (t\<lparr>doing := ops\<rparr>, n + 1)"
| fetches: "doing t = Fetch # ops \<Longrightarrow>
    task_step ops_of cap used (t, n) (t\<lparr>doing := ops\<rparr>, n - 1)"
| fails: "can_do cap used n (doing t) \<Longrightarrow>
    task_step ops_of cap used (t, n) (t\<lparr>doing := [], held := {}\<rparr>, n)"

definition taken :: "('l, 'c) task list \<Rightarrow> 'l set" where
  "taken ts = (\<Union>t \<in> set ts. held t)"

inductive wait_step ::
    "('c \<Rightarrow> 'l wait_op list) \<Rightarrow> nat \<Rightarrow> ('l, 'c) task list \<times> nat \<Rightarrow> ('l, 'c) task list \<times> nat \<Rightarrow> bool"
  for ops_of cap
where
  "i < length ts \<Longrightarrow> task_step ops_of cap (taken ts) (ts ! i, n) (t, m) \<Longrightarrow>
    wait_step ops_of cap (ts, n) (ts[i := t], m)"

abbreviation wait_run ::
    "('c \<Rightarrow> 'l wait_op list) \<Rightarrow> nat \<Rightarrow> ('l, 'c) task list \<times> nat \<Rightarrow> ('l, 'c) task list \<times> nat \<Rightarrow> bool"
where
  "wait_run ops_of cap \<equiv> (wait_step ops_of cap)\<^sup>*\<^sup>*"

definition start_tasks :: "'c list list \<Rightarrow> ('l, 'c) task list" where
  "start_tasks css = map (\<lambda>cs. \<lparr>doing = [], to_call = cs, held = {}\<rparr>) css"

definition finished :: "('l, 'c) task list \<Rightarrow> bool" where
  "finished ts = list_all done_all ts"

definition deadlocked :: "nat \<Rightarrow> ('l, 'c) task list \<times> nat \<Rightarrow> bool" where
  "deadlocked cap = (\<lambda>(ts, n). \<not> finished ts \<and> \<not> list_ex (can_go cap (taken ts) n) ts)"

inductive_cases task_stepE: "task_step ops_of cap used (t, n) (u, m)"
inductive_cases wait_stepE: "wait_step ops_of cap (ts, n) p"

lemma can_go_steps: "can_go cap used n t = (\<exists>u m. task_step ops_of cap used (t, n) (u, m))"
proof
  assume "can_go cap used n t"
  then show "\<exists>u m. task_step ops_of cap used (t, n) (u, m)"
    by (auto simp: can_go_def neq_Nil_conv intro: task_step.begins task_step.fails)
qed (auto simp: can_go_def elim: task_stepE)

text \<open>A deadlock is one for good: no task of it moves again.\<close>

lemma deadlocked_stuck: "deadlocked cap (ts, n) \<Longrightarrow> \<not> wait_step ops_of cap (ts, n) p"
  using can_go_steps [of cap "taken ts" n _ ops_of]
  by (auto simp: deadlocked_def list_ex_iff elim!: wait_stepE dest: nth_mem)

lemma stuck_cases:
  assumes "\<And>p. \<not> wait_step ops_of cap (ts, n) p"
  shows "finished ts \<or> deadlocked cap (ts, n)"
proof (rule disjCI)
  assume "\<not> deadlocked cap (ts, n)"
  show "finished ts"
  proof (rule ccontr)
    assume "\<not> finished ts"
    with \<open>\<not> deadlocked cap (ts, n)\<close> obtain i where "i < length ts" "can_go cap (taken ts) n (ts ! i)"
      by (auto simp: deadlocked_def list_ex_iff in_set_conv_nth)
    then show False
      using assms can_go_steps [of cap "taken ts" n "ts ! i" ops_of] by (blast intro: wait_step.intros)
  qed
qed

section \<open>Runs end\<close>

definition task_work :: "('c \<Rightarrow> 'l wait_op list) \<Rightarrow> ('l, 'c) task \<Rightarrow> nat" where
  "task_work ops_of t = length (doing t) + sum_list (map (\<lambda>c. Suc (length (ops_of c))) (to_call t))"

definition wait_work :: "('c \<Rightarrow> 'l wait_op list) \<Rightarrow> ('l, 'c) task list \<Rightarrow> nat" where
  "wait_work ops_of ts = sum_list (map (task_work ops_of) ts)"

lemma task_step_work:
  "task_step ops_of cap used (t, n) (u, m) \<Longrightarrow> task_work ops_of u < task_work ops_of t"
  by (auto simp: task_work_def neq_Nil_conv elim!: task_stepE elim: can_do.elims)

lemma wait_step_work:
  "wait_step ops_of cap (ts, n) (us, m) \<Longrightarrow> wait_work ops_of us < wait_work ops_of ts"
proof (elim wait_stepE)
  fix i t k assume i: "i < length ts" and "task_step ops_of cap (taken ts) (ts ! i, n) (t, k)"
    and us: "(us, m) = (ts[i := t], k)"
  then have "task_work ops_of t < task_work ops_of (ts ! i)" by (simp add: task_step_work)
  moreover have "task_work ops_of (ts ! i) \<le> wait_work ops_of ts"
    using i by (simp add: wait_work_def member_le_sum_list)
  ultimately show ?thesis using i us by (simp add: wait_work_def map_update sum_list_update)
qed

lemma runs_end:
  "\<exists>us m. wait_run ops_of cap (ts, n) (us, m) \<and> (finished us \<or> deadlocked cap (us, m))"
proof (induction "wait_work ops_of ts" arbitrary: ts n rule: less_induct)
  case less
  show ?case
  proof (cases "\<exists>us m. wait_step ops_of cap (ts, n) (us, m)")
    case True
    then obtain us m where us: "wait_step ops_of cap (ts, n) (us, m)" by blast
    from less [OF wait_step_work [OF us]] obtain vs k
      where "wait_run ops_of cap (us, m) (vs, k)" "finished vs \<or> deadlocked cap (vs, k)" by blast
    with us show ?thesis by (blast intro: converse_rtranclp_into_rtranclp)
  next
    case False
    then show ?thesis using stuck_cases [of ops_of cap ts n] by auto
  qed
qed

lemma run_length: "((wait_step ops_of cap) ^^ k) (ts, n) q \<Longrightarrow> k \<le> wait_work ops_of ts"
proof (induction k arbitrary: ts n)
  case (Suc k)
  then obtain p where p: "wait_step ops_of cap (ts, n) p" "((wait_step ops_of cap) ^^ k) p q"
    by (blast dest: relpowp_Suc_D2)
  obtain vs j where "p = (vs, j)" by (cases p)
  with p Suc.IH show ?case by (fastforce dest: wait_step_work)
qed simp

section \<open>Locks taken in one order\<close>

text \<open>
  The locks of a call climb when each is taken above all those held, nothing is put into the queue,
  and the call ends holding none.
\<close>

fun climbs :: "('l \<Rightarrow> nat) \<Rightarrow> 'l set \<Rightarrow> 'l wait_op list \<Rightarrow> bool" where
  "climbs rank H [] = (H = {})"
| "climbs rank H (Acquire l # ops) = ((\<forall>h \<in> H. rank h < rank l) \<and> climbs rank (insert l H) ops)"
| "climbs rank H (Release l # ops) = climbs rank (H - {l}) ops"
| "climbs rank H (Put # ops) = False"
| "climbs rank H (Fetch # ops) = climbs rank H ops"

lemma climbs_brief [simp]:
  "l \<notin> H \<Longrightarrow> climbs rank H (brief l @ ops) = ((\<forall>h \<in> H. rank h < rank l) \<and> climbs rank H ops)"
  by (simp add: brief_def)

lemma climbs_around [simp]:
  "climbs rank H (around l ops @ ops') =
    ((\<forall>h \<in> H. rank h < rank l) \<and> climbs rank (insert l H) (ops @ Release l # ops'))"
  by (simp add: around_def)

text \<open>
  If every call takes its locks in increasing order of some rank, then no deadlock is reached: of
  the waiting tasks, the one that waits for the lock of highest rank waits for a task that waits
  for a higher one.
\<close>

locale ranked_calls =
  fixes ops_of :: "'c \<Rightarrow> 'l wait_op list" and rank :: "'l \<Rightarrow> nat" and ordered :: "'c \<Rightarrow> bool"
  assumes climbs_call: "ordered c \<Longrightarrow> climbs rank {} (ops_of c)"
begin

definition tame :: "('l, 'c) task \<Rightarrow> bool" where
  "tame t = (climbs rank (held t) (doing t) \<and> list_all ordered (to_call t))"

lemma tame_step: "tame t \<Longrightarrow> task_step ops_of cap used (t, n) (u, m) \<Longrightarrow> tame u"
  by (auto simp: tame_def climbs_call elim!: task_stepE)

lemma tame_wait_step: "list_all tame ts \<Longrightarrow> wait_step ops_of cap (ts, n) (us, m) \<Longrightarrow> list_all tame us"
  by (auto simp: list_all_iff elim!: wait_stepE dest!: set_update_subset_insert [THEN subsetD] intro: tame_step)

lemma tame_run: "wait_run ops_of cap p q \<Longrightarrow> list_all tame (fst p) \<Longrightarrow> list_all tame (fst q)"
  by (induction rule: rtranclp_induct) (auto dest: tame_wait_step)

lemma tame_waits:
  assumes "tame t" "\<not> can_go cap used n t" "\<not> done_all t"
  obtains l ops where "doing t = Acquire l # ops" "l \<in> used"
    and "\<And>h. h \<in> held t \<Longrightarrow> rank h < rank l"
proof -
  from assms(2,3) have "doing t \<noteq> []" by (simp add: can_go_def done_all_def)
  then obtain a ops where t: "doing t = a # ops" by (cases "doing t") auto
  with assms(1,2) obtain l where "a = Acquire l" "l \<in> used"
    by (cases a) (auto simp: can_go_def tame_def)
  with t assms(1) show thesis by (intro that [of l ops]) (auto simp: tame_def)
qed

lemma tame_holds: "tame t \<Longrightarrow> l \<in> held t \<Longrightarrow> \<not> done_all t"
  by (auto simp: tame_def done_all_def)

definition wanted :: "('l, 'c) task \<Rightarrow> nat" where
  "wanted t = (case doing t of Acquire l # _ \<Rightarrow> rank l | _ \<Rightarrow> 0)"

lemma tame_not_deadlocked:
  assumes "list_all tame ts"
  shows "\<not> deadlocked cap (ts, n)"
proof
  assume "deadlocked cap (ts, n)"
  then have stuck: "\<not> can_go cap (taken ts) n t" if "t \<in> set ts" for t
    using that by (auto simp: deadlocked_def list_ex_iff)
  have tame: "tame t" if "t \<in> set ts" for t using assms that by (simp add: list_all_iff)
  define waiting where "waiting = {t \<in> set ts. \<not> done_all t}"
  have "finite waiting" "waiting \<noteq> {}"
    using \<open>deadlocked cap (ts, n)\<close> by (auto simp: waiting_def deadlocked_def finished_def list_all_iff)
  then obtain t where t: "t \<in> waiting" and top: "\<And>u. u \<in> waiting \<Longrightarrow> wanted u \<le> wanted t"
    using Max_ge [of "wanted ` waiting"] Max_in [of "wanted ` waiting"] by fastforce
  have tts: "t \<in> set ts" and busy: "\<not> done_all t" using t by (auto simp: waiting_def)
  obtain l ops where l: "doing t = Acquire l # ops" "l \<in> taken ts"
    using tame_waits [OF tame [OF tts] stuck [OF tts] busy] by blast
  then obtain u where u: "u \<in> set ts" "l \<in> held u" by (auto simp: taken_def)
  then have "\<not> done_all u" using tame tame_holds by blast
  then obtain k ks where k: "doing u = Acquire k # ks" "rank l < rank k"
    using tame_waits [OF tame [OF u(1)] stuck [OF u(1)]] u(2) by metis
  have "wanted u \<le> wanted t" using top u \<open>\<not> done_all u\<close> by (simp add: waiting_def)
  with l k show False by (simp add: wanted_def)
qed

lemma tame_start: "list_all (list_all ordered) css \<Longrightarrow> list_all tame (start_tasks css)"
  by (auto simp: list_all_iff start_tasks_def tame_def)

lemma never_deadlocked:
  assumes "list_all (list_all ordered) css" "wait_run ops_of cap (start_tasks css, n) (ts, m)"
  shows "\<not> deadlocked cap (ts, m)" "\<exists>us k. wait_run ops_of cap (ts, m) (us, k) \<and> finished us"
proof -
  have tame: "list_all tame ts" using tame_run [OF assms(2)] assms(1) by (simp add: tame_start)
  then show "\<not> deadlocked cap (ts, m)" by (rule tame_not_deadlocked)
  from runs_end [of ops_of cap ts m] obtain us k
    where us: "wait_run ops_of cap (ts, m) (us, k)" "finished us \<or> deadlocked cap (us, k)" by blast
  moreover have "list_all tame us" using tame_run [OF us(1)] tame by simp
  ultimately show "\<exists>us k. wait_run ops_of cap (ts, m) (us, k) \<and> finished us"
    using tame_not_deadlocked by blast
qed

end

section \<open>Schedules\<close>

text \<open>One step of a task, if it can make one, and the steps of the tasks named, one after the other.\<close>

fun advance ::
    "('c \<Rightarrow> 'l wait_op list) \<Rightarrow> nat \<Rightarrow> 'l set \<Rightarrow> ('l, 'c) task \<times> nat \<Rightarrow> (('l, 'c) task \<times> nat) option"
where
  "advance ops_of cap used (t, n) =
    (case doing t of
       [] \<Rightarrow> (case to_call t of [] \<Rightarrow> None | c # cs \<Rightarrow> Some (t\<lparr>doing := ops_of c, to_call := cs\<rparr>, n))
     | Acquire l # ops \<Rightarrow>
         if l \<in> used then None else Some (t\<lparr>doing := ops, held := insert l (held t)\<rparr>, n)
     | Release l # ops \<Rightarrow> Some (t\<lparr>doing := ops, held := held t - {l}\<rparr>, n)
     | Put # ops \<Rightarrow> if n < cap then Some (t\<lparr>doing := ops\<rparr>, n + 1) else None
     | Fetch # ops \<Rightarrow> Some (t\<lparr>doing := ops\<rparr>, n - 1))"

fun schedule ::
    "('c \<Rightarrow> 'l wait_op list) \<Rightarrow> nat \<Rightarrow> nat list \<Rightarrow> ('l, 'c) task list \<times> nat \<Rightarrow>
     (('l, 'c) task list \<times> nat) option"
where
  "schedule ops_of cap [] p = Some p"
| "schedule ops_of cap (i # is) (ts, n) =
    (if i < length ts
     then (case advance ops_of cap (taken ts) (ts ! i, n) of
             None \<Rightarrow> None
           | Some (t, m) \<Rightarrow> schedule ops_of cap is (ts[i := t], m))
     else None)"

lemma advance_step: "advance ops_of cap used (t, n) = Some (u, m) \<Longrightarrow> task_step ops_of cap used (t, n) (u, m)"
  by (auto split: list.splits wait_op.splits if_splits
      intro: task_step.intros task_step.puts [simplified] task_step.fetches [simplified])

lemma schedule_run: "schedule ops_of cap is p = Some q \<Longrightarrow> wait_run ops_of cap p q"
proof (induction ops_of cap "is" p rule: schedule.induct)
  case (2 ops_of cap i "is" ts n)
  then obtain t m where t: "i < length ts" "advance ops_of cap (taken ts) (ts ! i, n) = Some (t, m)"
    and rest: "schedule ops_of cap is (ts[i := t], m) = Some q"
    by (auto simp del: advance.simps split: if_splits option.splits)
  have "wait_step ops_of cap (ts, n) (ts[i := t], m)" using t by (intro wait_step.intros advance_step)
  then show ?case using 2(1) [OF t(1,2) refl rest] by (rule converse_rtranclp_into_rtranclp)
qed simp

lemma deadlocked_for_good:
  "wait_run ops_of cap p q \<Longrightarrow> deadlocked cap p \<Longrightarrow> q = p"
  by (induction rule: converse_rtranclp_induct) (auto dest: deadlocked_stuck)

text \<open>
  Tasks can come to a stop: from their start, with \<open>n\<close> messages in the queue, they reach a state
  in which they are not finished and from which there is no step.
\<close>

definition can_deadlock :: "('c \<Rightarrow> 'l wait_op list) \<Rightarrow> nat \<Rightarrow> nat \<Rightarrow> 'c list list \<Rightarrow> bool" where
  "can_deadlock ops_of cap n css =
    (\<exists>p. wait_run ops_of cap (start_tasks css, n) p \<and> deadlocked cap p \<and>
         (\<forall>q. wait_run ops_of cap p q \<longrightarrow> q = p))"

definition deadlock_after :: "('c \<Rightarrow> 'l wait_op list) \<Rightarrow> nat \<Rightarrow> nat \<Rightarrow> nat list \<Rightarrow> 'c list list \<Rightarrow> bool" where
  "deadlock_after ops_of cap n is css =
    (case schedule ops_of cap is (start_tasks css, n) of None \<Rightarrow> False | Some p \<Rightarrow> deadlocked cap p)"

lemma can_deadlockI: "deadlock_after ops_of cap n is css \<Longrightarrow> can_deadlock ops_of cap n css"
  unfolding deadlock_after_def can_deadlock_def
  by (auto split: option.splits intro: schedule_run dest: deadlocked_for_good)

end
