(* ===== verification/Client_Waits.thy ===== *)
theory Client_Waits
  imports Waiting
begin

text \<open>
  What the tasks of a client wait for: the mutexes of \<open>InnerClient\<close> and room in the queue of the
  socket task (\<open>src/client/inner.rs\<close>, \<open>src/client/async_handle.rs\<close>). Only the socket task takes
  messages out of that queue. What the calls do to the state of the client is the matter of the
  other theories; the functions the user configures are taken to return without calling the client.
\<close>

section \<open>The operations of each call\<close>

datatype client_lock = LAnnounced | LPublished | LSubs | LPanic

type_synonym client_op = "client_lock wait_op"

text \<open>The capacity given to the channel of the socket task.\<close>

definition queue_capacity :: nat where
  "queue_capacity = 100"

definition waits_check_task_panic :: "client_op list" where
  "waits_check_task_panic = brief LPanic"

definition waits_send_message :: "client_op list" where
  "waits_send_message = waits_check_task_panic @ [Put]"

definition waits_publish_value :: "client_op list" where
  "waits_publish_value = waits_check_task_panic @ waits_send_message"

text \<open>\<open>announced_topics\<close> stays locked while the value is put into the queue.\<close>

definition waits_update_time :: "bool \<Rightarrow> client_op list" where
  "waits_update_time known = around LAnnounced (if known then waits_publish_value else [])"

text \<open>
  The opening of a connection gives \<open>announced_topics\<close> back before it asks for the time; the other
  two maps stay locked to its end. A server may have unannounced the time topic meanwhile.
\<close>

definition waits_on_open :: "bool \<Rightarrow> client_op list" where
  "waits_on_open known =
    [Acquire LAnnounced, Acquire LPublished, Acquire LSubs, Release LAnnounced] @
    waits_update_time known @ waits_send_message @ [Release LSubs, Release LPublished]"

definition waits_publish_topic :: "client_op list" where
  "waits_publish_topic = waits_send_message @ brief LPublished"

definition waits_subscribe :: "client_op list" where
  "waits_subscribe = waits_send_message @ brief LSubs"

text \<open>A value keeps \<open>announced_topics\<close> locked until the subscribers have it.\<close>

definition waits_handle_value :: "bool \<Rightarrow> client_op list" where
  "waits_handle_value announced = around LAnnounced (if announced then brief LSubs else [])"

section \<open>Calls\<close>

text \<open>
  The socket task: a message of the server (\<open>CAnnounce\<close>, \<open>CUnannounce\<close>, \<open>CValue\<close>, and \<open>CBadTime\<close> for a
  reply to a time request that does not compute), a message of the queue (\<open>CForward\<close>) and the
  opening of a new connection (\<open>CReopen\<close>). The task that asks for the time (\<open>CTick\<close>). The owner: the first opening
  (\<open>CStart\<close>) and the calls of the handle.
\<close>

datatype client_call =
    CAnnounce | CUnannounce | CValue bool | CBadTime bool | CForward | CReopen bool
  | CTick bool
  | CStart bool | CPublishTopic | CUnpublishTopic | CSubscribeTo | CUnsubscribeFrom | CPublishValue
  | CUseAnnounced

fun client_waits :: "client_call \<Rightarrow> client_op list" where
  "client_waits CAnnounce = brief LAnnounced"
| "client_waits CUnannounce = brief LAnnounced"
| "client_waits (CValue announced) = waits_handle_value announced"
| "client_waits (CBadTime known) = waits_update_time known"
| "client_waits CForward = [Fetch]"
| "client_waits (CReopen known) = waits_on_open known"
| "client_waits (CTick known) = waits_update_time known"
| "client_waits (CStart known) = waits_on_open known"
| "client_waits CPublishTopic = waits_publish_topic"
| "client_waits CUnpublishTopic = waits_send_message"
| "client_waits CSubscribeTo = waits_subscribe"
| "client_waits CUnsubscribeFrom = waits_subscribe"
| "client_waits CPublishValue = waits_publish_value"
| "client_waits CUseAnnounced = brief LAnnounced"

lemmas waits_defs =
  waits_check_task_panic_def waits_send_message_def waits_publish_value_def waits_update_time_def
  waits_on_open_def waits_publish_topic_def waits_subscribe_def waits_handle_value_def
  brief_def around_def

text \<open>The calls the socket task makes, and those other tasks make once the client has started.\<close>

fun socket_call :: "client_call \<Rightarrow> bool" where
  "socket_call CAnnounce = True"
| "socket_call CUnannounce = True"
| "socket_call (CValue _) = True"
| "socket_call (CBadTime _) = True"
| "socket_call CForward = True"
| "socket_call (CReopen _) = True"
| "socket_call _ = False"

fun started_call :: "client_call \<Rightarrow> bool" where
  "started_call (CStart _) = False"
| "started_call c = (\<not> socket_call c)"

section \<open>One task that leads\<close>

text \<open>
  A call is \<open>patient\<close> when it never takes a lock it holds, waits for nothing while it holds the lock
  \<open>leaf\<close>, and gives all its locks back. If \<open>single\<close>, it takes no lock but \<open>leaf\<close> while it holds one.
\<close>

fun patient :: "bool \<Rightarrow> 'l \<Rightarrow> 'l set \<Rightarrow> 'l wait_op list \<Rightarrow> bool" where
  "patient single leaf H [] = (H = {})"
| "patient single leaf H (Acquire l # ops) =
    (l \<notin> H \<and> leaf \<notin> H \<and> (single \<longrightarrow> H = {} \<or> l = leaf) \<and> patient single leaf (insert l H) ops)"
| "patient single leaf H (Release l # ops) = patient single leaf (H - {l}) ops"
| "patient single leaf H (Put # ops) = (leaf \<notin> H \<and> patient single leaf H ops)"
| "patient single leaf H (Fetch # ops) = (leaf \<notin> H \<and> patient single leaf H ops)"

definition puts :: "'l wait_op list \<Rightarrow> nat" where
  "puts ops = length (filter (\<lambda>a. a = Put) ops)"

definition puts_left :: "('c \<Rightarrow> 'l wait_op list) \<Rightarrow> ('l, 'c) task \<Rightarrow> nat" where
  "puts_left ops_of t = puts (doing t) + sum_list (map (\<lambda>c. puts (ops_of c)) (to_call t))"

definition has_room :: "('c \<Rightarrow> 'l wait_op list) \<Rightarrow> nat \<Rightarrow> ('l, 'c) task list \<times> nat \<Rightarrow> bool" where
  "has_room ops_of cap = (\<lambda>(ts, n). n + sum_list (map (puts_left ops_of) ts) \<le> cap)"

lemma puts_simps [simp]:
  "puts [] = 0" "puts (Put # ops) = Suc (puts ops)" "puts (Fetch # ops) = puts ops"
  "puts (Acquire l # ops) = puts ops" "puts (Release l # ops) = puts ops"
  "puts (ops @ ops') = puts ops + puts ops'"
  by (simp_all add: puts_def)

lemma task_step_room:
  "task_step ops_of cap used (t, n) (u, m) \<Longrightarrow> m + puts_left ops_of u \<le> n + puts_left ops_of t"
  by (auto simp: puts_left_def elim!: task_stepE)

lemma has_room_step:
  assumes "wait_step ops_of cap (ts, n) (us, m)" "has_room ops_of cap (ts, n)"
  shows "has_room ops_of cap (us, m)"
  using assms(1)
proof (elim wait_stepE)
  fix i t k
  assume i: "i < length ts" and step: "task_step ops_of cap (taken ts) (ts ! i, n) (t, k)"
    and us: "(us, m) = (ts[i := t], k)"
  have "puts_left ops_of (ts ! i) \<le> sum_list (map (puts_left ops_of) ts)"
    using i by (simp add: member_le_sum_list)
  then show ?thesis
    using task_step_room [OF step] assms(2) i us
    by (simp add: has_room_def map_update sum_list_update)
qed

text \<open>
  A task whose calls are patient, and others that moreover hold one lock at a time, do not deadlock
  while the queue has room: nobody waits with \<open>leaf\<close> in hand, so no follower waits with a lock in
  hand, so the leader does not wait.
\<close>

locale led_calls =
  fixes ops_of :: "'c \<Rightarrow> 'l wait_op list" and leaf :: 'l and lead follow :: "'c \<Rightarrow> bool"
  assumes lead_patient: "lead c \<Longrightarrow> patient False leaf {} (ops_of c)"
    and follow_patient: "follow c \<Longrightarrow> patient True leaf {} (ops_of c)"
begin

definition leads :: "('l, 'c) task \<Rightarrow> bool" where
  "leads t = (patient False leaf (held t) (doing t) \<and> list_all lead (to_call t))"

definition follows :: "('l, 'c) task \<Rightarrow> bool" where
  "follows t = (patient True leaf (held t) (doing t) \<and> list_all follow (to_call t))"

fun led :: "('l, 'c) task list \<Rightarrow> bool" where
  "led [] = False"
| "led (t # us) = (leads t \<and> list_all follows us)"

lemma leads_step: "leads t \<Longrightarrow> task_step ops_of cap used (t, n) (u, m) \<Longrightarrow> leads u"
  by (auto simp: leads_def lead_patient elim!: task_stepE)

lemma follows_step: "follows t \<Longrightarrow> task_step ops_of cap used (t, n) (u, m) \<Longrightarrow> follows u"
  by (auto simp: follows_def follow_patient elim!: task_stepE)

lemma led_step: "wait_step ops_of cap (ts, n) (us, m) \<Longrightarrow> led ts \<Longrightarrow> led us"
proof (elim wait_stepE)
  fix i u k
  assume led: "led ts" and i: "i < length ts" and us: "(us, m) = (ts[i := u], k)"
    and step: "task_step ops_of cap (taken ts) (ts ! i, n) (u, k)"
  obtain t ss where ts: "ts = t # ss" "leads t" "list_all follows ss" using led by (cases ts) auto
  show "led us"
  proof (cases i)
    case 0
    then show ?thesis using us ts leads_step step by auto
  next
    case (Suc j)
    then have "follows (ss ! j)" using i ts by (simp add: list_all_length)
    then have "follows u" using follows_step step ts Suc by auto
    then show ?thesis using us ts Suc
      by (auto simp: list_all_iff dest!: set_update_subset_insert [THEN subsetD])
  qed
qed

lemma led_run: "wait_run ops_of cap p q \<Longrightarrow> led (fst p) \<Longrightarrow> led (fst q)"
  by (induction rule: rtranclp_induct) (auto dest: led_step)

lemma led_start:
  "list_all lead cs \<Longrightarrow> list_all (list_all follow) css \<Longrightarrow> led (start_tasks (cs # css))"
  by (auto simp: start_tasks_def leads_def follows_def list_all_iff)

lemma stuck_in_room:
  assumes "list_all (\<lambda>t. \<not> can_go cap (taken ts) n t) ts" "has_room ops_of cap (ts, n)"
    and "t \<in> set ts" "patient single leaf (held t) (doing t)" "held t \<noteq> {}"
  obtains l ops where "doing t = Acquire l # ops" "l \<in> taken ts" "leaf \<notin> held t" "l \<notin> held t"
    and "single \<Longrightarrow> l = leaf"
proof -
  have stuck: "\<not> can_do cap (taken ts) n (doing t)"
    using assms(1,3) by (auto simp: list_all_iff can_go_def)
  have "puts_left ops_of t \<le> sum_list (map (puts_left ops_of) ts)"
    using assms(3) by (simp add: member_le_sum_list)
  then have room: "n + puts (doing t) \<le> cap"
    using assms(2) by (simp add: has_room_def puts_left_def)
  show thesis
  proof (cases "doing t")
    case Nil
    then show thesis using assms(4,5) by simp
  next
    case (Cons a ops)
    then show thesis using stuck room assms(4,5) by (cases a) (auto intro: that)
  qed
qed

lemma led_not_deadlocked:
  assumes "led ts" "has_room ops_of cap (ts, n)"
  shows "\<not> deadlocked cap (ts, n)"
proof
  assume dead: "deadlocked cap (ts, n)"
  then have stuck: "list_all (\<lambda>t. \<not> can_go cap (taken ts) n t) ts"
    by (auto simp: deadlocked_def list_ex_iff list_all_iff)
  obtain t us where ts: "ts = t # us" "leads t" "list_all follows us" using assms(1) by (cases ts) auto
  have patient: "\<exists>single. patient single leaf (held v) (doing v)" if "v \<in> set ts" for v
    using that ts by (auto simp: list_all_iff leads_def follows_def)
  have no_leaf: "leaf \<notin> taken ts"
  proof
    assume "leaf \<in> taken ts"
    then obtain v where "v \<in> set ts" "leaf \<in> held v" by (auto simp: taken_def)
    then show False using stuck_in_room [OF stuck assms(2)] patient by (metis empty_iff)
  qed
  have idle: "held u = {}" if "u \<in> set us" for u
  proof (rule ccontr)
    assume "held u \<noteq> {}"
    moreover have "patient True leaf (held u) (doing u)" "u \<in> set ts"
      using that ts by (auto simp: list_all_iff follows_def)
    ultimately show False using stuck_in_room [OF stuck assms(2)] no_leaf by metis
  qed
  then have "taken ts = held t" by (auto simp: taken_def ts(1))
  moreover have "held t = {}"
    using stuck_in_room [OF stuck assms(2), of t False] ts \<open>taken ts = held t\<close>
    by (metis leads_def list.set_intros(1))
  ultimately have free: "taken ts = {}" by simp
  obtain v where v: "v \<in> set ts" "\<not> done_all v"
    using dead by (auto simp: deadlocked_def finished_def list_all_iff)
  have "puts_left ops_of v \<le> sum_list (map (puts_left ops_of) ts)"
    using v by (simp add: member_le_sum_list)
  then have room: "n + puts (doing v) \<le> cap"
    using assms(2) by (simp add: has_room_def puts_left_def)
  have "can_go cap {} n v"
  proof (cases "doing v")
    case (Cons a ops)
    then show ?thesis using room by (cases a) (auto simp: can_go_def)
  qed (use v in \<open>auto simp: can_go_def done_all_def\<close>)
  then show False using stuck v free by (auto simp: list_all_iff)
qed

lemma room_to_the_end:
  assumes "list_all lead cs" "list_all (list_all follow) css"
    and "has_room ops_of cap (start_tasks (cs # css), n)"
    and run: "wait_run ops_of cap (start_tasks (cs # css), n) (ts, m)"
  shows "\<not> deadlocked cap (ts, m)" "\<exists>us k. wait_run ops_of cap (ts, m) (us, k) \<and> finished us"
proof -
  have led: "led ts" using led_run [OF run] led_start assms(1,2) by simp
  have room: "has_room ops_of cap q" if "wait_run ops_of cap p q" "has_room ops_of cap p" for p q
    using that by (induction rule: rtranclp_induct) (auto dest: has_room_step)
  show "\<not> deadlocked cap (ts, m)" using led_not_deadlocked led room [OF run assms(3)] by blast
  from runs_end [of ops_of cap ts m] obtain us k
    where us: "wait_run ops_of cap (ts, m) (us, k)" "finished us \<or> deadlocked cap (us, k)" by blast
  moreover have "\<not> deadlocked cap (us, k)"
    using led_not_deadlocked led_run [OF us(1)] led room [OF us(1)] room [OF run assms(3)] by simp
  ultimately show "\<exists>us k. wait_run ops_of cap (ts, m) (us, k) \<and> finished us" by blast
qed

end

interpretation client_calls: led_calls client_waits LPanic socket_call started_call
proof unfold_locales
  fix c assume "socket_call c"
  then show "patient False LPanic {} (client_waits c)"
    by (cases c) (auto simp: waits_defs insert_Diff_if)
next
  fix c assume "started_call c"
  then show "patient True LPanic {} (client_waits c)"
    by (cases c) (auto simp: waits_defs insert_Diff_if)
qed

section \<open>Properties\<close>

text \<open>
  C19. A client whose queue has room for all that its tasks still put into it never gets stuck: however
  the socket task, the task that asks for the time and the owner's calls interleave and fail, once
  the client has started, they never deadlock and can finish from every state they reach. A full queue is thus
  the only reason for which a started client can stop.
\<close>

theorem client_with_room_finishes:
  assumes "list_all socket_call cs" "list_all (list_all started_call) css"
    and "has_room client_waits queue_capacity (start_tasks (cs # css), n)"
    and "wait_run client_waits queue_capacity (start_tasks (cs # css), n) (ts, m)"
  shows "\<not> deadlocked queue_capacity (ts, m) \<and>
    (\<exists>us k. wait_run client_waits queue_capacity (ts, m) (us, k) \<and> finished us)"
  using client_calls.room_to_the_end [OF assms] by simp

lemma client_with_room_finishes_witness:
  "let ts = start_tasks [[CReopen True, CForward, CValue True], [CTick True], [CPublishTopic, CPublishValue]]
   in \<not> finished ts \<and>
      (\<exists>us k. wait_run client_waits queue_capacity (ts, 95) (us, k) \<and> finished us)"
proof -
  let ?cs = "[CReopen True, CForward, CValue True]" and ?css = "[[CTick True], [CPublishTopic, CPublishValue]]"
  let ?ts = "start_tasks (?cs # ?css) :: (client_lock, client_call) task list"
  have "has_room client_waits queue_capacity (?ts, 95)"
    by (simp add: has_room_def start_tasks_def puts_left_def waits_defs queue_capacity_def)
  moreover have "wait_run client_waits queue_capacity (?ts, 95) (?ts, 95)" by simp
  ultimately have "\<exists>us k. wait_run client_waits queue_capacity (?ts, 95) (us, k) \<and> finished us"
    using client_with_room_finishes [of ?cs ?css 95 ?ts 95] by simp
  then show ?thesis by (simp add: Let_def finished_def start_tasks_def done_all_def)
qed

section \<open>Deadlocks\<close>

text \<open>A client whose queue is empty and whose tasks make these calls can stop for good.\<close>

definition client_can_stop :: "client_call list list \<Rightarrow> bool" where
  "client_can_stop css = can_deadlock client_waits queue_capacity 0 css"

lemma client_can_stopI: "deadlock_after client_waits queue_capacity 0 is css \<Longrightarrow> client_can_stop css"
  unfolding client_can_stop_def by (rule can_deadlockI)

lemma reopening_stops: "client_can_stop [[CReopen True], [CTick True], replicate 101 CPublishValue]"
  by (rule client_can_stopI [of "replicate 605 2 @ replicate 10 0 @ [1]"]) code_simp

lemma announcement_stops: "client_can_stop [[CAnnounce], [CTick True], replicate 100 CPublishValue]"
  by (rule client_can_stopI [of "replicate 600 2 @ replicate 6 1 @ [0]"]) code_simp

lemma bad_time_stops: "client_can_stop [[CBadTime True], [], replicate 100 CPublishValue]"
  by (rule client_can_stopI [of "replicate 600 2 @ replicate 6 0"]) code_simp

lemma start_stops: "client_can_stop [[CAnnounce, CValue True], [], [CStart True]]"
  by (rule client_can_stopI [of "replicate 5 2 @ replicate 5 0"]) code_simp

text \<open>
  C18. A client can stop for good. The socket task alone takes messages out of its queue, and it
  waits on it: when it opens a new connection, or asks for the time again after a reply that does
  not compute, while an owner has filled the queue, all tasks wait for the socket task and it waits
  for room. It also waits for \<open>announced_topics\<close>, to take an announcement, while the task that asks
  for the time holds that map and waits for room. With an empty queue, a server that announces a
  topic and sends its value before it has the subscriptions stops the start of a client, since the
  opening and the value take the two maps in opposite orders.
\<close>

theorem client_deadlocks:
  "client_can_stop [[CReopen True], [CTick True], replicate 101 CPublishValue] \<and>
   client_can_stop [[CBadTime True], [], replicate 100 CPublishValue] \<and>
   client_can_stop [[CAnnounce], [CTick True], replicate 100 CPublishValue] \<and>
   client_can_stop [[CAnnounce, CValue True], [], [CStart True]]"
  by (intro conjI reopening_stops bad_time_stops announcement_stops start_stops)

end
