(* ===== verification/Locks.thy ===== *)
theory Locks
  imports Waiting
begin

text \<open>
  The locks of the server. Each map of \<open>InnerServer\<close> (\<open>src/server/inner.rs\<close>) has its own mutex,
  and the calls of the parser, of the sender and of the owner take several of them, one after the
  other. A call is modelled by the locks it takes and gives back, in order, on each of its branches;
  a task is a sequence of calls, and tasks interleave freely. What the calls do to the maps is the
  matter of the other theories. Waiting for room in the queue of a client is not modelled.
\<close>

section \<open>The locks of each call\<close>

datatype lock =
    LTopics | LSubscriptions | LSubValues | LSubSendTimestamps | LClients | LCounters | LTopicSubMap
  | LClientMap | LClientMetatopicMap | LTopicValueMap | LMetatopicValueMap | LTopicMap | LPubCount

type_synonym lock_op = "lock wait_op"

text \<open>
  \<open>add_topic\<close> for one name, known or not; \<open>announce_topic\<close>, with a reply to the publisher or
  without; and \<open>add_topic\<close> with the metatopics it brings along (\<open>None\<close>: the name is known or that
  of a metatopic itself).
\<close>

definition locks_add_one :: "bool \<Rightarrow> lock_op list" where
  "locks_add_one known =
    brief LTopicMap @
    (if known then []
     else around LTopics (brief LCounters) @ brief LPubCount @ brief LTopicMap @ brief LTopicSubMap)"

definition locks_announce_topic :: "bool \<Rightarrow> lock_op list" where
  "locks_announce_topic reply =
    around LTopics (if reply then brief LClients else []) @ brief LSubscriptions @ brief LClients"

definition locks_add_topic :: "bool \<Rightarrow> (bool \<times> bool) option \<Rightarrow> lock_op list" where
  "locks_add_topic known metas =
    locks_add_one known @
    (case metas of
       None \<Rightarrow> []
     | Some (pub_known, sub_known) \<Rightarrow>
         locks_add_one pub_known @ locks_announce_topic False @
         locks_add_one sub_known @ locks_announce_topic False)"

text \<open>The end of publishing and unpublishing: the metatopic of the server, or of the client.\<close>

definition locks_publisher_metatopic :: "bool \<Rightarrow> lock_op list" where
  "locks_publisher_metatopic by_server =
    (if by_server then brief LMetatopicValueMap else around LClientMetatopicMap (brief LMetatopicValueMap))"

definition locks_inner_publish_topic :: "bool \<Rightarrow> bool \<Rightarrow> (bool \<times> bool) option \<Rightarrow> lock_op list" where
  "locks_inner_publish_topic by_server known metas =
    locks_add_topic known metas @ locks_announce_topic True @ brief LClients @
    locks_publisher_metatopic by_server"

definition locks_remove_topic :: "lock_op list" where
  "locks_remove_topic =
    [Acquire LTopics, Acquire LTopicMap, Release LTopics, Release LTopicMap] @
    around LTopicSubMap (around LTopicValueMap (brief LMetatopicValueMap))"

definition locks_inner_unpublish_topic :: "bool \<Rightarrow> bool \<Rightarrow> lock_op list" where
  "locks_inner_unpublish_topic by_server last_one =
    around LClients (brief LTopics) @
    around LPubCount ((if last_one then locks_remove_topic else []) @ locks_publisher_metatopic by_server)"

definition locks_subscribe :: "lock_op list" where
  "locks_subscribe =
    around LClients (around LTopicMap (around LTopicSubMap (around LTopicValueMap
      (brief LCounters @
       around LTopics (brief LSubSendTimestamps @ brief LSubValues @ brief LSubscriptions)))))"

definition locks_unsubscribe :: "lock_op list" where
  "locks_unsubscribe =
    around LClients (around LTopicSubMap (brief LSubscriptions @ brief LSubValues @ brief LSubSendTimestamps))"

definition locks_set_properties :: "lock_op list" where
  "locks_set_properties = brief LTopicMap @ brief LTopics"

definition locks_set_value :: "lock_op list" where
  "locks_set_value = brief LTopics @ around LSubValues (brief LTopicSubMap) @ brief LTopicValueMap"

text \<open>A binary message: the parser holds the clients while it sets every value in it.\<close>

definition locks_binary :: "nat \<Rightarrow> lock_op list" where
  "locks_binary n = around LClients (concat (replicate n locks_set_value))"

definition locks_connect_client :: "bool \<Rightarrow> bool \<Rightarrow> lock_op list" where
  "locks_connect_client pub_known sub_known =
    brief LClientMap @
    [Acquire LClients, Acquire LCounters] @ brief LClientMap @ brief LMetatopicValueMap @
    [Release LClients, Release LCounters] @
    locks_add_topic pub_known None @ locks_add_topic sub_known None @ brief LClientMetatopicMap"

text \<open>For each publisher of the client: whether it was the last one of its topic.\<close>

definition locks_disconnect_client :: "bool list \<Rightarrow> lock_op list" where
  "locks_disconnect_client publishers =
    brief LClientMap @
    around LClients
      (concat (map (\<lambda>last_one. around LPubCount (if last_one then locks_remove_topic else [])) publishers) @
       brief LClientMetatopicMap @ locks_remove_topic @ locks_remove_topic)"

text \<open>A turn of the sender: without subscriptions it gives the one lock back and sleeps.\<close>

definition locks_send_out :: "bool \<Rightarrow> lock_op list" where
  "locks_send_out idle =
    (if idle then brief LSubscriptions
     else [Acquire LSubscriptions, Acquire LSubValues, Acquire LSubSendTimestamps, Acquire LClients,
           Release LSubscriptions, Release LSubSendTimestamps, Release LSubValues, Release LClients])"

section \<open>Calls\<close>

text \<open>
  What the tasks of a server call: the owner's handle (\<open>COwnerPublish\<close>, \<open>CSetValue\<close>, \<open>CGetValue\<close>,
  \<open>CNames\<close>, \<open>CFlush\<close>, \<open>CSetProperties\<close>), the connection handler (\<open>CConnect\<close>), the sender (\<open>CSendOut\<close>)
  and the parser (the messages of the clients).
\<close>

datatype call =
    CPublish bool bool "(bool \<times> bool) option"
  | COwnerPublish bool "(bool \<times> bool) option"
  | CSetValue | CSetProperties | CGetValue | CNames | CFlush | CConnect bool bool | CSendOut bool
  | CUnpublish bool bool | CSubscribe | CUnsubscribe | CBinary nat | CDisconnect "bool list"

fun locks_of :: "call \<Rightarrow> lock_op list" where
  "locks_of (CPublish by_server known metas) = locks_inner_publish_topic by_server known metas"
| "locks_of (COwnerPublish known metas) = locks_inner_publish_topic True known metas @ locks_set_value"
| "locks_of CSetValue = brief LTopicMap @ locks_set_value"
| "locks_of CSetProperties = locks_set_properties"
| "locks_of CGetValue = brief LTopicMap @ brief LTopicValueMap"
| "locks_of CNames = brief LTopicMap"
| "locks_of CFlush = brief LClients"
| "locks_of (CConnect pub_known sub_known) = locks_connect_client pub_known sub_known"
| "locks_of (CSendOut idle) = locks_send_out idle"
| "locks_of (CUnpublish by_server last_one) = locks_inner_unpublish_topic by_server last_one"
| "locks_of CSubscribe = locks_subscribe"
| "locks_of CUnsubscribe = locks_unsubscribe"
| "locks_of (CBinary n) = locks_binary n"
| "locks_of (CDisconnect publishers) = locks_disconnect_client publishers"

section \<open>Calls in one order\<close>

text \<open>The tasks wait for the mutexes only: the queue has no part in the calls.\<close>

abbreviation lock_step :: "(lock, call) task list \<times> nat \<Rightarrow> (lock, call) task list \<times> nat \<Rightarrow> bool" where
  "lock_step \<equiv> wait_step locks_of 0"

abbreviation lock_run :: "(lock, call) task list \<times> nat \<Rightarrow> (lock, call) task list \<times> nat \<Rightarrow> bool" where
  "lock_run \<equiv> wait_run locks_of 0"

text \<open>
  The order most calls keep: the owner's, the sender's, connecting, publishing and setting
  properties. Subscribing, unsubscribing, unpublishing, disconnecting and value messages do not.
\<close>

fun lock_rank :: "lock \<Rightarrow> nat" where
  "lock_rank LTopics = 0"
| "lock_rank LSubscriptions = 1"
| "lock_rank LSubValues = 2"
| "lock_rank LSubSendTimestamps = 3"
| "lock_rank LClients = 4"
| "lock_rank LCounters = 5"
| "lock_rank LTopicSubMap = 6"
| "lock_rank LClientMap = 7"
| "lock_rank LClientMetatopicMap = 8"
| "lock_rank LTopicValueMap = 9"
| "lock_rank LMetatopicValueMap = 10"
| "lock_rank LTopicMap = 11"
| "lock_rank LPubCount = 12"

fun keeps_order :: "call \<Rightarrow> bool" where
  "keeps_order (CUnpublish _ _) = False"
| "keeps_order CSubscribe = False"
| "keeps_order CUnsubscribe = False"
| "keeps_order (CBinary n) = (n = 0)"
| "keeps_order (CDisconnect _) = False"
| "keeps_order _ = True"

lemmas lock_order_defs =
  locks_add_one_def locks_announce_topic_def locks_add_topic_def locks_publisher_metatopic_def
  locks_inner_publish_topic_def locks_set_properties_def locks_set_value_def locks_binary_def
  locks_connect_client_def locks_send_out_def brief_def around_def

interpretation locks: ranked_calls locks_of lock_rank keeps_order
proof unfold_locales
  fix c assume "keeps_order c"
  then show "climbs lock_rank {} (locks_of c)"
    by (cases c) (auto simp: lock_order_defs insert_Diff_if split: option.splits)
qed

section \<open>Deadlocks\<close>

text \<open>The calls of two tasks that stop each other for good.\<close>

definition deadlock_each_other :: "call \<Rightarrow> call \<Rightarrow> bool" where
  "deadlock_each_other c d = can_deadlock locks_of 0 0 [[c], [d]]"

lemma deadlock_each_otherI: "deadlock_after locks_of 0 0 is [[c], [d]] \<Longrightarrow> deadlock_each_other c d"
  unfolding deadlock_each_other_def by (rule can_deadlockI)

lemma send_out_subscribe: "deadlock_each_other (CSendOut False) CSubscribe"
  by (rule deadlock_each_otherI [of "[0, 0, 0, 0, 1, 1, 1, 1, 1, 1, 1, 1]"]) code_simp

lemma send_out_unsubscribe: "deadlock_each_other (CSendOut False) CUnsubscribe"
  by (rule deadlock_each_otherI [of "[0, 0, 0, 0, 1, 1, 1]"]) code_simp

lemma send_out_binary: "deadlock_each_other (CSendOut False) (CBinary 1)"
  by (rule deadlock_each_otherI [of "[0, 0, 0, 0, 1, 1, 1, 1]"]) code_simp

lemma publish_subscribe: "deadlock_each_other (COwnerPublish True None) CSubscribe"
  by (rule deadlock_each_otherI [of "[0, 0, 0, 0, 1, 1, 1, 1, 1, 1, 1]"]) code_simp

lemma publish_unpublish: "deadlock_each_other (COwnerPublish True None) (CUnpublish False True)"
  by (rule deadlock_each_otherI [of "[0, 0, 0, 0, 1, 1]"]) code_simp

lemma publish_binary: "deadlock_each_other (COwnerPublish True None) (CBinary 1)"
  by (rule deadlock_each_otherI [of "[0, 0, 0, 0, 1, 1]"]) code_simp

section \<open>Properties\<close>

text \<open>
  C17. However many tasks publish, set values and properties, read, list, flush, connect clients and
  send values to subscribers, and however their operations on the mutexes interleave and fail,
  they never deadlock: from every state they reach, all of them can finish, and no run is longer
  than the work they start with. All these calls take the mutexes in one order.
\<close>

theorem ordered_calls_finish:
  assumes "list_all (list_all keeps_order) css" "(lock_step ^^ k) (start_tasks css, 0) (ts, n)"
  shows "\<not> deadlocked 0 (ts, n) \<and> (\<exists>us m. lock_run (ts, n) (us, m) \<and> finished us) \<and>
    k \<le> wait_work locks_of (start_tasks css)"
  using locks.never_deadlocked [OF assms(1) relpowp_imp_rtranclp [OF assms(2)]]
    run_length [OF assms(2)] by simp

lemma ordered_calls_finish_witness:
  "let css = [[COwnerPublish False (Some (False, False)), CFlush], [CSendOut False], [CConnect False False]];
       ts = start_tasks css
   in \<not> finished ts \<and> (\<exists>us m. lock_run (ts, 0) (us, m) \<and> finished us)"
proof -
  let ?css = "[[COwnerPublish False (Some (False, False)), CFlush], [CSendOut False], [CConnect False False]]"
  have "list_all (list_all keeps_order) ?css" by simp
  moreover have "(lock_step ^^ 0) (start_tasks ?css, 0) (start_tasks ?css, 0)" by simp
  ultimately have "\<exists>us m. lock_run (start_tasks ?css, 0) (us, m) \<and> finished us"
    using ordered_calls_finish by blast
  then show ?thesis by (simp add: Let_def finished_def start_tasks_def done_all_def)
qed

text \<open>
  C16. The calls made for the clients' messages take the mutexes in other orders. The sender and the
  parser stop each other for good when the parser subscribes, unsubscribes or sets the values of a
  binary message while a turn of the sender takes its locks; so do the owner, when it publishes a
  topic, and the parser, when it subscribes, unpublishes or sets values.
\<close>

theorem calls_deadlock:
  "deadlock_each_other (CSendOut False) CSubscribe \<and> deadlock_each_other (CSendOut False) CUnsubscribe \<and>
   deadlock_each_other (CSendOut False) (CBinary 1) \<and> deadlock_each_other (COwnerPublish True None) CSubscribe \<and>
   deadlock_each_other (COwnerPublish True None) (CUnpublish False True) \<and>
   deadlock_each_other (COwnerPublish True None) (CBinary 1)"
  by (simp add: send_out_subscribe send_out_unsubscribe send_out_binary publish_subscribe
      publish_unpublish publish_binary del: One_nat_def)

end
