(* ===== verification/Spec2Isabelle.thy ===== *)
theory Spec2Isabelle
  imports Wire_Sample Client_Properties Value_Properties Server_Board Server_Lifecycle Handshake Server_Races Client_Waits Locks
begin

text \<open>
  A model of \<open>frclib-nettables\<close>, an implementation of the NetworkTables protocol in Rust: a
  server that keeps topics with their values and hands them on to subscribers, and a client.

  \<^bold>\<open>The program.\<close> \<open>src/spec\<close> holds what both sides share: the messages (\<open>messages.rs\<close>), topics
  and subscriptions, the values of metatopics, and the codes of value types. \<open>src/server/inner.rs\<close>
  is the registry of the server, a set of maps, each behind a lock. \<open>src/server/runner.rs\<close> holds
  the tasks around it: one accepts connections, each connection has an incoming and an outgoing
  side, one parser takes the messages of all clients, one sender empties the stores of the
  subscriptions. \<open>src/server/handles.rs\<close> is what the owner of the server calls. \<open>src/client\<close> is the
  other side: a handle for the user (\<open>async_handle.rs\<close>), its state and its socket task
  (\<open>inner.rs\<close>). \<open>src/bimap.rs\<close> and \<open>src/server/util.rs\<close> are helpers of the server.

  \<^bold>\<open>How it is modelled.\<close> A method is an action: a function from the state to an outcome
  (a value, an error or a panic) and the state it leaves, also when it fails (\<open>Prelude\<close>). Hash maps
  are association lists, the list being the order in which the code happens to iterate; machine
  integers are words; an overflow of a plain \<open>+\<close> or \<open>-\<close> is a panic, as in a debug build.
  Channels, kill switches and the \<open>Arc\<close>s of subscriptions are references into the state. The code
  of other crates (JSON, MessagePack, the values of \<open>frclib_core\<close>) is the record \<open>ext\<close> of
  \<open>Externals\<close>, an argument \<open>E\<close> of every definition that calls it; what is assumed of it has names:
  \<open>json_laws\<close>, \<open>rmp_total\<close>, \<open>rmpv_consumes\<close>, \<open>msgpack_laws\<close>, \<open>speaks\<close>, \<open>understands\<close> and, for
  the accept key of a handshake, \<open>websocket_laws\<close>; \<open>Sample\<close>, \<open>Wire_Sample\<close> and \<open>Handshake\<close> give instances
  that satisfy them.

  \<^bold>\<open>Shared parts.\<close> \<open>Messages\<close>, \<open>Metatopic\<close>, \<open>Frc_Types\<close>, \<open>Values\<close>: the data and its bytes.
  \<open>Bimap\<close>, \<open>Server_Util\<close>: the two-way map, identities, counters and stores. Their properties are
  in the same theories.

  \<^bold>\<open>The server.\<close> \<open>Server_State\<close> (the fields of \<open>InnerServer\<close> and sending), \<open>Server_Topics\<close> (adding,
  removing, announcing), \<open>Server_Ops\<close> (start, connections, publishers), \<open>Server_Subs\<close>
  (subscriptions, properties, values), \<open>Server_Runner\<close> (parser, sender, connection tasks),
  \<open>Server_Handles\<close>. \<open>Server_Invariant\<close> states what every operation keeps; \<open>Server_Preserves\<close>,
  \<open>Server_Safety\<close> and \<open>Server_Ids\<close> prove it, through locales for predicates that do not look at
  clients or at the registry; \<open>Server_Runs\<close> defines the reachable states, with a locale that takes a
  predicate from the operations to every run. \<open>Server_Metatopics\<close> reuses these locales to type the values
  of metatopics: each keeps one kind of entries. \<open>Server_Board\<close> states the contract of the server to its users,
  a board of names and newest values, and a locale for predicates of names and values (\<open>registry_view\<close>,
  with \<open>Server_Frames\<close> for what subscribing leaves alone) shows that every step refines it. \<open>Server_Registry\<close>,
  \<open>Server_Announce\<close>, \<open>Server_Subscribing\<close>, \<open>Server_Publishing\<close>, \<open>Server_Connecting\<close> and
  \<open>Server_Sending\<close> say what each operation does, \<open>Registry_Properties\<close> and \<open>Value_Properties\<close>
  state the properties, with the examples of \<open>Sample_Runs\<close>. \<open>Server_Lifecycle\<close> puts the two halves of a
  connection together, from its opening to its close message, and the parser into its loop.

  \<^bold>\<open>What is not one step.\<close> In the theories so far a call is one step. \<open>Server_Races\<close> splits the adding of
  a topic into its lookup and its registration, by several tasks. \<open>Waiting\<close> has tasks that wait for mutexes
  and for room in a queue, with a locale for calls that take locks in one order; \<open>Locks\<close> gives the
  mutexes each call of the server takes, \<open>Client_Waits\<close> those of the client and its messages for the
  socket task, with a locale for one task that leads others. Both prove which calls never deadlock,
  and schedules show which others do.

  \<^bold>\<open>The client.\<close> \<open>Client_State\<close> (the fields of \<open>InnerClient\<close>, clocks, identifiers), \<open>Client_Ops\<close>
  (values, the opening of a connection, the calls of the user), \<open>Client_Socket\<close> (messages of the
  server, lost connections, a turn of the socket task). \<open>Client_Invariant\<close> and \<open>Client_Runs\<close> prove
  the invariant, with a locale for predicates that the socket task cannot touch; \<open>Client_Delivery\<close>,
  \<open>Client_Connection\<close> and \<open>Client_Ids\<close> say what the operations do; \<open>Client_Properties\<close> states the
  properties. \<open>Msgpack\<close>, \<open>Wire\<close> and \<open>Handshake\<close> put both sides together, and so do the
  properties of this theory.

  \<^bold>\<open>Fuel and bounds.\<close> The loops that read MessagePack values get one unit of fuel more than there
  are bytes, and a value takes at least one byte, so the fuel is never used up. A reconnection
  has a list of attempts; when none succeeds there is no result, as the code then never returns.
  The sender is modelled one turn at a time, the time it sleeps being its result.

  The queue of the client's socket task has room for 100 messages, as in the code, in \<open>Client_Waits\<close>.

  \<^bold>\<open>Not modelled.\<close> The tokio runtime, its timers and the sockets themselves. Outside \<open>Client_Waits\<close> a
  send to a full channel, which waits for room in the code, has room; outside \<open>Server_Races\<close>,
  \<open>Locks\<close> and \<open>Client_Waits\<close> no call sees another half done. Logging. The hash that makes the uid of a client
  handle; that of a server handle is a parameter. A user who keeps a second reference to the data of a stream. The last iteration order of a hash
  map. \<open>src/server/config.rs\<close> and the callbacks of both configurations, whose calls are recorded
  as events. At this commit the type of a topic is a \<open>String\<close> in \<open>src/spec\<close> and an \<open>FrcType\<close> where
  the handles and the client fill it in; each file is modelled at the type it uses, and \<open>speaks\<close>
  says how one side reads the other.
\<close>

section \<open>Both ends\<close>

text \<open>
  C15. Asking the server for the time. The request the client sends is answered by the
  connection of the server with its own clock and the time of the client, and the client takes
  the answer. If both ways take \<open>delay\<close> and the clock of the server is \<open>ahead\<close> of the
  client's, the offset it stores is \<open>ahead - 2 * delay\<close>: the times it computes from then on are
  behind those of the server by the length of the round trip, whatever that is.
\<close>
theorem time_sync_round_trip:
  assumes "msgpack_laws E" and "alive c" and "map_of (nc_announced_topics c) (-1) = Some tt"
    and "unat (micros_since (shd (nc_clock c)) (nc_start_instant c)) = sent"
    and "unat (micros_since (shd (nc_clock d)) (nc_start_instant d)) = sent + 2 * delay"
    and "unat server_clock = sent + delay + ahead" and "2 * delay \<le> ahead" and "sent < 2 ^ 63"
  shows "\<exists>q r m u. update_time E c =
      (Ok (), c\<lparr>nc_clock := stl (nc_clock c), nc_socket_queue := nc_socket_queue c @ [WsBinary q]\<rparr>) \<and>
    incoming E server_clock (WsBinary q) = Ok (TimeReply r) \<and>
    handle_message E (WsBinary r) = Some m \<and> m d = (Ok (), u) \<and>
    u = d\<lparr>nc_clock := stl (nc_clock d), nc_server_time_offset := nc_server_time_offset u\<rparr> \<and>
    unat (nc_server_time_offset u) + 2 * delay = ahead"
proof -
  let ?sent = "micros_since (shd (nc_clock c)) (nc_start_instant c)"
  let ?recv = "micros_since (shd (nc_clock d)) (nc_start_instant d)"
  let ?off = "server_clock - (?recv - ?sent) div 2 - ?recv"
  let ?q = "time_request E (t_type tt) ?sent"
  let ?r = "reply_bytes E server_clock ?sent"
  let ?u = "d\<lparr>nc_clock := stl (nc_clock d), nc_server_time_offset := ?off\<rparr>"
  have sub: "b \<le> a \<Longrightarrow> unat (a - b) = unat a - unat b" for a b :: u64
    by (simp add: unat_sub word_le_nat_alt)
  have le: "?sent \<le> ?recv" using assms(4,5) by (simp add: word_le_nat_alt)
  have half: "unat ((?recv - ?sent) div 2) = delay"
    using assms(4,5) by (simp add: unat_div sub [OF le])
  have le2: "(?recv - ?sent) div 2 \<le> server_clock" using half assms(6) by (simp add: word_le_nat_alt)
  have rest: "unat (server_clock - (?recv - ?sent) div 2) = sent + ahead"
    using half assms(6) by (simp add: sub [OF le2])
  have le3: "?recv \<le> server_clock - (?recv - ?sent) div 2"
    using rest assms(5,7) by (simp add: word_le_nat_alt)
  have off: "unat (nc_server_time_offset ?u) + 2 * delay = ahead"
    using rest assms(5,7) by (simp add: sub [OF le3])
  have asks: "update_time E c =
      (Ok (), c\<lparr>nc_clock := stl (nc_clock c), nc_socket_queue := nc_socket_queue c @ [WsBinary ?q]\<rparr>)"
    using update_time_alive [OF assms(2) msgpack_total [OF assms(1)] assms(3)] by (simp add: push_def)
  have "unat ?sent < 2 ^ 63" using assms(4,8) by simp
  with client_takes_answer [OF assms(1), of server_clock ?sent] new_timestamp_run [OF le refl le2 le3]
  obtain m where m: "handle_message E (WsBinary ?r) = Some m" "m d = (Ok (), ?u)"
    by (simp add: try_bind_Ok act_simps)
  have u: "?u = d\<lparr>nc_clock := stl (nc_clock d), nc_server_time_offset := nc_server_time_offset ?u\<rparr>" by simp
  from asks server_answers [OF assms(1)] m u off show ?thesis by (intro exI conjI)
qed

lemma time_sync_round_trip_witness:
  "\<exists>q r m u. fst (update_time sample_C cl3) = Ok () \<and>
    incoming sample_C 57000 (WsBinary q) = Ok (TimeReply r) \<and> handle_message sample_C (WsBinary r) = Some m \<and>
    m (cl3\<lparr>nc_clock := stl (nc_clock cl3)\<rparr>) = (Ok (), u) \<and> unat (nc_server_time_offset u) = 48000"
proof -
  let ?d = "cl3\<lparr>nc_clock := stl (nc_clock cl3)\<rparr>"
  have "unat (micros_since (shd (nc_clock cl3)) (nc_start_instant cl3)) = 6000"
    "unat (micros_since (shd (nc_clock ?d)) (nc_start_instant ?d)) = 6000 + 2 * 1000"
    "unat (57000 :: u64) = 6000 + 1000 + 50000" "2 * 1000 \<le> (50000 :: nat)" "(6000 :: nat) < 2 ^ 63"
    by (simp_all add: cl3_fields micros_since_def)
  from time_sync_round_trip [OF sample_msgpack_laws cl3_fields(1,8) this]
  obtain q r m u where "fst (update_time sample_C cl3) = Ok ()"
    "incoming sample_C 57000 (WsBinary q) = Ok (TimeReply r)" "handle_message sample_C (WsBinary r) = Some m"
    "m ?d = (Ok (), u)" "unat (nc_server_time_offset u) + 2 * 1000 = 50000"
    by (elim exE conjE) simp
  then show ?thesis by (intro exI [of _ q] exI [of _ r] exI [of _ m] exI [of _ u]) simp
qed

text \<open>
  C5. A topic published and set by a client, from end to end. The text of the client makes the
  server publish the topic under its cleaned name; the bytes of the value pass the checks of the
  connection, reach the parser, and the value the server then holds for the topic is the newer of
  this one, with its 32-bit time, and the one it had. No name the client can be given makes the
  server take the value for one of a metatopic.
\<close>
theorem published_value_arrives:
  assumes "server_reachable Es addr s" and "alive c" and "msgpack_laws Ec" and "speaks type_name Ec Es"
    and "client_publish_topic Ec name ty None c = (Ok topic, c1)"
    and "fst (inner_publish_topic Es \<lparr>pt_name = clean_name name, pt_pubuid = pd_pubuid topic,
           pt_type = type_name ty, pt_properties = None\<rparr> ci s) = Ok k"
    and "rmpv_write Ec v = Some vb" and "reads_as Ec vb v" and "frc_of_rmpv Ec v = Some w"
  shows "\<exists>text bytes m1 s1 m2 s2.
    nc_socket_queue c1 = nc_socket_queue c @ [WsText text] \<and>
    parse_in Es now ci (WsText text) = Some m1 \<and> m1 s = (Ok (), s1) \<and>
    handle_publish_value_w_timestamp Ec topic ts v c1 =
      (Ok (), c1\<lparr>nc_socket_queue := nc_socket_queue c1 @ [WsBinary bytes]\<rparr>) \<and>
    incoming Es clk (WsBinary bytes) = Ok (Forwarded (WsBinary bytes)) \<and>
    parse_in Es now' ci (WsBinary bytes) = Some m2 \<and> m2 s1 = (Ok (), s2) \<and>
    map_of (topic_map s2) (clean_name name) = Some k \<and>
    map_of (topic_value_map s2) k =
      Some (newest (map_of (topic_value_map s1) k) \<lparr>tv_timestamp = ucast ts, tv_value = w\<rparr>)"
proof -
  from client_publish_run [OF assms(2,4,5)] obtain json n where
    topic: "topic = \<lparr>pd_name = clean_name name, pd_pubuid = n, pd_type = ty, pd_properties = None\<rparr>"
    and queue: "nc_socket_queue c1 = nc_socket_queue c @ [WsText json]" and "alive c1"
    and read: "json_read_list Es json = Some [Publish \<lparr>pt_name = clean_name name, pt_pubuid = n,
      pt_type = type_name ty, pt_properties = None\<rparr>]"
    by blast
  let ?p = "\<lparr>pt_name = clean_name name, pt_pubuid = n, pt_type = type_name ty, pt_properties = None\<rparr>"
  from assms(6) topic obtain s1 where run: "inner_publish_topic Es ?p ci s = (Ok k, s1)"
    by (cases "inner_publish_topic Es ?p ci s") simp
  have parsed: "parse_in Es now ci (WsText json) = Some (parse_text Es now ci json)"
    "parse_text Es now ci json s = (Ok (), s1)"
    using read run by (simp_all add: parse_in_def parse_text_def try_bind_def ignore_err_def act_simps)
  from parsed(2) have "server_reachable Es addr s1"
    using parse_text_step [OF assms(1), of now ci json] by simp
  note inv = reachable_inv [OF assms(1)] reachable_inv [OF this]
  from published_topic_there [OF inv run] obtain t where t: "map_of (topics s1) k = Some t" "t_name t = clean_name name"
    by auto
  from publish_effect [OF inv(1) run] obtain cl where name: "map_of (topic_map s1) (clean_name name) = Some k"
    and cl: "map_of (clients s1) ci = Some cl" "bm_get_by_left (cc_pubuid_to_topicidx cl) n = Some k"
    by auto
  have "CHR ''$'' \<notin> set (t_name t)" using t(2) clean_name_chars by simp
  from set_value_effect [OF inv(2) t(1) this, of "\<lparr>tv_timestamp = ucast ts, tv_value = w\<rparr>"] obtain s2 where
    set_val: "set_value \<lparr>tv_timestamp = ucast ts, tv_value = w\<rparr> k s1 = (Ok (), s2)"
    and s2: "topic_map s2 = topic_map s1"
      "map_of (topic_value_map s2) = (map_of (topic_value_map s1))
        (k \<mapsto> newest (map_of (topic_value_map s1) k) \<lparr>tv_timestamp = ucast ts, tv_value = w\<rparr>)"
    by blast
  note takes = server_takes_value [OF assms(3,4,7,8,9) cl set_val]
  from takes(2) obtain m2 where m2: "parse_in Es now' ci (WsBinary (value_bytes Ec (UnsignedInt n) ty ts v)) = Some m2"
    "m2 s1 = (Ok (), s2)" by blast
  have sends: "handle_publish_value_w_timestamp Ec topic ts v c1 =
      (Ok (), c1\<lparr>nc_socket_queue := nc_socket_queue c1 @ [WsBinary (value_bytes Ec (UnsignedInt n) ty ts v)]\<rparr>)"
    using publish_value_alive [OF \<open>alive c1\<close> msgpack_total [OF assms(3)]]
    by (simp add: handle_publish_value_w_timestamp_def topic push_def)
  from s2 name have "map_of (topic_map s2) (clean_name name) = Some k"
    "map_of (topic_value_map s2) k =
      Some (newest (map_of (topic_value_map s1) k) \<lparr>tv_timestamp = ucast ts, tv_value = w\<rparr>)"
    by simp_all
  with queue parsed sends takes(1) m2 show ?thesis by (intro exI conjI)
qed

lemma published_value_arrives_witness:
  "\<exists>text bytes m1 s1 m2 s2.
    nc_socket_queue (snd (client_publish_topic sample_peer ''a$speed'' FrcInt None cp0)) = nc_socket_queue cp0 @ [WsText text] \<and>
    parse_in sample 0 2 (WsText text) = Some m1 \<and> m1 srv2 = (Ok (), s1) \<and>
    parse_in sample 0 2 (WsBinary bytes) = Some m2 \<and> m2 s1 = (Ok (), s2) \<and>
    map_of (topic_map s2) ''aspeed'' = Some 7 \<and>
    map_of (topic_value_map s2) 7 = Some (newest (map_of (topic_value_map s1) 7) \<lparr>tv_timestamp = 5, tv_value = 42\<rparr>)"
proof -
  from client_publish_run [OF alive_cp0 sample_peer_speaks, of "''a$speed''" FrcInt]
  obtain n where run: "client_publish_topic sample_peer ''a$speed'' FrcInt None cp0 =
      (Ok \<lparr>pd_name = ''aspeed'', pd_pubuid = n, pd_type = FrcInt, pd_properties = None\<rparr>,
       snd (client_publish_topic sample_peer ''a$speed'' FrcInt None cp0))"
    by (metis clean_aspeed prod.collapse)
  have pub: "fst (inner_publish_topic sample \<lparr>pt_name = clean_name ''a$speed'', pt_pubuid = m,
      pt_type = stringify FrcInt, pt_properties = None\<rparr> 2 srv2) = Ok 7" for m
    by (simp add: clean_aspeed srv2_eq run_simps)
  have value42: "rmpv_write sample_peer (MpUint 42) = Some (sample_uint 42)"
    "reads_as sample_peer (sample_uint 42) (MpUint 42)" "frc_of_rmpv sample_peer (MpUint 42) = Some 42"
    using sample_reads_asI [OF sample_read_uint, of 42]
    by (simp_all add: reads_as_peer sample_uint_def) (simp_all add: sample_peer_def sample_uint_def)
  from published_value_arrives [OF srv2_reachable alive_cp0 sample_peer_laws sample_peer_speaks run pub value42,
      of 0 5 0 0]
  show ?thesis
  proof (elim exE conjE, goal_cases)
    case (1 j b m1 s1 m2 s2)
    then show ?case
      by (intro exI [of _ j] exI [of _ b] exI [of _ m1] exI [of _ s1] exI [of _ m2] exI [of _ s2])
        (simp add: clean_aspeed)
  qed
qed



end
